(* ===== verification/Go_Prelude.thy ===== *)
theory Go_Prelude
  imports Main "HOL-Library.Word" "HOL-Library.Monad_Syntax"
begin

text \<open>
  Shared vocabulary of the development: the parts of the Go language and of its standard library
  that several components use.

  \<^item> machine integers: \<open>int64\<close> values are \<^typ>\<open>int\<close> with the wrap-around written out
    (\<open>wrap64\<close>), \<open>uint8\<close>, \<open>uint16\<close>, \<open>uint32\<close> and \<open>uint64\<close> values are words;
  \<^item> \<open>time.Time\<close> is the instant in nanoseconds since the zero time (January 1, year 1, UTC), so
    \<open>IsZero\<close> is equality with 0; \<open>Sub\<close> saturates as the package documents;
  \<^item> an \<open>error\<close> value is its text with the sentinels that \<open>errors.Is\<close> finds in its chain;
  \<^item> a byte slice is a list of 8-bit words, and slicing or indexing out of range is \<^term>\<open>None\<close>
    (the panic of the source);
  \<^item> a Go string is a list of bytes (\<^typ>\<open>char\<close>), with the decimal and hexadecimal verbs of
    \<open>fmt\<close> and \<open>utf8.RuneCountInString\<close>.
\<close>

named_theorems go_defs \<open>unfolding of the small standard-library wrappers\<close>
named_theorems panic_free \<open>facts that a computation with panics returns\<close>

section \<open>Machine integers and time\<close>

type_synonym u8 = "8 word"
type_synonym u16 = "16 word"
type_synonym u32 = "32 word"
type_synonym u64 = "64 word"
type_synonym bytes = "u8 list"

definition max_int64 :: int where
  "max_int64 = 2 ^ 63 - 1"

definition min_int64 :: int where
  "min_int64 = - (2 ^ 63)"

definition is_int64 :: "int \<Rightarrow> bool" where
  "is_int64 x \<longleftrightarrow> min_int64 \<le> x \<and> x \<le> max_int64"

text \<open>The value an \<open>int64\<close> operation leaves: two's complement wrap-around.\<close>

definition wrap64 :: "int \<Rightarrow> int" where
  "wrap64 x = (x + 2 ^ 63) mod 2 ^ 64 - 2 ^ 63"

lemma wrap64_id: "is_int64 x \<Longrightarrow> wrap64 x = x"
  by (simp add: wrap64_def is_int64_def min_int64_def max_int64_def)

lemma wrap64_range: "is_int64 (wrap64 x)"
proof -
  have "0 \<le> (x + 2 ^ 63) mod 2 ^ 64" and "(x + 2 ^ 63) mod 2 ^ 64 < (2::int) ^ 64"
    by simp_all
  then show ?thesis
    by (simp add: wrap64_def is_int64_def min_int64_def max_int64_def)
qed

text \<open>Integer division and remainder of Go truncate towards zero.\<close>

definition go_div :: "int \<Rightarrow> int \<Rightarrow> int" where
  "go_div a b = sgn a * sgn b * (\<bar>a\<bar> div \<bar>b\<bar>)"

definition go_mod :: "int \<Rightarrow> int \<Rightarrow> int" where
  "go_mod a b = a - b * go_div a b"

lemma go_mod_bounds: "0 \<le> a \<Longrightarrow> 0 < b \<Longrightarrow> 0 \<le> go_mod a b \<and> go_mod a b < b"
proof -
  assume "0 \<le> a" "0 < b"
  then have "go_mod a b = a mod b"
    by (cases "a = 0") (simp_all add: go_mod_def go_div_def minus_mult_div_eq_mod)
  with \<open>0 < b\<close> show ?thesis by simp
qed

lemma go_div_nonneg: "0 \<le> a \<Longrightarrow> 0 < b \<Longrightarrow> go_div a b = a div b"
  by (cases "a = 0") (simp_all add: go_div_def)

lemma go_mod_nonneg: "0 \<le> a \<Longrightarrow> 0 < b \<Longrightarrow> go_mod a b = a mod b"
  by (simp add: go_mod_def go_div_nonneg minus_mult_div_eq_mod)

type_synonym go_time = int
type_synonym duration = int

definition time_zero :: go_time where
  "time_zero = 0"

definition IsZero :: "go_time \<Rightarrow> bool" where
  "IsZero t \<longleftrightarrow> t = time_zero"

text \<open>\<open>time.Time.Sub\<close> returns the largest (smallest) duration when the difference overflows.\<close>

definition time_Sub :: "go_time \<Rightarrow> go_time \<Rightarrow> duration" where
  "time_Sub t u = max min_int64 (min max_int64 (t - u))"

definition second :: duration where
  "second = 1000000000"

text \<open>Nanoseconds from the zero time to the Unix epoch; \<open>UnixNano\<close> is an \<open>int64\<close>.\<close>

definition unix_epoch :: go_time where
  "unix_epoch = 62135596800 * 1000000000"

definition UnixNano :: "go_time \<Rightarrow> int" where
  "UnixNano t = wrap64 (t - unix_epoch)"

lemma UnixNano_inj:
  assumes "is_int64 (t - unix_epoch)" and "is_int64 (u - unix_epoch)"
    and "UnixNano t = UnixNano u"
  shows "t = u"
  using assms by (simp add: UnixNano_def wrap64_id)

section \<open>Errors\<close>

text \<open>The sentinel errors of the program and of the packages it calls.\<close>

datatype sentinel =
    ErrStoreFailedBeforeCommit
  | ErrStoreUncertain
  | ErrNoRows
  | ErrNotExist
  | CtxCanceled
  | CtxDeadlineExceeded
  | ErrMissingStorageBudget
  | ErrInvalidQueueCapacity
  | ErrQueueDepthExceedsCap
  | ErrUnavailableRSS

datatype go_error = GoError (err_chain: "sentinel list") (err_text: string)

definition errors_Is :: "go_error \<Rightarrow> sentinel \<Rightarrow> bool" where
  "errors_Is e s \<longleftrightarrow> s \<in> set (err_chain e)"

text \<open>\<open>errors.New\<close> and \<open>fmt.Errorf\<close> without a wrapped error.\<close>

definition errors_New :: "string \<Rightarrow> go_error" where
  "errors_New s = GoError [] s"

text \<open>\<open>fmt.Errorf\<close> with a prefix and one wrapped error.\<close>

definition wrap_err :: "string \<Rightarrow> go_error \<Rightarrow> go_error" where
  "wrap_err p e = GoError (err_chain e) (p @ err_text e)"

text \<open>\<open>errors.Join\<close> of an accumulated error with a further one.\<close>

definition errors_Join :: "go_error option \<Rightarrow> go_error \<Rightarrow> go_error option" where
  "errors_Join acc e =
     (case acc of
        None \<Rightarrow> Some e
      | Some a \<Rightarrow> Some (GoError (err_chain a @ err_chain e) (err_text a @ [CHR 0x0A] @ err_text e)))"

lemma errors_Is_New [simp]: "\<not> errors_Is (errors_New s) x"
  by (simp add: errors_Is_def errors_New_def)

lemma errors_Is_wrap [simp]: "errors_Is (wrap_err p e) x = errors_Is e x"
  by (simp add: errors_Is_def wrap_err_def)

lemma errors_Is_GoError [simp]: "errors_Is (GoError c t) x \<longleftrightarrow> x \<in> set c"
  by (simp add: errors_Is_def)

lemma errors_Join_not_None [simp]: "errors_Join acc e \<noteq> None"
  by (simp add: errors_Join_def split: option.splits)

lemma errors_Join_Is:
  "errors_Join acc e = Some r \<Longrightarrow>
     errors_Is r x \<longleftrightarrow> (\<exists>a. acc = Some a \<and> errors_Is a x) \<or> errors_Is e x"
  by (auto simp: errors_Join_def errors_Is_def split: option.splits)

section \<open>Byte slices\<close>

text \<open>The expressions \<open>b[lo:hi]\<close>, \<open>b[lo:]\<close> and \<open>b[i]\<close>; out of range is the panic \<^term>\<open>None\<close>.
  (Go allows a slice up to the capacity; the model is stricter, so that what does not panic here
  does not panic in Go either.)\<close>

definition slice :: "'a list \<Rightarrow> nat \<Rightarrow> nat \<Rightarrow> 'a list option" where
  "slice b lo hi = (if lo \<le> hi \<and> hi \<le> length b then Some (take (hi - lo) (drop lo b)) else None)"

definition slice_from :: "'a list \<Rightarrow> nat \<Rightarrow> 'a list option" where
  "slice_from b lo = (if lo \<le> length b then Some (drop lo b) else None)"

definition byte_at :: "'a list \<Rightarrow> nat \<Rightarrow> 'a option" where
  "byte_at b i = (if i < length b then Some (b ! i) else None)"

lemma slice_Some [panic_free]:
  "lo \<le> hi \<Longrightarrow> hi \<le> length b \<Longrightarrow> slice b lo hi = Some (take (hi - lo) (drop lo b))"
  by (simp add: slice_def)

lemma slice_from_Some [panic_free]: "lo \<le> length b \<Longrightarrow> slice_from b lo = Some (drop lo b)"
  by (simp add: slice_from_def)

lemma byte_at_Some [panic_free]: "i < length b \<Longrightarrow> byte_at b i = Some (b ! i)"
  by (simp add: byte_at_def)

lemma slice_length: "slice b lo hi = Some s \<Longrightarrow> length s = hi - lo"
  by (auto simp: slice_def split: if_splits)

text \<open>\<open>binary.BigEndian.Uint16\<close> of a two-byte slice (it panics on a shorter one).\<close>

definition be16 :: "bytes \<Rightarrow> u16 option" where
  "be16 b = (case b of x # y # _ \<Rightarrow> Some (push_bit 8 (ucast x) + ucast y) | _ \<Rightarrow> None)"

text \<open>Reading a big-endian 16-bit field at an offset, \<open>BigEndian.Uint16(b[i:i+2])\<close>.\<close>

definition be16_at :: "bytes \<Rightarrow> nat \<Rightarrow> u16 option" where
  "be16_at b i = do { s \<leftarrow> slice b i (i + 2); be16 s }"

definition be16_val :: "u8 \<Rightarrow> u8 \<Rightarrow> u16" where
  "be16_val x y = push_bit 8 (ucast x) + ucast y"

lemma take_2_drop: "i + 2 \<le> length b \<Longrightarrow> take 2 (drop i b) = [b ! i, b ! Suc i]"
proof -
  assume h: "i + 2 \<le> length b"
  then have "drop i b = b ! i # b ! Suc i # drop (Suc (Suc i)) b"
    by (metis Cons_nth_drop_Suc add_2_eq_Suc' le_Suc_eq not_less_eq_eq not_le)
  then show ?thesis by (simp add: numeral_2_eq_2)
qed

lemma be16_at_Some [panic_free]:
  "i + 2 \<le> length b \<Longrightarrow> be16_at b i = Some (be16_val (b ! i) (b ! Suc i))"
  by (simp add: be16_at_def slice_def take_2_drop be16_def be16_val_def)

lemma unat_be16_val: "unat (be16_val x y) = 256 * unat x + unat y"
proof -
  have "unat x < 256" and "unat y < 256"
    using unsigned_less [of x] unsigned_less [of y] by simp_all
  then have lt: "256 * unat x + unat y < 65536" by simp
  have "be16_val x y = (of_nat (256 * unat x + unat y) :: u16)"
    by (simp add: be16_val_def push_bit_eq_mult mult.commute)
  then have "unat (be16_val x y) = (256 * unat x + unat y) mod 2 ^ 16"
    by (simp only: unat_of_nat len_num1 len_bit0 len_bit1) simp
  with lt show ?thesis by simp
qed

section \<open>Strings\<close>

text \<open>The verb \<open>%d\<close>.\<close>

definition digit :: "nat \<Rightarrow> char" where
  "digit n = char_of (48 + n)"

fun dec_nat :: "nat \<Rightarrow> string" where
  "dec_nat n = (if n < 10 then [digit n] else dec_nat (n div 10) @ [digit (n mod 10)])"

declare dec_nat.simps [simp del]

definition dec_int :: "int \<Rightarrow> string" where
  "dec_int i = (if i < 0 then CHR ''-'' # dec_nat (nat (- i)) else dec_nat (nat i))"

definition digit_val :: "char \<Rightarrow> nat" where
  "digit_val c = of_char c - 48"

definition undec :: "string \<Rightarrow> nat" where
  "undec s = foldl (\<lambda>a c. 10 * a + digit_val c) 0 s"

lemma digit_val_digit: "n < 10 \<Longrightarrow> digit_val (digit n) = n"
  by (simp add: digit_val_def digit_def)

lemma undec_dec_nat: "undec (dec_nat n) = n"
proof (induction n rule: dec_nat.induct)
  case (1 n)
  show ?case
  proof (cases "n < 10")
    case True
    then show ?thesis by (simp add: dec_nat.simps [of n] undec_def digit_val_digit)
  next
    case False
    with "1" show ?thesis
      by (simp add: dec_nat.simps [of n] undec_def digit_val_digit)
  qed
qed

lemma dec_nat_inj: "dec_nat m = dec_nat n \<Longrightarrow> m = n"
  by (metis undec_dec_nat)

lemma digit_neq_minus: "n < 10 \<Longrightarrow> digit n \<noteq> CHR ''-''"
proof
  assume n: "n < 10" and "digit n = CHR ''-''"
  then have "of_char (digit n) = (of_char (CHR ''-'') :: nat)" by simp
  with n show False by (simp add: digit_def)
qed

lemma minus_notin_dec_nat: "CHR ''-'' \<notin> set (dec_nat n)"
proof (induction n rule: dec_nat.induct)
  case (1 n)
  then show ?case
    using digit_neq_minus [of n] digit_neq_minus [of "n mod 10"]
    by (auto simp: dec_nat.simps [of n])
qed

lemma dec_nat_nonempty: "dec_nat n \<noteq> []"
  by (simp add: dec_nat.simps [of n])

lemma dec_int_inj: "dec_int i = dec_int j \<Longrightarrow> i = j"
proof -
  assume h: "dec_int i = dec_int j"
  have hd: "dec_nat n = x # xs \<Longrightarrow> x \<noteq> CHR ''-''" for n x xs
    using minus_notin_dec_nat [of n] by auto
  show "i = j"
  proof (cases "i < 0"; cases "j < 0")
    assume "i < 0" "j < 0"
    with h have "nat (- i) = nat (- j)" by (simp add: dec_int_def dec_nat_inj)
    with \<open>i < 0\<close> \<open>j < 0\<close> show ?thesis by simp
  next
    assume "\<not> i < 0" "\<not> j < 0"
    with h have "nat i = nat j" by (simp add: dec_int_def dec_nat_inj)
    with \<open>\<not> i < 0\<close> \<open>\<not> j < 0\<close> show ?thesis by simp
  qed (use h hd in \<open>auto simp: dec_int_def dest: sym\<close>)
qed

text \<open>The verbs \<open>%02x\<close> (lower case) and \<open>%04X\<close> (upper case).\<close>

definition hex_digit :: "bool \<Rightarrow> nat \<Rightarrow> char" where
  "hex_digit upper n =
     (if n < 10 then digit n else char_of ((if upper then 55 else 87) + n))"

definition hex_byte :: "u8 \<Rightarrow> string" where
  "hex_byte b = [hex_digit False (unat b div 16), hex_digit False (unat b mod 16)]"

definition hex4_upper :: "u16 \<Rightarrow> string" where
  "hex4_upper w = map (\<lambda>k. hex_digit True (unat w div 16 ^ k mod 16)) [3, 2, 1, 0]"

text \<open>Joining with a separator.\<close>

fun join :: "'a list \<Rightarrow> 'a list list \<Rightarrow> 'a list" where
  "join sep [] = []"
| "join sep [x] = x"
| "join sep (x # xs) = x @ sep @ join sep xs"

text \<open>The regular expression \<open>^[a-zA-Z0-9-]+$\<close> of the tenant and site identifiers.\<close>

definition id_char :: "char \<Rightarrow> bool" where
  "id_char c \<longleftrightarrow>
     (let n = of_char c :: nat in
      97 \<le> n \<and> n \<le> 122 \<or> 65 \<le> n \<and> n \<le> 90 \<or> 48 \<le> n \<and> n \<le> 57 \<or> n = 45)"

definition id_regex_match :: "string \<Rightarrow> bool" where
  "id_regex_match s \<longleftrightarrow> s \<noteq> [] \<and> list_all id_char s"

subsection \<open>Counting runes\<close>

text \<open>
  \<open>utf8.RuneCountInString\<close>: a byte below 0x80 is a rune; otherwise the lead byte gives the length
  of the encoding and the range its second byte must lie in; a truncated or ill-formed encoding
  counts one rune for its first byte.
\<close>

definition code :: "char \<Rightarrow> nat" where
  "code c = of_char c"

text \<open>Size of the encoding a lead byte announces (1 for an invalid lead byte) and the range of the
  second byte.\<close>

definition lead_info :: "nat \<Rightarrow> nat \<times> nat \<times> nat" where
  "lead_info n =
     (if 0xC2 \<le> n \<and> n \<le> 0xDF then (2, 0x80, 0xBF)
      else if n = 0xE0 then (3, 0xA0, 0xBF)
      else if n = 0xED then (3, 0x80, 0x9F)
      else if 0xE1 \<le> n \<and> n \<le> 0xEF then (3, 0x80, 0xBF)
      else if n = 0xF0 then (4, 0x90, 0xBF)
      else if 0xF1 \<le> n \<and> n \<le> 0xF3 then (4, 0x80, 0xBF)
      else if n = 0xF4 then (4, 0x80, 0x8F)
      else (1, 0, 0))"

definition is_cont :: "char \<Rightarrow> bool" where
  "is_cont c \<longleftrightarrow> 0x80 \<le> code c \<and> code c \<le> 0xBF"

definition rune_size :: "string \<Rightarrow> nat" where
  "rune_size s =
     (case s of
        [] \<Rightarrow> 1
      | c # rest \<Rightarrow>
          (if code c < 0x80 then 1
           else case lead_info (code c) of (sz, lo, hi) \<Rightarrow>
             if sz = 1 \<or> length s < sz then 1
             else if code (rest ! 0) < lo \<or> hi < code (rest ! 0) then 1
             else if sz = 2 then 2
             else if \<not> is_cont (rest ! 1) then 1
             else if sz = 3 then 3
             else if \<not> is_cont (rest ! 2) then 1
             else 4))"

lemma rune_size_pos: "0 < rune_size s"
  by (auto simp: rune_size_def split: list.splits prod.splits)

function RuneCountInString :: "string \<Rightarrow> nat" where
  "RuneCountInString s = (if s = [] then 0 else Suc (RuneCountInString (drop (rune_size s) s)))"
  by pat_completeness auto
termination
  by (relation "measure length") (auto simp: rune_size_pos)

declare RuneCountInString.simps [simp del]

text \<open>A string has at most as many runes as bytes, and exactly as many when it is ASCII.\<close>

lemma RuneCount_le_length: "RuneCountInString s \<le> length s"
proof (induction s rule: RuneCountInString.induct)
  case (1 s)
  show ?case
  proof (cases "s = []")
    case True
    then show ?thesis by (simp add: RuneCountInString.simps)
  next
    case False
    with "1" have "RuneCountInString (drop (rune_size s) s) \<le> length s - rune_size s" by simp
    moreover have "0 < rune_size s" "0 < length s" using False by (simp_all add: rune_size_pos)
    ultimately have "Suc (RuneCountInString (drop (rune_size s) s)) \<le> length s" by linarith
    with False show ?thesis by (simp add: RuneCountInString.simps [of s])
  qed
qed

lemma RuneCount_ascii: "list_all (\<lambda>c. code c < 0x80) s \<Longrightarrow> RuneCountInString s = length s"
proof (induction s)
  case Nil
  then show ?case by (simp add: RuneCountInString.simps)
next
  case (Cons c s)
  then have "rune_size (c # s) = 1" by (simp add: rune_size_def)
  with Cons show ?case by (simp add: RuneCountInString.simps [of "c # s"])
qed

lemma id_regex_ascii: "id_regex_match s \<Longrightarrow> list_all (\<lambda>c. code c < 0x80) s"
  by (auto simp: id_regex_match_def id_char_def code_def Let_def list_all_iff)

end
