(* ===== verification/Go_Float.thy ===== *)
theory Go_Float
  imports Go_Prelude Complex_Main
begin

text \<open>
  Go's \<open>float64\<close>: IEEE 754 binary64 values over exact rationals. An operation computes the exact
  result and rounds it to 53 significant bits, ties to even, with gradual underflow below
  \<open>2 ^ (-1022)\<close> and overflow to an infinity at \<open>2 ^ 1024\<close>. The sign of a zero is not kept: the
  program never divides by a zero it has not tested for, so no value of it depends on that sign.

  The lemmas give what the resource governor rests on: rounding is monotone, it leaves
  representable values alone, and so the ratios and differences the code computes stay in the
  ranges it checks for.
\<close>

datatype f64 = NaN | PosInf | NegInf | Fin rat

section \<open>Rounding\<close>

abbreviation pow2 :: "int \<Rightarrow> rat" where
  "pow2 e \<equiv> 2 powi e"

function ilog2 :: "int \<Rightarrow> nat" where
  "ilog2 n = (if n < 2 then 0 else Suc (ilog2 (n div 2)))"
  by pat_completeness auto
termination
  by (relation "measure nat") auto

declare ilog2.simps [simp del]

text \<open>The binary exponent of a positive rational.\<close>

definition flog2 :: "rat \<Rightarrow> int" where
  "flog2 q =
     (case quotient_of q of (n, d) \<Rightarrow>
        let k = int (ilog2 n) - int (ilog2 d)
        in if pow2 k \<le> q then k else k - 1)"

text \<open>Nearest integer, ties to even.\<close>

definition rne :: "rat \<Rightarrow> int" where
  "rne x =
     (let f = \<lfloor>x\<rfloor>; d = x - of_int f
      in if d < 1 / 2 then f
         else if 1 / 2 < d then f + 1
         else if even f then f else f + 1)"

definition ulp_exp :: "rat \<Rightarrow> int" where
  "ulp_exp q = max (flog2 \<bar>q\<bar> - 52) (- 1074)"

definition round_rat :: "rat \<Rightarrow> rat" where
  "round_rat q =
     (if q = 0 then 0
      else of_int (rne (q / pow2 (ulp_exp q))) * pow2 (ulp_exp q))"

text \<open>The first power of two beyond the finite values.\<close>

definition f64_top :: rat where
  "f64_top = 2 ^ 1024"

definition f64_of_rat :: "rat \<Rightarrow> f64" where
  "f64_of_rat q =
     (let r = round_rat q
      in if f64_top \<le> r then PosInf else if r \<le> - f64_top then NegInf else Fin r)"

text \<open>The values a \<open>float64\<close> can hold.\<close>

fun f64_ok :: "f64 \<Rightarrow> bool" where
  "f64_ok (Fin r) \<longleftrightarrow> round_rat r = r \<and> \<bar>r\<bar> < f64_top"
| "f64_ok _ \<longleftrightarrow> True"

section \<open>Operations\<close>

definition f64_of_int :: "int \<Rightarrow> f64" where
  "f64_of_int i = f64_of_rat (of_int i)"

definition f64_of_u64 :: "u64 \<Rightarrow> f64" where
  "f64_of_u64 w = f64_of_int (int (unat w))"

fun f64_IsNaN :: "f64 \<Rightarrow> bool" where
  "f64_IsNaN NaN = True"
| "f64_IsNaN _ = False"

fun f64_IsInf :: "f64 \<Rightarrow> bool" where
  "f64_IsInf PosInf = True"
| "f64_IsInf NegInf = True"
| "f64_IsInf _ = False"

fun f64_le :: "f64 \<Rightarrow> f64 \<Rightarrow> bool" where
  "f64_le NaN _ = False"
| "f64_le _ NaN = False"
| "f64_le NegInf _ = True"
| "f64_le _ PosInf = True"
| "f64_le (Fin a) (Fin b) = (a \<le> b)"
| "f64_le _ _ = False"

definition f64_lt :: "f64 \<Rightarrow> f64 \<Rightarrow> bool" where
  "f64_lt a b \<longleftrightarrow> f64_le a b \<and> \<not> f64_le b a"

definition f64_ge :: "f64 \<Rightarrow> f64 \<Rightarrow> bool" where
  "f64_ge a b = f64_le b a"

definition f64_gt :: "f64 \<Rightarrow> f64 \<Rightarrow> bool" where
  "f64_gt a b = f64_lt b a"

fun f64_sub :: "f64 \<Rightarrow> f64 \<Rightarrow> f64" where
  "f64_sub (Fin a) (Fin b) = f64_of_rat (a - b)"
| "f64_sub NaN _ = NaN"
| "f64_sub _ NaN = NaN"
| "f64_sub PosInf PosInf = NaN"
| "f64_sub NegInf NegInf = NaN"
| "f64_sub PosInf _ = PosInf"
| "f64_sub NegInf _ = NegInf"
| "f64_sub (Fin _) PosInf = NegInf"
| "f64_sub (Fin _) NegInf = PosInf"

definition inf_of_sign :: "rat \<Rightarrow> f64" where
  "inf_of_sign s = (if s = 0 then NaN else if 0 < s then PosInf else NegInf)"

fun f64_sign :: "f64 \<Rightarrow> rat" where
  "f64_sign (Fin a) = sgn a"
| "f64_sign PosInf = 1"
| "f64_sign NegInf = - 1"
| "f64_sign NaN = 0"

fun f64_mul :: "f64 \<Rightarrow> f64 \<Rightarrow> f64" where
  "f64_mul (Fin a) (Fin b) = f64_of_rat (a * b)"
| "f64_mul NaN _ = NaN"
| "f64_mul _ NaN = NaN"
| "f64_mul x y = inf_of_sign (f64_sign x * f64_sign y)"

fun f64_div :: "f64 \<Rightarrow> f64 \<Rightarrow> f64" where
  "f64_div (Fin a) (Fin b) =
     (if b = 0 then inf_of_sign (sgn a) else f64_of_rat (a / b))"
| "f64_div NaN _ = NaN"
| "f64_div _ NaN = NaN"
| "f64_div (Fin _) _ = Fin 0"
| "f64_div x (Fin b) = inf_of_sign (f64_sign x * (if b < 0 then - 1 else 1))"
| "f64_div _ _ = NaN"

text \<open>The conversion \<open>int64(x)\<close> truncates towards zero. Out of range Go leaves the value to the
  implementation; the model takes the one of amd64.\<close>

fun int64_of_f64 :: "f64 \<Rightarrow> int" where
  "int64_of_f64 (Fin a) =
     (let t = (if a < 0 then \<lceil>a\<rceil> else \<lfloor>a\<rfloor>) in if is_int64 t then t else min_int64)"
| "int64_of_f64 _ = min_int64"

section \<open>Properties of rounding\<close>

lemma ilog2_bounds: "0 < n \<Longrightarrow> 2 ^ ilog2 n \<le> n \<and> n < 2 ^ Suc (ilog2 n)"
proof (induction n rule: ilog2.induct)
  case (1 n)
  show ?case
  proof (cases "n < 2")
    case True
    with "1.prems" have "n = 1" by simp
    then show ?thesis by (simp add: ilog2.simps)
  next
    case False
    with "1.IH" have "2 ^ ilog2 (n div 2) \<le> n div 2" "n div 2 < 2 ^ Suc (ilog2 (n div 2))"
      by simp_all
    then have "2 * 2 ^ ilog2 (n div 2) \<le> n" "n < 4 * 2 ^ ilog2 (n div 2)"
      by (simp_all only: power_Suc)
    with False show ?thesis by (simp add: ilog2.simps [of n])
  qed
qed

lemma pow2_pos [simp]: "0 < pow2 e"
  by (simp add: zero_less_power_int)

lemma pow2_add: "pow2 (a + b) = pow2 a * pow2 b"
  by (simp add: power_int_add)

lemma pow2_diff: "pow2 (a - b) = pow2 a / pow2 b"
  by (simp add: power_int_diff)

lemma pow2_mono: "a \<le> b \<Longrightarrow> pow2 a \<le> pow2 b"
  by (rule power_int_increasing) simp_all

lemma pow2_less: "pow2 a < pow2 b \<longleftrightarrow> a < b"
  by (meson linorder_not_le not_less_iff_gr_or_eq order.strict_trans1 pow2_mono
      power_int_strict_increasing one_less_numeral_iff semiring_norm(76))

lemma pow2_nat: "pow2 (int n) = 2 ^ n"
  by simp

lemma pow2_int: "0 \<le> e \<Longrightarrow> pow2 e = of_int (2 ^ nat e)"
  using pow2_nat [of "nat e"] by simp

lemma flog2_bounds:
  assumes "0 < q"
  shows "pow2 (flog2 q) \<le> q" and "q < pow2 (flog2 q + 1)"
proof -
  obtain n d where nd: "quotient_of q = (n, d)" by (cases "quotient_of q")
  then have d: "0 < d" and q: "q = of_int n / of_int d"
    by (rule quotient_of_denom_pos, rule quotient_of_div)
  with assms have n: "0 < n" by (simp add: zero_less_divide_iff)
  let ?a = "ilog2 n" and ?b = "ilog2 d"
  let ?k = "int ?a - int ?b"
  have N: "2 ^ ?a \<le> n" "n < 2 ^ Suc ?a" and D: "2 ^ ?b \<le> d" "d < 2 ^ Suc ?b"
    using ilog2_bounds [of n] ilog2_bounds [of d] n d by simp_all
  have n1: "(2::rat) ^ ?a \<le> of_int n" and n2: "of_int n < (2::rat) ^ Suc ?a"
    using N by (metis of_int_le_iff of_int_numeral of_int_power, metis of_int_less_iff of_int_numeral of_int_power)
  have d1: "(2::rat) ^ ?b \<le> of_int d" and d2: "of_int d < (2::rat) ^ Suc ?b"
    using D by (metis of_int_le_iff of_int_numeral of_int_power, metis of_int_less_iff of_int_numeral of_int_power)
  have k: "pow2 ?k = 2 ^ ?a / 2 ^ ?b" by (simp add: pow2_diff)
  have up: "q < pow2 (?k + 1)"
  proof -
    have "of_int n / of_int d \<le> of_int n / (2 :: rat) ^ ?b"
      using d1 n d by (simp add: frac_le)
    also have "\<dots> < 2 ^ Suc ?a / 2 ^ ?b" using n2 by (simp add: divide_strict_right_mono)
    finally show ?thesis using q k by (simp add: pow2_add mult.commute)
  qed
  have low: "pow2 (?k - 1) \<le> q"
  proof -
    have "2 ^ ?a / 2 ^ Suc ?b \<le> 2 ^ ?a / (of_int d :: rat)"
      using d2 d by (simp add: frac_le)
    also have "\<dots> \<le> of_int n / of_int d" using n1 d by (simp add: divide_right_mono)
    finally show ?thesis using q k by (simp add: pow2_diff)
  qed
  have fl: "flog2 q = (if pow2 ?k \<le> q then ?k else ?k - 1)"
    by (simp add: flog2_def nd Let_def)
  show "pow2 (flog2 q) \<le> q" using low by (simp add: fl)
  show "q < pow2 (flog2 q + 1)" using up by (simp add: fl)
qed

lemma flog2_mono: "0 < x \<Longrightarrow> x \<le> y \<Longrightarrow> flog2 x \<le> flog2 y"
proof -
  assume "0 < x" "x \<le> y"
  then have "pow2 (flog2 x) < pow2 (flog2 y + 1)"
    using flog2_bounds [of x] flog2_bounds [of y] by linarith
  then show ?thesis by (simp add: pow2_less)
qed

lemma rne_int [simp]: "rne (of_int n) = n"
  by (simp add: rne_def)

lemma rne_dist: "\<bar>x - of_int (rne x)\<bar> \<le> 1 / 2"
proof -
  have "of_int \<lfloor>x\<rfloor> \<le> x" "x < of_int \<lfloor>x\<rfloor> + 1" by linarith+
  then show ?thesis by (auto simp: rne_def Let_def abs_le_iff)
qed

lemma rne_mono: "x \<le> y \<Longrightarrow> rne x \<le> rne y"
proof -
  assume xy: "x \<le> y"
  then have f: "\<lfloor>x\<rfloor> \<le> \<lfloor>y\<rfloor>" by (rule floor_mono)
  have ub: "rne x \<le> \<lfloor>x\<rfloor> + 1" and lb: "\<lfloor>y\<rfloor> \<le> rne y"
    by (auto simp: rne_def Let_def)
  show ?thesis
  proof (cases "\<lfloor>x\<rfloor> = \<lfloor>y\<rfloor>")
    case True
    with xy show ?thesis by (auto simp: rne_def Let_def)
  next
    case False
    with f have "\<lfloor>x\<rfloor> + 1 \<le> \<lfloor>y\<rfloor>" by simp
    with ub lb show ?thesis by linarith
  qed
qed

lemma rne_uminus: "rne (- x) = - rne x"
proof (cases "x = of_int \<lfloor>x\<rfloor>")
  case True
  then show ?thesis by (metis of_int_minus rne_int)
next
  case False
  then have c: "\<lfloor>- x\<rfloor> = - \<lfloor>x\<rfloor> - 1"
    by linarith
  show ?thesis by (auto simp: rne_def Let_def c)
qed

lemma round_rat_zero [simp]: "round_rat 0 = 0"
  by (simp add: round_rat_def)

lemma round_rat_uminus: "round_rat (- q) = - round_rat q"
  by (simp add: round_rat_def ulp_exp_def rne_uminus)

lemma round_rat_nonneg: "0 \<le> q \<Longrightarrow> 0 \<le> round_rat q"
proof -
  assume "0 \<le> q"
  then have "0 \<le> q / pow2 (ulp_exp q)" by simp
  then have "rne (of_int 0) \<le> rne (q / pow2 (ulp_exp q))" by (intro rne_mono) simp
  then have "0 \<le> rne (q / pow2 (ulp_exp q))" by (simp only: rne_int)
  then show ?thesis by (simp add: round_rat_def)
qed

text \<open>Rounding does not cross a power of two that lies on the grid of its argument.\<close>

lemma round_rat_le_grid:
  assumes "0 < x" and "x \<le> of_int m * pow2 e" and "ulp_exp x \<le> e"
  shows "round_rat x \<le> of_int m * pow2 e"
proof -
  let ?u = "ulp_exp x"
  have "x / pow2 ?u \<le> of_int m * pow2 (e - ?u)"
    using assms(2) by (simp add: pow2_diff divide_right_mono)
  also have "\<dots> = of_int (m * 2 ^ nat (e - ?u))"
    using assms(3) by (simp add: pow2_int)
  finally have "rne (x / pow2 ?u) \<le> rne (of_int (m * 2 ^ nat (e - ?u)))" by (rule rne_mono)
  then have "(of_int (rne (x / pow2 ?u)) :: rat) \<le> of_int (m * 2 ^ nat (e - ?u))"
    by (simp only: rne_int of_int_le_iff)
  then have "(of_int (rne (x / pow2 ?u)) :: rat) \<le> of_int m * pow2 (e - ?u)"
    using assms(3) by (simp add: pow2_int)
  then have "of_int (rne (x / pow2 ?u)) * pow2 ?u \<le> of_int m * pow2 (e - ?u) * pow2 ?u"
    by (simp add: mult_right_mono)
  then show ?thesis using assms(1) by (simp add: round_rat_def pow2_diff)
qed

lemma round_rat_ge_grid:
  assumes "0 < x" and "of_int m * pow2 e \<le> x" and "ulp_exp x \<le> e"
  shows "of_int m * pow2 e \<le> round_rat x"
proof -
  let ?u = "ulp_exp x"
  have "of_int m * pow2 (e - ?u) \<le> x / pow2 ?u"
    using assms(2) by (simp add: pow2_diff divide_right_mono)
  moreover have "of_int m * pow2 (e - ?u) = of_int (m * 2 ^ nat (e - ?u))"
    using assms(3) by (simp add: pow2_int)
  ultimately have "rne (of_int (m * 2 ^ nat (e - ?u))) \<le> rne (x / pow2 ?u)"
    by (intro rne_mono) simp
  then have "(of_int (m * 2 ^ nat (e - ?u)) :: rat) \<le> of_int (rne (x / pow2 ?u))"
    by (simp only: rne_int of_int_le_iff)
  then have "of_int m * pow2 (e - ?u) \<le> (of_int (rne (x / pow2 ?u)) :: rat)"
    using assms(3) by (simp add: pow2_int)
  then have "of_int m * pow2 (e - ?u) * pow2 ?u \<le> of_int (rne (x / pow2 ?u)) * pow2 ?u"
    by (simp add: mult_right_mono)
  then show ?thesis using assms(1) by (simp add: round_rat_def pow2_diff)
qed

lemma round_rat_mono_pos:
  assumes x: "0 < x" and xy: "x \<le> y"
  shows "round_rat x \<le> round_rat y"
proof (cases "ulp_exp x = ulp_exp y")
  case True
  have "rne (x / pow2 (ulp_exp x)) \<le> rne (y / pow2 (ulp_exp x))"
    using xy by (intro rne_mono) (simp add: divide_right_mono)
  then show ?thesis using x xy True by (simp add: round_rat_def mult_right_mono)
next
  case False
  let ?k = "flog2 y"
  have y: "0 < y" using x xy by simp
  have "flog2 x \<le> ?k" using x xy by (rule flog2_mono)
  with False x y have k: "ulp_exp x < ?k - 52" "ulp_exp y = ?k - 52" "flog2 x < ?k"
    by (auto simp: ulp_exp_def max_def split: if_splits)
  have "x < pow2 (flog2 x + 1)" using x by (rule flog2_bounds)
  also have "\<dots> \<le> pow2 ?k" using k by (intro pow2_mono) simp
  finally have "round_rat x \<le> of_int 1 * pow2 ?k"
    using x k by (intro round_rat_le_grid) simp_all
  moreover have "of_int 1 * pow2 ?k \<le> round_rat y"
    using y k flog2_bounds(1) [OF y] by (intro round_rat_ge_grid) simp_all
  ultimately show ?thesis by simp
qed

theorem round_rat_mono: "x \<le> y \<Longrightarrow> round_rat x \<le> round_rat y"
proof -
  assume xy: "x \<le> y"
  consider "0 < x" | "x \<le> 0" "0 \<le> y" | "y < 0" by linarith
  then show ?thesis
  proof cases
    case 1
    then show ?thesis using xy by (rule round_rat_mono_pos)
  next
    case 2
    then have "round_rat x \<le> 0"
      using round_rat_nonneg [of "- x"] by (simp add: round_rat_uminus)
    also have "0 \<le> round_rat y" using 2 by (intro round_rat_nonneg)
    finally show ?thesis .
  next
    case 3
    then have "round_rat (- y) \<le> round_rat (- x)" using xy by (intro round_rat_mono_pos) simp_all
    then show ?thesis by (simp add: round_rat_uminus)
  qed
qed

text \<open>A multiple of a power of two with at most 53 significant bits is representable.\<close>

lemma round_rat_grid_pos:
  assumes "0 < m" and "m \<le> 2 ^ 53" and "- 1074 \<le> e"
  shows "round_rat (of_int m * pow2 e) = of_int m * pow2 e"
proof -
  let ?x = "of_int m * pow2 e"
  have x: "0 < ?x" using assms(1) by simp
  show ?thesis
  proof (cases "ulp_exp ?x \<le> e")
    case True
    then show ?thesis
      using round_rat_le_grid [OF x order.refl] round_rat_ge_grid [OF x order.refl] by (simp add: antisym)
  next
    case False
    with assms(3) have "e < flog2 ?x - 52" using x by (simp add: ulp_exp_def max_def split: if_splits)
    then have "pow2 (e + 53) \<le> pow2 (flog2 ?x)" by (intro pow2_mono) simp
    also have "\<dots> \<le> ?x" using x by (rule flog2_bounds)
    finally have "pow2 e * 2 ^ 53 \<le> of_int m * pow2 e" by (simp add: pow2_add)
    then have "(2::rat) ^ 53 \<le> of_int m"
      by (metis mult.commute mult_le_cancel_right_pos pow2_pos)
    then have m: "m = 2 ^ 53" using assms(2)
      by (metis antisym of_int_le_iff of_int_numeral of_int_power)
    then have eq: "?x = of_int 1 * pow2 (e + 53)" by (simp add: pow2_add)
    have "pow2 (flog2 ?x) \<le> pow2 (e + 53)" using flog2_bounds(1) [OF x] eq by simp
    then have "flog2 ?x \<le> e + 53" by (metis pow2_less linorder_not_less)
    then have "ulp_exp ?x \<le> e + 53" using assms(3) x by (simp add: ulp_exp_def)
    then show ?thesis
      using round_rat_le_grid [OF x, of 1 "e + 53"] round_rat_ge_grid [OF x, of 1 "e + 53"] eq
      by (simp add: antisym)
  qed
qed

lemma round_rat_grid:
  assumes "\<bar>m\<bar> \<le> 2 ^ 53" and "- 1074 \<le> e"
  shows "round_rat (of_int m * pow2 e) = of_int m * pow2 e"
proof -
  consider "m = 0" | "0 < m" | "m < 0" by linarith
  then show ?thesis
  proof cases
    case 3
    then have "round_rat (of_int (- m) * pow2 e) = of_int (- m) * pow2 e"
      using assms by (intro round_rat_grid_pos) simp_all
    then show ?thesis using round_rat_uminus [of "of_int m * pow2 e"] by simp
  qed (use assms round_rat_grid_pos in simp_all)
qed

lemma round_rat_int: "\<bar>m\<bar> \<le> 2 ^ 53 \<Longrightarrow> round_rat (of_int m) = of_int m"
  using round_rat_grid [of m 0] by simp

lemma round_rat_mantissa: "0 < q \<Longrightarrow> rne (q / pow2 (ulp_exp q)) \<le> 2 ^ 53"
proof -
  assume q: "0 < q"
  have "q < pow2 (flog2 q + 1)" using q by (rule flog2_bounds)
  also have "\<dots> \<le> pow2 (ulp_exp q + 53)" using q by (intro pow2_mono) (simp add: ulp_exp_def)
  finally have "q / pow2 (ulp_exp q) \<le> of_int (2 ^ 53)"
    by (simp add: pow2_add divide_le_eq mult.commute)
  then have "rne (q / pow2 (ulp_exp q)) \<le> rne (of_int (2 ^ 53))" by (rule rne_mono)
  then show ?thesis by (simp only: rne_int)
qed

lemma round_rat_idem_pos: "0 < q \<Longrightarrow> round_rat (round_rat q) = round_rat q"
proof -
  assume q: "0 < q"
  have "rne (of_int 0) \<le> rne (q / pow2 (ulp_exp q))" using q by (intro rne_mono) simp
  then have "\<bar>rne (q / pow2 (ulp_exp q))\<bar> \<le> 2 ^ 53"
    using round_rat_mantissa [OF q] by (simp only: rne_int)
  then have "round_rat (of_int (rne (q / pow2 (ulp_exp q))) * pow2 (ulp_exp q)) =
      of_int (rne (q / pow2 (ulp_exp q))) * pow2 (ulp_exp q)"
    by (intro round_rat_grid) (simp_all add: ulp_exp_def)
  then show ?thesis using q by (simp add: round_rat_def)
qed

lemma round_rat_idem: "round_rat (round_rat q) = round_rat q"
proof -
  consider "q = 0" | "0 < q" | "q < 0" by linarith
  then show ?thesis
  proof cases
    case 3
    then have "round_rat (round_rat (- q)) = round_rat (- q)" by (intro round_rat_idem_pos) simp
    then show ?thesis by (simp add: round_rat_uminus)
  qed (simp_all add: round_rat_idem_pos)
qed

lemma f64_ok_of_rat [simp]: "f64_ok (f64_of_rat q)"
  by (auto simp: f64_of_rat_def Let_def round_rat_idem)

lemma f64_ok_sub [simp]: "f64_ok (f64_sub a b)"
  by (cases "(a, b)" rule: f64_sub.cases) simp_all

lemma f64_ok_div [simp]: "f64_ok (f64_div a b)"
  by (cases "(a, b)" rule: f64_div.cases) (simp_all add: inf_of_sign_def f64_top_def)

text \<open>Rounding keeps a closed interval with representable ends.\<close>

lemma f64_of_rat_between:
  assumes "round_rat lo = lo" "round_rat hi = hi" "\<bar>lo\<bar> < f64_top" "\<bar>hi\<bar> < f64_top"
    and "lo \<le> q" "q \<le> hi"
  shows "\<exists>r. f64_of_rat q = Fin r \<and> lo \<le> r \<and> r \<le> hi"
proof -
  have "lo \<le> round_rat q" "round_rat q \<le> hi"
    using round_rat_mono [OF assms(5)] round_rat_mono [OF assms(6)] assms(1,2) by simp_all
  moreover from this assms(3,4) have "\<not> f64_top \<le> round_rat q" "\<not> round_rat q \<le> - f64_top"
    by linarith+
  ultimately show ?thesis by (simp add: f64_of_rat_def Let_def)
qed

lemma small_lt_max: "\<bar>q\<bar> \<le> of_int (2 ^ 100) \<Longrightarrow> \<bar>q :: rat\<bar> < f64_top"
proof -
  assume "\<bar>q\<bar> \<le> of_int (2 ^ 100)"
  also have "(of_int (2 ^ 100) :: rat) = 2 ^ 100" by simp
  also have "(2 :: rat) ^ 100 < f64_top"
    unfolding f64_top_def by (intro power_strict_increasing) simp_all
  finally show ?thesis .
qed

lemma f64_of_rat_unit: "0 \<le> q \<Longrightarrow> q \<le> 1 \<Longrightarrow> \<exists>r. f64_of_rat q = Fin r \<and> 0 \<le> r \<and> r \<le> 1"
  using f64_of_rat_between [of 0 1 q] round_rat_int [of 1] small_lt_max [of 0] small_lt_max [of 1]
  by simp

text \<open>An integer that fits in 64 bits converts to a finite value, positive ones to at least 1.\<close>

lemma f64_of_int_finite:
  assumes "\<bar>i\<bar> \<le> 2 ^ 64"
  shows "f64_of_int i = Fin (round_rat (of_int i))"
proof -
  have g: "round_rat (of_int (2 ^ 64)) = of_int (2 ^ 64)"
    using round_rat_grid [of 1 64] by simp
  then have g': "round_rat (- of_int (2 ^ 64)) = - of_int (2 ^ 64)" by (simp only: round_rat_uminus)
  have s: "\<bar>of_int (2 ^ 64) :: rat\<bar> < f64_top" by (rule small_lt_max) simp
  have "(- of_int (2 ^ 64) :: rat) \<le> of_int i" and "(of_int i :: rat) \<le> of_int (2 ^ 64)"
    using assms by (metis abs_le_D2 minus_le_iff of_int_le_iff of_int_minus, metis abs_le_D1 of_int_le_iff)
  then obtain r where "f64_of_rat (of_int i) = Fin r"
    using f64_of_rat_between [OF g' g _ s, of "of_int i"] s by auto
  then show ?thesis
    by (auto simp: f64_of_int_def f64_of_rat_def Let_def split: if_splits)
qed

lemma u64_bound: "\<bar>int (unat (w :: u64))\<bar> \<le> 2 ^ 64"
proof -
  have "uint w < 2 ^ 64" using unsigned_less [of w] by simp
  then show ?thesis by simp
qed

lemma f64_of_u64_finite: "f64_of_u64 w = Fin (round_rat (of_int (int (unat w))))"
  unfolding f64_of_u64_def by (rule f64_of_int_finite) (rule u64_bound)

lemma round_u64_pos: "w \<noteq> (0 :: u64) \<Longrightarrow> 1 \<le> round_rat (of_int (int (unat w)))"
proof -
  assume "w \<noteq> 0"
  then have "1 \<le> int (unat w)" by (metis int_one_le_iff_zero_less of_nat_0_less_iff unat_gt_0)
  then have "round_rat (of_int 1) \<le> round_rat (of_int (int (unat w)))"
    by (intro round_rat_mono) (simp only: of_int_le_iff)
  then show ?thesis using round_rat_int [of 1] by simp
qed

text \<open>The quotient of two converted counters, the smaller over the larger, is in \<open>[0, 1]\<close>.\<close>

lemma f64_ratio_unit:
  assumes "d \<le> c" and "c \<noteq> (0 :: u64)"
  shows "\<exists>r. f64_div (f64_of_u64 d) (f64_of_u64 c) = Fin r \<and> 0 \<le> r \<and> r \<le> 1"
proof -
  let ?d = "round_rat (of_int (int (unat d)))" and ?c = "round_rat (of_int (int (unat c)))"
  have c: "1 \<le> ?c" using assms(2) by (rule round_u64_pos)
  have "unat d \<le> unat c" using assms(1) by (simp add: word_le_nat_alt)
  then have "?d \<le> ?c" by (intro round_rat_mono) (simp only: of_int_le_iff of_nat_le_iff)
  moreover have "0 \<le> ?d"
    by (rule round_rat_nonneg) (simp only: of_int_0_le_iff of_nat_0_le_iff)
  ultimately have "0 \<le> ?d / ?c" "?d / ?c \<le> 1" using c by simp_all
  then have "\<exists>r. f64_of_rat (?d / ?c) = Fin r \<and> 0 \<le> r \<and> r \<le> 1" by (rule f64_of_rat_unit)
  then show ?thesis using c by (simp add: f64_of_u64_finite)
qed

text \<open>Order facts.\<close>

lemma f64_le_refl: "f64_le x x \<longleftrightarrow> x \<noteq> NaN"
  by (cases x) simp_all

lemma f64_le_trans: "f64_le x y \<Longrightarrow> f64_le y z \<Longrightarrow> f64_le x z"
  by (cases x; cases y; cases z) simp_all

lemma f64_lt_le: "f64_lt x y \<Longrightarrow> f64_le x y"
  by (simp add: f64_lt_def)

lemma f64_le_total: "x \<noteq> NaN \<Longrightarrow> y \<noteq> NaN \<Longrightarrow> f64_le x y \<or> f64_le y x"
  by (cases x; cases y) auto

lemma f64_not_le: "x \<noteq> NaN \<Longrightarrow> y \<noteq> NaN \<Longrightarrow> \<not> f64_le x y \<longleftrightarrow> f64_lt y x"
  using f64_le_total by (auto simp: f64_lt_def)

text \<open>Subtracting a non-negative amount does not go up.\<close>

lemma f64_sub_le:
  assumes "f64_ok a" and "a = Fin x" and "b = Fin y" and "0 \<le> y"
  shows "f64_le (f64_sub a b) a"
proof -
  have "round_rat (x - y) \<le> round_rat x" using assms(4) by (intro round_rat_mono) simp
  then have "round_rat (x - y) \<le> x" "x < f64_top" using assms(1,2) by (simp_all add: abs_less_iff)
  then show ?thesis using assms(2,3) by (auto simp: f64_of_rat_def Let_def)
qed

text \<open>Dyadic numbers are exact.\<close>

lemma f64_of_rat_grid:
  assumes "\<bar>m\<bar> \<le> 2 ^ 53" "- 1074 \<le> e" "e \<le> 0"
  shows "f64_of_rat (of_int m * pow2 e) = Fin (of_int m * pow2 e)"
proof -
  have p: "0 \<le> pow2 e" "pow2 e \<le> 1" using pow2_mono [OF assms(3)] by simp_all
  have "\<bar>rat_of_int m\<bar> \<le> of_int (2 ^ 53)" using assms(1) by (metis of_int_abs of_int_le_iff)
  then have "\<bar>rat_of_int m\<bar> * pow2 e \<le> of_int (2 ^ 53) * 1" using p by (intro mult_mono) simp_all
  then have "\<bar>of_int m * pow2 e\<bar> \<le> rat_of_int (2 ^ 100)" using p by (simp add: abs_mult)
  from small_lt_max [OF this] show ?thesis
    using round_rat_grid [OF assms(1,2)] by (auto simp: f64_of_rat_def Let_def abs_less_iff)
qed

lemma f64_of_rat_exact:
  assumes "q = of_int m / 2 ^ k" "\<bar>m\<bar> \<le> 2 ^ 53" "k \<le> 1074"
  shows "f64_of_rat q = Fin q"
  using f64_of_rat_grid [OF assms(2), of "- int k"] assms(1,3)
  by (simp add: power_int_minus divide_inverse)

end
