(* ===== verification/Events.thy ===== *)
theory Events
  imports Go_Float
begin

text \<open>
  The canonical event model, \<open>src/pkg/events/canonical.go\<close>: the \<open>CanonicalEvent\<close> and \<open>Alert\<close>
  structs, \<open>Serialize\<close>, \<open>Deserialize\<close> and \<open>Validate\<close>. The JSON encoder and decoder and
  \<open>uuid.Parse\<close> are parameters. The lemmas characterise the events \<open>Validate\<close> accepts and show
  that an accepted event fits the columns of the server's \<open>events\<close> table
  (\<open>src/server/migrations\<close>).
\<close>

section \<open>Data\<close>

text \<open>A value held by a \<open>map[string]interface{}\<close>.\<close>

datatype gval =
    GNil
  | GStr string
  | GNum int
  | GFloat f64
  | GBool bool
  | GList "gval list"
  | GObj "(string \<times> gval) list"

type_synonym metadata = "string \<rightharpoonup> gval"

record canonical_event =
  EventID :: string
  TenantID :: string
  SiteID :: string
  AssetID :: string
  SensorID :: string
  OccurredAt :: go_time
  ReceivedAt :: go_time
  SeqNo :: int
  Source :: string
  Category :: string
  Severity :: string
  Confidence :: "f64 option"
  Protocol :: string
  Src :: string
  Dst :: string
  Action :: string
  Metadata :: "metadata option"
  RuleID :: string
  RuleVersion :: string
  AttckEnterprise :: "string list"
  AttckICS :: "string list"
  QualityFlags :: "string list"
  SchemaVersion :: string

text \<open>The zero value of the struct: what a composite literal leaves in the fields it does not name.\<close>

definition zero_event :: canonical_event where
  "zero_event =
     \<lparr>EventID = [], TenantID = [], SiteID = [], AssetID = [], SensorID = [],
      OccurredAt = time_zero, ReceivedAt = time_zero, SeqNo = 0, Source = [], Category = [],
      Severity = [], Confidence = None, Protocol = [], Src = [], Dst = [], Action = [],
      Metadata = None, RuleID = [], RuleVersion = [], AttckEnterprise = [], AttckICS = [],
      QualityFlags = [], SchemaVersion = []\<rparr>"

record alert =
  AlertID :: string
  alert_EventID :: string
  alert_TenantID :: string
  alert_Severity :: string
  Description :: string
  CreatedAt :: go_time

text \<open>\<open>json.Marshal\<close> and \<open>json.Unmarshal\<close> at the event type.\<close>

record codec =
  json_Marshal :: "canonical_event \<Rightarrow> go_error + string"
  json_Unmarshal :: "string \<Rightarrow> go_error + canonical_event"

definition Serialize :: "codec \<Rightarrow> canonical_event \<Rightarrow> go_error + string" where
  "Serialize js e = json_Marshal js e"

definition Deserialize :: "codec \<Rightarrow> string \<Rightarrow> go_error + canonical_event" where
  "Deserialize js data = json_Unmarshal js data"

definition CurrentSchemaVersion :: string where
  "CurrentSchemaVersion = ''1.0.0''"

section \<open>Validation\<close>

text \<open>The severities the \<open>switch\<close> accepts.\<close>

definition severities :: "string list" where
  "severities = [''DEBUG'', ''INFO'', ''WARNING'', ''CRITICAL'', ''FATAL'']"

text \<open>The table of length limits the loop of \<open>Validate\<close> goes through.\<close>

definition field_limits :: "canonical_event \<Rightarrow> (string \<times> string \<times> nat) list" where
  "field_limits e =
     [(''asset_id'', AssetID e, 128), (''sensor_id'', SensorID e, 128),
      (''source'', Source e, 255), (''category'', Category e, 255),
      (''protocol'', Protocol e, 128), (''src'', Src e, 255),
      (''dst'', Dst e, 255), (''action'', Action e, 128),
      (''rule_id'', RuleID e, 255), (''rule_version'', RuleVersion e, 64)]"

fun check_limits :: "(string \<times> string \<times> nat) list \<Rightarrow> go_error option" where
  "check_limits [] = None"
| "check_limits ((name, v, limit) # fs) =
     (if limit < RuneCountInString v
      then Some (errors_New (name @ '' exceeds maximum length of '' @ dec_nat limit))
      else check_limits fs)"

definition confidence_bad :: "f64 \<Rightarrow> bool" where
  "confidence_bad c \<longleftrightarrow> f64_IsNaN c \<or> f64_IsInf c \<or> f64_lt c (Fin 0) \<or> f64_gt c (Fin 100)"

definition bad_id :: "string \<Rightarrow> bool" where
  "bad_id s \<longleftrightarrow> s = [] \<or> \<not> id_regex_match s \<or> 128 < length s"

text \<open>\<open>Validate\<close>: the checks in the order of the source; the first that fails gives the error.\<close>

definition Validate :: "(string \<Rightarrow> go_error option) \<Rightarrow> canonical_event \<Rightarrow> go_error option" where
  "Validate uuid_Parse e =
     (case uuid_Parse (EventID e) of
        Some err \<Rightarrow> Some (wrap_err ''invalid event_id: '' err)
      | None \<Rightarrow>
        if IsZero (OccurredAt e) then Some (errors_New ''occurred_at is required'')
        else if Source e = [] then Some (errors_New ''source is required'')
        else if Category e = [] then Some (errors_New ''category is required'')
        else if bad_id (TenantID e) then Some (errors_New ''invalid tenant_id'')
        else if bad_id (SiteID e) then Some (errors_New ''invalid site_id'')
        else if SeqNo e < 0 then Some (errors_New ''seq_no cannot be negative'')
        else if Severity e \<notin> set severities
          then Some (errors_New (''invalid severity: '' @ Severity e))
        else case check_limits (field_limits e) of
               Some err \<Rightarrow> Some err
             | None \<Rightarrow>
               if (case Confidence e of None \<Rightarrow> False | Some c \<Rightarrow> confidence_bad c)
               then Some (errors_New ''confidence must be between 0 and 100'')
               else if SchemaVersion e \<noteq> CurrentSchemaVersion
               then Some (errors_New (''unsupported schema_version: '' @ SchemaVersion e @
                      '' (expected '' @ CurrentSchemaVersion @ '')''))
               else None)"

text \<open>What the schema asks of an event, independently of the order of the checks.\<close>

definition event_valid :: "(string \<Rightarrow> go_error option) \<Rightarrow> canonical_event \<Rightarrow> bool" where
  "event_valid uuid_Parse e \<longleftrightarrow>
     uuid_Parse (EventID e) = None \<and> \<not> IsZero (OccurredAt e) \<and>
     Source e \<noteq> [] \<and> Category e \<noteq> [] \<and>
     id_regex_match (TenantID e) \<and> length (TenantID e) \<le> 128 \<and>
     id_regex_match (SiteID e) \<and> length (SiteID e) \<le> 128 \<and>
     0 \<le> SeqNo e \<and> Severity e \<in> set severities \<and>
     list_all (\<lambda>(name, v, limit). RuneCountInString v \<le> limit) (field_limits e) \<and>
     (\<forall>c. Confidence e = Some c \<longrightarrow> (\<exists>r. c = Fin r \<and> 0 \<le> r \<and> r \<le> 100)) \<and>
     SchemaVersion e = CurrentSchemaVersion"

lemma check_limits_None_iff:
  "check_limits fs = None \<longleftrightarrow> list_all (\<lambda>(name, v, limit). RuneCountInString v \<le> limit) fs"
  by (induction fs rule: check_limits.induct) auto

lemma bad_id_iff: "bad_id s \<longleftrightarrow> \<not> (id_regex_match s \<and> length s \<le> 128)"
  by (auto simp: bad_id_def id_regex_match_def)

lemma confidence_bad_iff: "\<not> confidence_bad c \<longleftrightarrow> (\<exists>r. c = Fin r \<and> 0 \<le> r \<and> r \<le> 100)"
  by (cases c) (auto simp: confidence_bad_def f64_lt_def f64_gt_def)

lemma Validate_None_iff: "Validate uuid_Parse e = None \<longleftrightarrow> event_valid uuid_Parse e"
proof -
  have lim: "(case check_limits (field_limits e) of Some err \<Rightarrow> Some err | None \<Rightarrow> r) = None \<longleftrightarrow>
      list_all (\<lambda>(name, v, limit). RuneCountInString v \<le> limit) (field_limits e) \<and> r = None" for r
    by (cases "check_limits (field_limits e)") (simp_all flip: check_limits_None_iff)
  have conf: "\<not> (case Confidence e of None \<Rightarrow> False | Some c \<Rightarrow> confidence_bad c) \<longleftrightarrow>
      (\<forall>c. Confidence e = Some c \<longrightarrow> (\<exists>r. c = Fin r \<and> 0 \<le> r \<and> r \<le> 100))"
    by (cases "Confidence e") (auto simp: confidence_bad_iff)
  show ?thesis
    unfolding Validate_def event_valid_def conf [symmetric]
    by (cases "uuid_Parse (EventID e)") (auto simp: lim bad_id_iff)
qed

section \<open>The columns of the server's table\<close>

text \<open>The character columns of the table \<open>events\<close> with their declared length.\<close>

definition event_columns :: "canonical_event \<Rightarrow> (string \<times> string \<times> nat) list" where
  "event_columns e =
     [(''tenant_id'', TenantID e, 128), (''site_id'', SiteID e, 128),
      (''asset_id'', AssetID e, 128), (''sensor_id'', SensorID e, 128),
      (''source'', Source e, 255), (''category'', Category e, 255),
      (''severity'', Severity e, 32), (''protocol'', Protocol e, 128),
      (''src'', Src e, 255), (''dst'', Dst e, 255), (''action'', Action e, 128),
      (''rule_id'', RuleID e, 255), (''rule_version'', RuleVersion e, 64),
      (''schema_version'', SchemaVersion e, 32)]"

definition fits_columns :: "(string \<times> string \<times> nat) list \<Rightarrow> bool" where
  "fits_columns cs \<longleftrightarrow> list_all (\<lambda>(name, v, n). RuneCountInString v \<le> n) cs"

lemma severity_short: "s \<in> set severities \<Longrightarrow> RuneCountInString s \<le> 32"
  using RuneCount_le_length [of s] by (auto simp: severities_def)

lemma id_short: "length s \<le> 128 \<Longrightarrow> RuneCountInString s \<le> 128"
  using RuneCount_le_length [of s] by simp

lemma event_valid_fits: "event_valid uuid_Parse e \<Longrightarrow> fits_columns (event_columns e)"
proof -
  assume v: "event_valid uuid_Parse e"
  have sv: "RuneCountInString CurrentSchemaVersion \<le> 32"
    using RuneCount_le_length [of CurrentSchemaVersion] by (simp add: CurrentSchemaVersion_def)
  from v have "RuneCountInString (Severity e) \<le> 32"
    by (simp add: event_valid_def severity_short)
  with v sv show ?thesis
    by (simp add: event_valid_def fits_columns_def event_columns_def field_limits_def id_short)
qed

section \<open>Properties\<close>

text \<open>
  \<open>Validate\<close> accepts exactly the events of the schema: it returns nil if and only if the event
  id parses, the required fields are present, tenant and site are 1 to 128 letters, digits or
  hyphens, the sequence number is not negative, the severity is one of the five, every length
  limit holds, a confidence is a finite number from 0 to 100 and the schema version is current.
\<close>

theorem Validate_spec: "(Validate uuid_Parse e = None) = event_valid uuid_Parse e"
  by (rule Validate_None_iff)

text \<open>
  C21. An event that \<open>Validate\<close> accepts fits every VARCHAR column of the server's \<open>events\<close> table, so
  the worker never retries an accepted event because of a length.
\<close>

theorem Validate_fits_columns:
  assumes "Validate uuid_Parse e = None"
  shows "fits_columns (event_columns e)"
  using assms by (simp add: Validate_None_iff event_valid_fits)

text \<open>An event of the synthetic agent, used by the witnesses.\<close>

definition sample_event :: canonical_event where
  "sample_event = zero_event
     \<lparr>EventID := ''123e4567-e89b-12d3-a456-426614174000'', TenantID := ''tenant-alpha'',
      SiteID := ''site-primary'', OccurredAt := 1, SeqNo := 1, Source := ''synthetic-agent'',
      Category := ''system'', Severity := ''INFO'', SchemaVersion := ''1.0.0''\<rparr>"

lemma sample_event_valid: "Validate (\<lambda>_. None) sample_event = None"
  by code_simp

theorem Validate_fits_columns_witness:
  "Validate (\<lambda>_. None) sample_event = None \<and> fits_columns (event_columns sample_event)"
  using Validate_fits_columns [OF sample_event_valid] sample_event_valid by blast

end
