(* ===== verification/Storage.thy ===== *)
theory Storage
  imports Events
begin

text \<open>
  The edge durability layer, \<open>src/agent/internal/storage/sqlite.go\<close>.

  The three tables of the schema are lists of records; a statement of the source is its meaning on
  these lists, with the constraints of the schema (PRIMARY KEY, UNIQUE) checked by the INSERT.
  What the driver, the file system and the clock answer is the environment of a call
  (\<open>store_env\<close>): an error for any statement, whether a COMMIT that reported an error was applied,
  the sizes of the database files, the time. A transaction that does not reach its COMMIT leaves
  the tables alone (the deferred Rollback).

  A retry timestamp is kept as the number of seconds it denotes when it has the canonical 19
  character form \<open>YYYY-MM-DD HH:MM:SS\<close> that \<open>MarkFailed\<close> writes, and as its text otherwise.
\<close>

section \<open>Tables and state\<close>

datatype stamp = Canonical int | Legacy string

record event_row =
  er_event_id :: string
  er_device_id :: string
  er_seq_no :: int
  er_severity :: string
  er_payload :: string
  er_state :: string
  er_attempt_count :: int
  er_next_attempt_at :: "stamp option"

record dlq_row =
  dr_event_id :: string
  dr_device_id :: string
  dr_seq_no :: int
  dr_payload :: string
  dr_failure_type :: string
  dr_failure_reason :: string
  dr_first_seen :: int

record agent_state_row =
  as_device_id :: string
  as_next_seq_no :: int
  as_schema_version :: string
  as_dropped_total :: int
  as_dropped_debug :: int
  as_dropped_info :: int
  as_dropped_warning :: int
  as_storage_pressure_state :: "string option"
  as_last_pressure_at :: "int option"

record database =
  tbl_agent_state :: "agent_state_row option"
  tbl_events :: "event_row list"
  tbl_dlq :: "dlq_row list"

definition empty_database :: database where
  "empty_database = \<lparr>tbl_agent_state = None, tbl_events = [], tbl_dlq = []\<rparr>"

text \<open>The field \<open>db *sql.DB\<close>: nil before \<open>Init\<close>, then open, then closed but not nil.\<close>

datatype db_handle = DBNil | DBOpen | DBClosed

text \<open>The struct \<open>SQLiteStorage\<close>, with what it owns on disk: the tables, whether a
  \<open>.corrupt.\<close> backup exists and whether the legacy identity file is present.\<close>

record sqlite_storage =
  dbPath :: string
  identityPath :: string
  quotaBytes :: int
  db_handle :: db_handle
  deviceID :: string
  disk :: database
  corrupt_backup :: bool
  identity_file :: bool

definition NewSQLiteStorage :: "string \<Rightarrow> string \<Rightarrow> int \<Rightarrow> database \<Rightarrow> bool \<Rightarrow> bool \<Rightarrow> sqlite_storage" where
  "NewSQLiteStorage path idpath quota d backup idfile =
     \<lparr>dbPath = path, identityPath = idpath, quotaBytes = quota, db_handle = DBNil,
      deviceID = [], disk = d, corrupt_backup = backup, identity_file = idfile\<rparr>"

section \<open>Environment of a call\<close>

text \<open>The statements of the source that can report an error.\<close>

datatype dbcall =
    StoreSelectEvent | StoreSelectDlq | StoreBegin | StoreRecheck | StoreSelectSeq | StoreInsert
  | StoreUpdateSeq | StoreCommit
  | QuotaDelete | QuotaUpdateDropped | QuotaUpdateEmergency | QuotaUpdateOK
  | PendingQuery | PendingScan | PendingRows
  | DlqBegin | DlqSelect | DlqInsert | DlqDelete | DlqCommit
  | RemoveExec | MarkSelect | MarkUpdate
  | MigrateQuery | MigrateScan | MigrateRows | MigrateBegin | MigratePrepare | MigrateUpdate
  | MigrateCommit
  | InitMkdir | InitOpen | InitPragma | InitIntegrity | InitSchema
  | IdBegin | IdSelect | IdInsert | IdCommit

text \<open>The index counts the executions of a statement within one call (loops).\<close>

record store_env =
  fault :: "dbcall \<Rightarrow> nat \<Rightarrow> go_error option"
  commit_applied :: "dbcall \<Rightarrow> nat \<Rightarrow> bool"
  testFaultInjectCommit :: "go_error option"
  os_Stat :: "nat \<Rightarrow> string \<Rightarrow> go_error + int"
  env_now :: go_time
  env_now_jitter :: go_time
  sql_datetime :: "string \<Rightarrow> int option"

text \<open>The error of a call: a closed handle refuses every statement.\<close>

definition call_err :: "store_env \<Rightarrow> sqlite_storage \<Rightarrow> dbcall \<Rightarrow> nat \<Rightarrow> go_error option" where
  "call_err env s c i =
     (if db_handle s = DBClosed then Some (errors_New ''sql: database is closed'') else fault env c i)"

text \<open>\<open>QueryRowContext(...).Scan\<close>: the driver's error, \<open>sql.ErrNoRows\<close>, or the row.\<close>

definition query_row :: "go_error option \<Rightarrow> 'a option \<Rightarrow> go_error + 'a" where
  "query_row err row =
     (case err of
        Some e \<Rightarrow> Inl e
      | None \<Rightarrow> (case row of
                   None \<Rightarrow> Inl (GoError [ErrNoRows] ''sql: no rows in result set'')
                 | Some r \<Rightarrow> Inr r))"

definition sec_of :: "go_time \<Rightarrow> int" where
  "sec_of t = t div second"

definition failed_before_commit :: "go_error \<Rightarrow> go_error" where
  "failed_before_commit e =
     GoError (ErrStoreFailedBeforeCommit # err_chain e)
       (''store definitely failed before commit: '' @ err_text e)"

definition commit_uncertain :: "string \<Rightarrow> go_error \<Rightarrow> go_error" where
  "commit_uncertain p e =
     GoError (ErrStoreUncertain # err_chain e) (''store commit result uncertain: '' @ p @ err_text e)"

definition not_initialized :: go_error where
  "not_initialized = errors_New ''DEGRADED_STORAGE: DB not initialized''"

section \<open>Statements\<close>

definition select_event :: "database \<Rightarrow> string \<Rightarrow> event_row option" where
  "select_event d i = find (\<lambda>r. er_event_id r = i) (tbl_events d)"

definition select_dlq :: "database \<Rightarrow> string \<Rightarrow> dlq_row option" where
  "select_dlq d i = find (\<lambda>r. dr_event_id r = i) (tbl_dlq d)"

text \<open>\<open>INSERT INTO events (...) VALUES (..., 'PENDING')\<close> under PRIMARY KEY (event_id) and
  UNIQUE (device_id, seq_no); \<^term>\<open>None\<close> is the constraint error.\<close>

definition insert_event :: "event_row \<Rightarrow> database \<Rightarrow> database option" where
  "insert_event r d =
     (if list_ex (\<lambda>x. er_event_id x = er_event_id r \<or>
          er_device_id x = er_device_id r \<and> er_seq_no x = er_seq_no r) (tbl_events d)
      then None
      else Some (d\<lparr>tbl_events := tbl_events d @ [r]\<rparr>))"

definition delete_event :: "string \<Rightarrow> database \<Rightarrow> database" where
  "delete_event i d = d\<lparr>tbl_events := filter (\<lambda>r. er_event_id r \<noteq> i) (tbl_events d)\<rparr>"

definition update_agent_state :: "(agent_state_row \<Rightarrow> agent_state_row) \<Rightarrow> database \<Rightarrow> database" where
  "update_agent_state f d = d\<lparr>tbl_agent_state := map_option f (tbl_agent_state d)\<rparr>"

definition constraint_error :: go_error where
  "constraint_error = errors_New ''constraint failed''"

section \<open>Quota\<close>

text \<open>\<open>getTotalSize\<close>: the database file with its WAL and SHM files; a missing file counts nothing.\<close>

fun stat_sum :: "(string \<Rightarrow> go_error + int) \<Rightarrow> string list \<Rightarrow> int \<Rightarrow> go_error + int" where
  "stat_sum st [] acc = Inr acc"
| "stat_sum st (f # fs) acc =
     (case st f of
        Inr sz \<Rightarrow> stat_sum st fs (acc + sz)
      | Inl e \<Rightarrow> if \<not> errors_Is e ErrNotExist then Inl e else stat_sum st fs acc)"

definition getTotalSize :: "(string \<Rightarrow> go_error + int) \<Rightarrow> string \<Rightarrow> go_error + int" where
  "getTotalSize st path = stat_sum st [path, path @ ''-wal'', path @ ''-shm''] 0"

text \<open>\<open>size, _ := s.getTotalSize()\<close>: the error is dropped, the size is then 0.\<close>

definition size_or_zero :: "go_error + int \<Rightarrow> int" where
  "size_or_zero r = (case r of Inl _ \<Rightarrow> 0 | Inr n \<Rightarrow> n)"

text \<open>The ids of the 50 oldest events of a severity, and the DELETE of them.\<close>

definition prune_ids :: "string \<Rightarrow> event_row list \<Rightarrow> string list" where
  "prune_ids sev rows =
     map er_event_id (take 50 (sort_key er_seq_no (filter (\<lambda>r. er_severity r = sev) rows)))"

definition prune_rows :: "string \<Rightarrow> event_row list \<Rightarrow> event_row list" where
  "prune_rows sev rows = filter (\<lambda>r. er_event_id r \<notin> set (prune_ids sev rows)) rows"

definition add_dropped :: "string \<Rightarrow> int \<Rightarrow> int \<Rightarrow> agent_state_row \<Rightarrow> agent_state_row" where
  "add_dropped sev n now a =
     (let a = a\<lparr>as_dropped_total := as_dropped_total a + n,
               as_storage_pressure_state := Some ''PRUNING'', as_last_pressure_at := Some now\<rparr>
      in if sev = ''WARNING'' then a\<lparr>as_dropped_warning := as_dropped_warning a + n\<rparr>
         else if sev = ''INFO'' then a\<lparr>as_dropped_info := as_dropped_info a + n\<rparr>
         else a\<lparr>as_dropped_debug := as_dropped_debug a + n\<rparr>)"

text \<open>Ninety per cent of the quota, \<open>int64(float64(s.quotaBytes)*0.9)\<close>.\<close>

definition low_water :: "int \<Rightarrow> int" where
  "low_water quota = int64_of_f64 (f64_mul (f64_of_int quota) (f64_of_rat (9 / 10)))"

text \<open>Where the pruning loop of one severity ends: nil returned, \<open>break\<close>, or an error returned.
  The number counts the iterations over all severities.\<close>

datatype prune_result =
    PruneReturn database nat
  | PruneBreak database nat
  | PruneFail database go_error

lemma prune_rows_shorter:
  "length (prune_rows sev rows) \<noteq> length rows \<Longrightarrow> length (prune_rows sev rows) < length rows"
  by (metis length_filter_le le_neq_implies_less prune_rows_def)

function prune_loop ::
    "store_env \<Rightarrow> sqlite_storage \<Rightarrow> int \<Rightarrow> string \<Rightarrow> nat \<Rightarrow> database \<Rightarrow> prune_result" where
  "prune_loop env s est sev k d =
     (let sz = size_or_zero (getTotalSize (os_Stat env (Suc k)) (dbPath s)) in
      if sz + est < low_water (quotaBytes s) then PruneReturn d k
      else case call_err env s QuotaDelete k of
        Some e \<Rightarrow> PruneFail d e
      | None \<Rightarrow>
        (let kept = prune_rows sev (tbl_events d); n = length (tbl_events d) - length kept in
         if length kept = length (tbl_events d) then PruneBreak d (Suc k)
         else
           let d1 = d\<lparr>tbl_events := kept\<rparr> in
           case call_err env s QuotaUpdateDropped k of
             Some e \<Rightarrow> PruneFail d1 (wrap_err ''failed to update quota state: '' e)
           | None \<Rightarrow>
             prune_loop env s est sev (Suc k)
               (update_agent_state (add_dropped sev (int n) (sec_of (env_now env))) d1)))"
  by pat_completeness auto
termination
  by (relation "measure (\<lambda>(env, s, est, sev, k, d). length (tbl_events d))")
     (auto simp: update_agent_state_def prune_rows_shorter)

declare prune_loop.simps [simp del]

fun prune_all ::
    "store_env \<Rightarrow> sqlite_storage \<Rightarrow> int \<Rightarrow> string list \<Rightarrow> nat \<Rightarrow> database \<Rightarrow> prune_result" where
  "prune_all env s est [] k d = PruneBreak d k"
| "prune_all env s est (sev # sevs) k d =
     (case prune_loop env s est sev k d of
        PruneBreak d1 k1 \<Rightarrow> prune_all env s est sevs k1 d1
      | r \<Rightarrow> r)"

definition prunableSeverities :: "string list" where
  "prunableSeverities = [''DEBUG'', ''INFO'', ''WARNING'']"

definition is_critical :: "string \<Rightarrow> bool" where
  "is_critical sev \<longleftrightarrow> sev = ''CRITICAL'' \<or> sev = ''FATAL''"

definition storage_emergency :: go_error where
  "storage_emergency =
     errors_New ''STORAGE_EMERGENCY: logical soft quota exhausted and no more prunable events''"

definition enforceQuota ::
    "store_env \<Rightarrow> sqlite_storage \<Rightarrow> string \<Rightarrow> int \<Rightarrow> database \<times> go_error option" where
  "enforceQuota env s incoming est =
     (let d = disk s in
      case getTotalSize (os_Stat env 0) (dbPath s) of
        Inl e \<Rightarrow> (d, Some e)
      | Inr sz \<Rightarrow>
        if sz + est < quotaBytes s then (d, None)
        else case prune_all env s est prunableSeverities 0 d of
          PruneReturn d1 k \<Rightarrow> (d1, None)
        | PruneFail d1 e \<Rightarrow> (d1, Some e)
        | PruneBreak d1 k \<Rightarrow>
          if size_or_zero (getTotalSize (os_Stat env (Suc k)) (dbPath s)) + est \<ge> quotaBytes s
          then case call_err env s QuotaUpdateEmergency 0 of
              Some e \<Rightarrow> (d1, Some (wrap_err ''failed to update emergency state: '' e))
            | None \<Rightarrow>
              (update_agent_state
                 (\<lambda>a. a\<lparr>as_storage_pressure_state := Some ''EMERGENCY'',
                        as_last_pressure_at := Some (sec_of (env_now env))\<rparr>) d1,
               if is_critical incoming then None else Some storage_emergency)
          else case call_err env s QuotaUpdateOK 0 of
              Some e \<Rightarrow> (d1, Some (wrap_err ''failed to update OK state: '' e))
            | None \<Rightarrow>
              (update_agent_state
                 (\<lambda>a. if as_storage_pressure_state a \<noteq> None \<and> as_storage_pressure_state a \<noteq> Some ''OK''
                      then a\<lparr>as_storage_pressure_state := Some ''OK''\<rparr> else a) d1, None))"

section \<open>Store\<close>

definition payload_or_empty :: "go_error + string \<Rightarrow> string" where
  "payload_or_empty r = (case r of Inl _ \<Rightarrow> [] | Inr p \<Rightarrow> p)"

text \<open>An event id found in a table: success if the stored payload is the event's, with the stored
  sequence number, and an integrity error otherwise.\<close>

definition store_existing ::
    "codec \<Rightarrow> string \<Rightarrow> canonical_event \<Rightarrow> int \<Rightarrow> string \<Rightarrow> canonical_event \<times> go_error option" where
  "store_existing js msg ev seq payload =
     (let ev1 = ev\<lparr>SeqNo := seq\<rparr> in
      (ev1,
       if payload = payload_or_empty (Serialize js ev1) then None
       else Some (failed_before_commit
         (errors_New (''integrity error: event_id '' @ EventID ev @ msg)))))"

definition pending_row :: "string \<Rightarrow> canonical_event \<Rightarrow> string \<Rightarrow> event_row" where
  "pending_row dev ev payload =
     \<lparr>er_event_id = EventID ev, er_device_id = dev, er_seq_no = SeqNo ev,
      er_severity = Severity ev, er_payload = payload, er_state = ''PENDING'',
      er_attempt_count = 0, er_next_attempt_at = None\<rparr>"

text \<open>The transaction of \<open>Store\<close>, from \<open>BeginTx\<close> on.\<close>

definition store_tx ::
    "codec \<Rightarrow> store_env \<Rightarrow> sqlite_storage \<Rightarrow> canonical_event \<Rightarrow>
     sqlite_storage \<times> canonical_event \<times> go_error option" where
  "store_tx js env s ev =
     (case call_err env s StoreBegin 0 of
        Some e \<Rightarrow> (s, ev, Some (failed_before_commit e))
      | None \<Rightarrow>
      case query_row (call_err env s StoreRecheck 0) (select_event (disk s) (EventID ev)) of
        Inr _ \<Rightarrow> (s, ev, None)
      | Inl _ \<Rightarrow>
      case query_row (call_err env s StoreSelectSeq 0) (tbl_agent_state (disk s)) of
        Inl e \<Rightarrow> (s, ev, Some (failed_before_commit e))
      | Inr a \<Rightarrow>
      let ev1 = ev\<lparr>SeqNo := as_next_seq_no a\<rparr> in
      case Serialize js ev1 of
        Inl e \<Rightarrow> (s, ev1, Some (failed_before_commit e))
      | Inr payload \<Rightarrow>
      case call_err env s StoreInsert 0 of
        Some e \<Rightarrow> (s, ev1, Some (failed_before_commit e))
      | None \<Rightarrow>
      case insert_event (pending_row (deviceID s) ev1 payload) (disk s) of
        None \<Rightarrow> (s, ev1, Some (failed_before_commit constraint_error))
      | Some d1 \<Rightarrow>
      case call_err env s StoreUpdateSeq 0 of
        Some e \<Rightarrow> (s, ev1, Some (failed_before_commit e))
      | None \<Rightarrow>
      let d2 = update_agent_state (\<lambda>a. a\<lparr>as_next_seq_no := as_next_seq_no a + 1\<rparr>) d1 in
      case testFaultInjectCommit env of
        Some e \<Rightarrow> (s, ev1, Some (commit_uncertain ''test injected fault: '' e))
      | None \<Rightarrow>
      case call_err env s StoreCommit 0 of
        Some e \<Rightarrow>
          (if commit_applied env StoreCommit 0 then s\<lparr>disk := d2\<rparr> else s, ev1,
           Some (commit_uncertain [] e))
      | None \<Rightarrow> (s\<lparr>disk := d2\<rparr>, ev1, None))"

definition Store ::
    "codec \<Rightarrow> store_env \<Rightarrow> canonical_event \<Rightarrow> sqlite_storage \<Rightarrow>
     sqlite_storage \<times> canonical_event \<times> go_error option" where
  "Store js env ev s =
     (if db_handle s = DBNil
        then (s, ev, Some (failed_before_commit (errors_New ''DB not initialized'')))
      else if EventID ev = []
        then (s, ev, Some (failed_before_commit (errors_New ''event_id must not be empty'')))
      else
      case query_row (call_err env s StoreSelectEvent 0) (select_event (disk s) (EventID ev)) of
        Inr r \<Rightarrow> (s, store_existing js '' already exists with different payload'' ev
                     (er_seq_no r) (er_payload r))
      | Inl e \<Rightarrow>
      if \<not> errors_Is e ErrNoRows then (s, ev, Some (failed_before_commit e))
      else
      case query_row (call_err env s StoreSelectDlq 0) (select_dlq (disk s) (EventID ev)) of
        Inr r \<Rightarrow> (s, store_existing js '' already in DLQ with different payload'' ev
                     (dr_seq_no r) (dr_payload r))
      | Inl e \<Rightarrow>
      if \<not> errors_Is e ErrNoRows then (s, ev, Some (failed_before_commit e))
      else
      let est = int (length (payload_or_empty (json_Marshal js ev))) + 1024 in
      case enforceQuota env s (Severity ev) est of
        (d, Some e) \<Rightarrow> (s\<lparr>disk := d\<rparr>, ev, Some (failed_before_commit e))
      | (d, None) \<Rightarrow> store_tx js env (s\<lparr>disk := d\<rparr>) ev)"

section \<open>Dead letter queue\<close>

text \<open>\<open>moveRawToDLQLocked\<close>; \<open>i\<close> counts the moves of the calling operation.\<close>

definition moveRawToDLQLocked ::
    "store_env \<Rightarrow> nat \<Rightarrow> string \<Rightarrow> string \<Rightarrow> int \<Rightarrow> string \<Rightarrow> string \<Rightarrow> string \<Rightarrow> sqlite_storage \<Rightarrow>
     sqlite_storage \<times> go_error option" where
  "moveRawToDLQLocked env i eventID device seqNo payload ftype freason s =
     (if db_handle s = DBNil then (s, Some not_initialized)
      else
      case call_err env s DlqBegin i of
        Some e \<Rightarrow> (s, Some e)
      | None \<Rightarrow>
      let d = disk s;
          finish = (\<lambda>d1.
            case call_err env s DlqDelete i of
              Some e \<Rightarrow> (s, Some e)
            | None \<Rightarrow>
              let s1 = s\<lparr>disk := delete_event eventID d1\<rparr> in
              case call_err env s DlqCommit i of
                Some e \<Rightarrow> (if commit_applied env DlqCommit i then s1 else s, Some e)
              | None \<Rightarrow> (s1, None))
      in
      case query_row (call_err env s DlqSelect i) (select_dlq d eventID) of
        Inr r \<Rightarrow>
          if dr_payload r \<noteq> payload
          then (s, Some (errors_New (''integrity error: event_id '' @ eventID @
                  '' already in DLQ with different payload'')))
          else finish d
      | Inl e \<Rightarrow>
        if \<not> errors_Is e ErrNoRows then (s, Some e)
        else
        case call_err env s DlqInsert i of
          Some e \<Rightarrow> (s, Some e)
        | None \<Rightarrow>
          if select_dlq d eventID \<noteq> None then (s, Some constraint_error)
          else finish (d\<lparr>tbl_dlq := tbl_dlq d @
            [\<lparr>dr_event_id = eventID, dr_device_id = device, dr_seq_no = seqNo, dr_payload = payload,
              dr_failure_type = ftype, dr_failure_reason = freason,
              dr_first_seen = sec_of (env_now env)\<rparr>]\<rparr>))"

definition MoveToDLQ ::
    "codec \<Rightarrow> store_env \<Rightarrow> canonical_event \<Rightarrow> string \<Rightarrow> string \<Rightarrow> sqlite_storage \<Rightarrow>
     sqlite_storage \<times> go_error option" where
  "MoveToDLQ js env ev ftype freason s =
     (case Serialize js ev of
        Inl e \<Rightarrow> (s, Some e)
      | Inr payload \<Rightarrow>
        moveRawToDLQLocked env 0 (EventID ev) (deviceID s) (SeqNo ev) payload ftype freason s)"

section \<open>Reading the pending events\<close>

text \<open>\<open>state = 'PENDING' AND (next_attempt_at IS NULL OR datetime(next_attempt_at) <=
  CURRENT_TIMESTAMP)\<close>; a text that is no date gives NULL, which does not satisfy the condition.\<close>

definition is_due :: "store_env \<Rightarrow> event_row \<Rightarrow> bool" where
  "is_due env r \<longleftrightarrow>
     er_state r = ''PENDING'' \<and>
     (case er_next_attempt_at r of
        None \<Rightarrow> True
      | Some (Canonical t) \<Rightarrow> t \<le> sec_of (env_now env)
      | Some (Legacy txt) \<Rightarrow>
          (case sql_datetime env txt of None \<Rightarrow> False | Some t \<Rightarrow> t \<le> sec_of (env_now env)))"

definition pending_rows :: "store_env \<Rightarrow> int \<Rightarrow> database \<Rightarrow> event_row list" where
  "pending_rows env limit d =
     (let due = sort_key er_seq_no (filter (is_due env) (tbl_events d))
      in if limit < 0 then due else take (nat limit) due)"

text \<open>The \<open>rows.Next\<close> loop: decoded events and corrupt rows; an error of \<open>Scan\<close> ends it.\<close>

fun decode_rows ::
    "codec \<Rightarrow> (nat \<Rightarrow> go_error option) \<Rightarrow> nat \<Rightarrow> event_row list \<Rightarrow>
     go_error + canonical_event list \<times> event_row list" where
  "decode_rows js scan i [] = Inr ([], [])"
| "decode_rows js scan i (r # rs) =
     (case scan i of
        Some e \<Rightarrow> Inl e
      | None \<Rightarrow>
        (case decode_rows js scan (Suc i) rs of
           Inl e \<Rightarrow> Inl e
         | Inr (evs, bad) \<Rightarrow>
           (case Deserialize js (er_payload r) of
              Inl _ \<Rightarrow> Inr (evs, r # bad)
            | Inr ev \<Rightarrow> Inr (ev # evs, bad))))"

fun move_corrupt ::
    "store_env \<Rightarrow> nat \<Rightarrow> event_row list \<Rightarrow> sqlite_storage \<Rightarrow> sqlite_storage \<times> go_error option" where
  "move_corrupt env i [] s = (s, None)"
| "move_corrupt env i (c # cs) s =
     (case moveRawToDLQLocked env i (er_event_id c) (er_device_id c) (er_seq_no c) (er_payload c)
        ''local_deserialization_error'' ''Failed to deserialize JSON'' s of
        (s1, Some e) \<Rightarrow>
          (s1, Some (wrap_err (''failed to move corrupt event '' @ er_event_id c @ '' to DLQ: '') e))
      | (s1, None) \<Rightarrow> move_corrupt env (Suc i) cs s1)"

definition GetPendingEvents ::
    "codec \<Rightarrow> store_env \<Rightarrow> int \<Rightarrow> sqlite_storage \<Rightarrow>
     sqlite_storage \<times> (go_error + canonical_event list)" where
  "GetPendingEvents js env limit s =
     (if db_handle s = DBNil then (s, Inl not_initialized)
      else
      case call_err env s PendingQuery 0 of
        Some e \<Rightarrow> (s, Inl e)
      | None \<Rightarrow>
      case decode_rows js (call_err env s PendingScan) 0 (pending_rows env limit (disk s)) of
        Inl e \<Rightarrow> (s, Inl e)
      | Inr (evs, bad) \<Rightarrow>
      case call_err env s PendingRows 0 of
        Some e \<Rightarrow> (s, Inl e)
      | None \<Rightarrow>
      case move_corrupt env 0 bad s of
        (s1, Some e) \<Rightarrow> (s1, Inl e)
      | (s1, None) \<Rightarrow> (s1, Inr evs))"

section \<open>Removal and retry\<close>

definition RemoveEvent :: "store_env \<Rightarrow> string \<Rightarrow> sqlite_storage \<Rightarrow> sqlite_storage \<times> go_error option" where
  "RemoveEvent env eventID s =
     (if db_handle s = DBNil then (s, Some not_initialized)
      else case call_err env s RemoveExec 0 of
        Some e \<Rightarrow> (s, Some e)
      | None \<Rightarrow> (s\<lparr>disk := delete_event eventID (disk s)\<rparr>, None))"

definition maxBackoffSeconds :: int where
  "maxBackoffSeconds = 3600"

definition maxRetryAfterSeconds :: int where
  "maxRetryAfterSeconds = 86400"

definition next_attempt_count :: "int \<Rightarrow> int" where
  "next_attempt_count n = (let m = wrap64 (n + 1) in if m < 0 then 1 else m)"

text \<open>The saturated exponential back-off in seconds.\<close>

definition backoff_seconds :: "int \<Rightarrow> int" where
  "backoff_seconds attempt =
     (if attempt \<ge> 10 then maxBackoffSeconds
      else let b = 5 * 2 ^ nat attempt in if b > maxBackoffSeconds then maxBackoffSeconds else b)"

definition jitter_seconds :: "store_env \<Rightarrow> int" where
  "jitter_seconds env = go_mod (UnixNano (env_now_jitter env)) 10"

definition next_attempt_at :: "store_env \<Rightarrow> int \<Rightarrow> int \<Rightarrow> go_time" where
  "next_attempt_at env retryAfter attempt =
     (if retryAfter > 0
      then env_now env + min retryAfter maxRetryAfterSeconds * second
      else env_now env + (backoff_seconds attempt * second + jitter_seconds env * second))"

definition MarkFailed ::
    "store_env \<Rightarrow> string \<Rightarrow> int \<Rightarrow> sqlite_storage \<Rightarrow> sqlite_storage \<times> go_error option" where
  "MarkFailed env eventID retryAfter s =
     (if db_handle s = DBNil then (s, Some not_initialized)
      else
      case query_row (call_err env s MarkSelect 0) (select_event (disk s) eventID) of
        Inl e \<Rightarrow> (s, Some e)
      | Inr r \<Rightarrow>
      let attempt = next_attempt_count (er_attempt_count r);
          ts = Canonical (sec_of (next_attempt_at env retryAfter attempt)) in
      case call_err env s MarkUpdate 0 of
        Some e \<Rightarrow> (s, Some e)
      | None \<Rightarrow>
        (s\<lparr>disk := (disk s)\<lparr>tbl_events :=
            map (\<lambda>r. if er_event_id r = eventID
                     then r\<lparr>er_attempt_count := attempt, er_next_attempt_at := Some ts\<rparr> else r)
              (tbl_events (disk s))\<rparr>\<rparr>, None))"

section \<open>Migration of legacy retry timestamps\<close>

definition is_space :: "char \<Rightarrow> bool" where
  "is_space c \<longleftrightarrow> code c \<in> {9, 10, 11, 12, 13, 32}"

text \<open>\<open>strings.TrimSpace\<close> on ASCII text.\<close>

definition TrimSpace :: "string \<Rightarrow> string" where
  "TrimSpace s = rev (dropWhile is_space (rev (dropWhile is_space s)))"

fun str_prefix :: "string \<Rightarrow> string \<Rightarrow> bool" where
  "str_prefix [] _ = True"
| "str_prefix (_ # _) [] = False"
| "str_prefix (p # ps) (c # cs) = (p = c \<and> str_prefix ps cs)"

text \<open>\<open>strings.Index\<close>; \<^term>\<open>None\<close> is -1.\<close>

fun str_index :: "string \<Rightarrow> string \<Rightarrow> nat option" where
  "str_index pat s =
     (if str_prefix pat s then Some 0
      else case s of [] \<Rightarrow> None | _ # cs \<Rightarrow> map_option Suc (str_index pat cs))"

declare str_index.simps [simp del]

definition retry_layouts :: "string list" where
  "retry_layouts =
     [''2006-01-02 15:04:05'',
      ''2006-01-02T15:04:05.999999999Z07:00'',
      ''2006-01-02T15:04:05Z07:00'',
      ''2006-01-02 15:04:05.999999999 -0700 MST'',
      ''2006-01-02 15:04:05.999999999 -0700'',
      ''2006-01-02 15:04:05.999999999'',
      ''2006-01-02 15:04:05 -0700 MST'',
      ''2006-01-02 15:04:05 -0700'',
      ''2006-01-02 15:04:05.999999999 +0700 MST'',
      ''2006-01-02 15:04:05.999999999 +0700'']"

fun first_layout :: "(string \<Rightarrow> string \<Rightarrow> go_time option) \<Rightarrow> string list \<Rightarrow> string \<Rightarrow> go_time option" where
  "first_layout time_Parse [] raw = None"
| "first_layout time_Parse (l # ls) raw =
     (case time_Parse l raw of Some t \<Rightarrow> Some t | None \<Rightarrow> first_layout time_Parse ls raw)"

definition parseRetryTimestamp :: "(string \<Rightarrow> string \<Rightarrow> go_time option) \<Rightarrow> string \<Rightarrow> go_time option" where
  "parseRetryTimestamp time_Parse raw =
     (let raw = TrimSpace raw in
      if raw = [] then None
      else
        let raw = (case str_index '' m='' raw of
                     None \<Rightarrow> raw | Some i \<Rightarrow> TrimSpace (take i raw))
        in first_layout time_Parse retry_layouts raw)"

text \<open>The rows the migration selects: a timestamp whose text is not 19 characters long.\<close>

definition legacy_text :: "event_row \<Rightarrow> string option" where
  "legacy_text r =
     (case er_next_attempt_at r of
        Some (Legacy txt) \<Rightarrow> (if RuneCountInString txt \<noteq> 19 then Some txt else None)
      | _ \<Rightarrow> None)"

definition migrated_stamp :: "(string \<Rightarrow> string \<Rightarrow> go_time option) \<Rightarrow> store_env \<Rightarrow> string \<Rightarrow> stamp" where
  "migrated_stamp time_Parse env txt =
     (case parseRetryTimestamp time_Parse txt of
        Some t \<Rightarrow> Canonical (sec_of t)
      | None \<Rightarrow> Canonical (sec_of (env_now env - 3600 * second)))"

definition migration_updates ::
    "(string \<Rightarrow> string \<Rightarrow> go_time option) \<Rightarrow> store_env \<Rightarrow> database \<Rightarrow> (string \<times> stamp) list" where
  "migration_updates time_Parse env d =
     take 1000 (List.map_filter
       (\<lambda>r. map_option (\<lambda>txt. (er_event_id r, migrated_stamp time_Parse env txt)) (legacy_text r))
       (tbl_events d))"

definition set_stamp :: "string \<times> stamp \<Rightarrow> event_row \<Rightarrow> event_row" where
  "set_stamp u r = (if er_event_id r = fst u then r\<lparr>er_next_attempt_at := Some (snd u)\<rparr> else r)"

fun first_err :: "(nat \<Rightarrow> go_error option) \<Rightarrow> nat \<Rightarrow> go_error option" where
  "first_err f 0 = None"
| "first_err f (Suc n) = (case first_err f n of Some e \<Rightarrow> Some e | None \<Rightarrow> f n)"

definition migrateRetryTimestamps ::
    "(string \<Rightarrow> string \<Rightarrow> go_time option) \<Rightarrow> store_env \<Rightarrow> sqlite_storage \<Rightarrow>
     sqlite_storage \<times> go_error option" where
  "migrateRetryTimestamps time_Parse env s =
     (case call_err env s MigrateQuery 0 of
        Some e \<Rightarrow> (s, Some (wrap_err ''failed to query retry timestamps: '' e))
      | None \<Rightarrow>
      let us = migration_updates time_Parse env (disk s) in
      case first_err (call_err env s MigrateScan) (length us) of
        Some e \<Rightarrow> (s, Some e)
      | None \<Rightarrow>
      case call_err env s MigrateRows 0 of
        Some e \<Rightarrow> (s, Some e)
      | None \<Rightarrow>
      if us = [] then (s, None)
      else
      case call_err env s MigrateBegin 0 of
        Some e \<Rightarrow> (s, Some (wrap_err ''failed to begin migration tx: '' e))
      | None \<Rightarrow>
      case call_err env s MigratePrepare 0 of
        Some e \<Rightarrow> (s, Some (wrap_err ''failed to prepare migration update stmt: '' e))
      | None \<Rightarrow>
      case first_err (call_err env s MigrateUpdate) (length us) of
        Some e \<Rightarrow> (s, Some (wrap_err ''failed to migrate retry timestamp for event: '' e))
      | None \<Rightarrow>
      let s1 = s\<lparr>disk := (disk s)\<lparr>tbl_events := fold (\<lambda>u. map (set_stamp u)) us (tbl_events (disk s))\<rparr>\<rparr> in
      case call_err env s MigrateCommit 0 of
        Some e \<Rightarrow> (if commit_applied env MigrateCommit 0 then s1 else s, Some e)
      | None \<Rightarrow> (s1, None))"

section \<open>Initialisation\<close>

text \<open>The answers of the file system and of \<open>uuid\<close> that only \<open>Init\<close> uses: the content of the
  identity file (an error, or the device id its JSON holds), a fresh UUID, the result of removing
  the identity file, and the results of the three renames.\<close>

datatype rename_result = RenOk | RenNotExist | RenErr go_error

record init_env = store_env +
  read_identity :: "go_error + (go_error + string)"
  uuid_New :: string
  remove_identity :: "go_error option"
  os_Rename :: "nat \<Rightarrow> rename_result"

text \<open>\<open>degradeStorage\<close>: the database file, then its WAL and SHM files, are renamed away.\<close>

fun rename_all :: "(nat \<Rightarrow> rename_result) \<Rightarrow> nat \<Rightarrow> string list \<Rightarrow> bool \<Rightarrow> bool \<times> go_error option" where
  "rename_all ren i [] moved = (moved, None)"
| "rename_all ren i (what # rest) moved =
     (case ren i of
        RenErr e \<Rightarrow> (moved, Some (wrap_err (''additionally failed to move '' @ what @ '': '') e))
      | RenNotExist \<Rightarrow> rename_all ren (Suc i) rest moved
      | RenOk \<Rightarrow> rename_all ren (Suc i) rest True)"

definition degradeStorage :: "init_env \<Rightarrow> go_error \<Rightarrow> sqlite_storage \<Rightarrow> sqlite_storage \<times> go_error" where
  "degradeStorage env e s =
     (let (moved, rerr) = rename_all (os_Rename env) 0 [''DB'', ''WAL'', ''SHM''] False;
          s1 = s\<lparr>corrupt_backup := corrupt_backup s \<or> moved,
                 disk := (if os_Rename env 0 = RenOk then empty_database else disk s)\<rparr>
      in (s1, GoError (err_chain e)
            (''DEGRADED_STORAGE: '' @ err_text e @
             (case rerr of Some r \<Rightarrow> '' ('' @ err_text r @ '')'' | None \<Rightarrow> '' (moved)''))))"

definition migrateOrGenerateID :: "init_env \<Rightarrow> sqlite_storage \<Rightarrow> go_error + string" where
  "migrateOrGenerateID env s =
     (if identityPath s \<noteq> [] then
        (case read_identity env of
           Inr (Inl e) \<Rightarrow> Inl (wrap_err ''failed to parse legacy identity file: '' e)
         | Inr (Inr device) \<Rightarrow> if device \<noteq> [] then Inr device else Inr (uuid_New env)
         | Inl e \<Rightarrow>
             if \<not> errors_Is e ErrNotExist
             then Inl (wrap_err ''failed to read legacy identity file: '' e)
             else Inr (uuid_New env))
      else Inr (uuid_New env))"

definition new_agent_state :: "string \<Rightarrow> agent_state_row" where
  "new_agent_state device =
     \<lparr>as_device_id = device, as_next_seq_no = 1, as_schema_version = ''1.0.0'',
      as_dropped_total = 0, as_dropped_debug = 0, as_dropped_info = 0, as_dropped_warning = 0,
      as_storage_pressure_state = None, as_last_pressure_at = None\<rparr>"

text \<open>The end of \<open>initIdentity\<close>: commit, record the device id, remove the legacy file.\<close>

definition finish_identity ::
    "init_env \<Rightarrow> sqlite_storage \<Rightarrow> database \<Rightarrow> string \<Rightarrow> sqlite_storage \<times> go_error option" where
  "finish_identity env s d device =
     (case call_err (store_env.truncate env) s IdCommit 0 of
        Some e \<Rightarrow> (if commit_applied env IdCommit 0 then s\<lparr>disk := d\<rparr> else s, Some e)
      | None \<Rightarrow>
        (s\<lparr>disk := d, deviceID := device,
           identity_file := identity_file s \<and> remove_identity env \<noteq> None\<rparr>, None))"

definition initIdentity :: "init_env \<Rightarrow> sqlite_storage \<Rightarrow> sqlite_storage \<times> go_error option" where
  "initIdentity env s =
     (let call = call_err (store_env.truncate env) s in
      case call IdBegin 0 of
        Some e \<Rightarrow> (s, Some e)
      | None \<Rightarrow>
      case query_row (call IdSelect 0) (tbl_agent_state (disk s)) of
        Inr a \<Rightarrow> finish_identity env s (disk s) (as_device_id a)
      | Inl e \<Rightarrow>
        if \<not> errors_Is e ErrNoRows then (s, Some (wrap_err ''failed to query agent_state: '' e))
        else
        case migrateOrGenerateID env s of
          Inl e \<Rightarrow> (s, Some e)
        | Inr device \<Rightarrow>
          case call IdInsert 0 of
            Some e \<Rightarrow> (s, Some (wrap_err ''failed to insert device_id: '' e))
          | None \<Rightarrow>
            if tbl_agent_state (disk s) \<noteq> None
            then (s, Some (wrap_err ''failed to insert device_id: '' constraint_error))
            else finish_identity env s
              ((disk s)\<lparr>tbl_agent_state := Some (new_agent_state device)\<rparr>) device)"

definition Init ::
    "(string \<Rightarrow> string \<Rightarrow> go_time option) \<Rightarrow> init_env \<Rightarrow> sqlite_storage \<Rightarrow>
     sqlite_storage \<times> go_error option" where
  "Init time_Parse env s =
     (case fault env InitMkdir 0 of
        Some e \<Rightarrow> (s, Some (wrap_err ''failed to create db dir: '' e))
      | None \<Rightarrow>
      if corrupt_backup s
        then (s, Some (errors_New
          ''DEGRADED_STORAGE: corrupt DB backup found, manual recovery required''))
      else
      case fault env InitOpen 0 of
        Some e \<Rightarrow> (s, Some e)
      | None \<Rightarrow>
      case first_err (fault env InitPragma) 4 of
        Some e \<Rightarrow>
          map_prod id Some (degradeStorage env (wrap_err ''failed to set pragma: '' e) s)
      | None \<Rightarrow>
      case fault env InitIntegrity 0 of
        Some e \<Rightarrow>
          map_prod id Some (degradeStorage env
            (errors_New (''database corrupted or integrity check failed: '' @ err_text e)) s)
      | None \<Rightarrow>
      case fault env InitSchema 0 of
        Some e \<Rightarrow> (s, Some (wrap_err ''failed to init schema: '' e))
      | None \<Rightarrow>
      case initIdentity env (s\<lparr>db_handle := DBOpen\<rparr>) of
        (s1, Some e) \<Rightarrow> (s1\<lparr>db_handle := DBNil\<rparr>, Some e)
      | (s1, None) \<Rightarrow>
        (fst (migrateRetryTimestamps time_Parse (store_env.truncate env) s1), None))"

text \<open>\<open>Close\<close>; \<open>GetDeviceID\<close>.\<close>

definition Close :: "sqlite_storage \<Rightarrow> sqlite_storage" where
  "Close s = (if db_handle s = DBNil then s else s\<lparr>db_handle := DBClosed\<rparr>)"

definition GetDeviceID :: "sqlite_storage \<Rightarrow> string" where
  "GetDeviceID s = deviceID s"

end
