(* ===== verification/Storage_Quota.thy ===== *)
theory Storage_Quota
  imports Storage
begin

text \<open>
  The invariant of the tables of the edge storage, and what the quota does to them: every loop of
  \<open>enforceQuota\<close> ends, only prunable severities are deleted, in the order of severity and then of
  sequence number, and the drop counters account for every deleted event.
\<close>

section \<open>Invariant of the tables\<close>

definition event_ids :: "database \<Rightarrow> string set" where
  "event_ids d = er_event_id ` set (tbl_events d)"

definition dlq_ids :: "database \<Rightarrow> string set" where
  "dlq_ids d = dr_event_id ` set (tbl_dlq d)"

text \<open>The keys are unique, a stored sequence number is below the next one to be given, the drop
  counters add up, and an event is not both waiting and dead-lettered.\<close>

definition storage_inv :: "database \<Rightarrow> bool" where
  "storage_inv d \<longleftrightarrow>
     distinct (map er_event_id (tbl_events d)) \<and>
     distinct (map er_seq_no (tbl_events d)) \<and>
     distinct (map dr_event_id (tbl_dlq d)) \<and>
     event_ids d \<inter> dlq_ids d = {} \<and>
     (case tbl_agent_state d of
        None \<Rightarrow> tbl_events d = []
      | Some a \<Rightarrow>
          (\<forall>r \<in> set (tbl_events d). er_seq_no r < as_next_seq_no a) \<and>
          as_dropped_total a = as_dropped_debug a + as_dropped_info a + as_dropped_warning a)"

text \<open>Errors the driver reports are not \<open>sql.ErrNoRows\<close>, which means that there is no row.\<close>

definition driver_ok :: "store_env \<Rightarrow> bool" where
  "driver_ok env \<longleftrightarrow> (\<forall>c i e. fault env c i = Some e \<longrightarrow> \<not> errors_Is e ErrNoRows)"

lemma storage_inv_empty: "storage_inv empty_database"
  by (simp add: storage_inv_def empty_database_def event_ids_def dlq_ids_def)

lemma select_event_None: "select_event d i = None \<longleftrightarrow> i \<notin> event_ids d"
  by (auto simp: select_event_def find_None_iff event_ids_def)

lemma select_event_Some:
  "select_event d i = Some r \<Longrightarrow> r \<in> set (tbl_events d) \<and> er_event_id r = i"
  by (auto simp: select_event_def find_Some_iff)

lemma select_event_in: "select_event d i = Some r \<Longrightarrow> i \<in> event_ids d"
  by (auto dest!: select_event_Some simp: event_ids_def)

lemma select_dlq_None: "select_dlq d i = None \<longleftrightarrow> i \<notin> dlq_ids d"
  by (auto simp: select_dlq_def find_None_iff dlq_ids_def)

lemma select_dlq_Some:
  "select_dlq d i = Some r \<Longrightarrow> r \<in> set (tbl_dlq d) \<and> dr_event_id r = i"
  by (auto simp: select_dlq_def find_Some_iff)

lemma select_dlq_in: "select_dlq d i = Some r \<Longrightarrow> i \<in> dlq_ids d"
  by (auto dest!: select_dlq_Some simp: dlq_ids_def)

lemma query_row_Inr [simp]: "query_row err row = Inr r \<longleftrightarrow> err = None \<and> row = Some r"
  by (auto simp: query_row_def split: option.splits)

lemma query_row_Some [simp]: "query_row None (Some r) = Inr r"
  by simp

lemma query_row_NoRows:
  assumes "query_row (call_err env s c i) row = Inl e" "errors_Is e ErrNoRows" "driver_ok env"
  shows "row = None"
  using assms
  by (auto simp: query_row_def call_err_def driver_ok_def split: option.splits if_splits)

text \<open>A table whose events are a part of the old ones keeps the invariant.\<close>

lemma storage_inv_sub:
  assumes inv: "storage_inv d" and sub: "set (tbl_events d') \<subseteq> set (tbl_events d)"
    and dist: "distinct (map er_event_id (tbl_events d'))" "distinct (map er_seq_no (tbl_events d'))"
    and dlq: "tbl_dlq d' = tbl_dlq d"
    and ag: "tbl_agent_state d' = map_option f (tbl_agent_state d)"
    and f: "\<And>a. as_next_seq_no (f a) = as_next_seq_no a"
      "\<And>a. as_dropped_total a = as_dropped_debug a + as_dropped_info a + as_dropped_warning a \<Longrightarrow>
         as_dropped_total (f a) = as_dropped_debug (f a) + as_dropped_info (f a) + as_dropped_warning (f a)"
  shows "storage_inv d'"
proof -
  have "event_ids d' \<subseteq> event_ids d" "dlq_ids d' = dlq_ids d"
    using sub by (auto simp: event_ids_def dlq_ids_def dlq)
  then show ?thesis
    using inv sub dist f by (cases "tbl_agent_state d") (auto simp: storage_inv_def dlq ag)
qed

lemma storage_inv_filter:
  assumes "storage_inv d"
  shows "storage_inv (d\<lparr>tbl_events := filter P (tbl_events d)\<rparr>)"
  by (rule storage_inv_sub [OF assms, where f = id])
     (use assms in \<open>auto simp: storage_inv_def distinct_map_filter option.map_id\<close>)

lemma storage_inv_delete: "storage_inv d \<Longrightarrow> storage_inv (delete_event i d)"
  by (simp add: delete_event_def storage_inv_filter)

lemma storage_inv_agent:
  assumes "storage_inv d" "\<And>a. as_next_seq_no (f a) = as_next_seq_no a"
    "\<And>a. as_dropped_total a = as_dropped_debug a + as_dropped_info a + as_dropped_warning a \<Longrightarrow>
       as_dropped_total (f a) = as_dropped_debug (f a) + as_dropped_info (f a) + as_dropped_warning (f a)"
  shows "storage_inv (update_agent_state f d)"
  by (rule storage_inv_sub [OF assms(1), where f = f])
     (use assms in \<open>auto simp: storage_inv_def update_agent_state_def\<close>)

section \<open>The quota\<close>

text \<open>What a pruning run may have done to the tables: the dead letter queue, the identity and the
  next sequence number are untouched, and events are only deleted.\<close>

definition agent_core :: "database \<Rightarrow> (string \<times> int) option" where
  "agent_core d = map_option (\<lambda>a. (as_device_id a, as_next_seq_no a)) (tbl_agent_state d)"

definition pruned :: "database \<Rightarrow> database \<Rightarrow> bool" where
  "pruned d d' \<longleftrightarrow>
     tbl_dlq d' = tbl_dlq d \<and> agent_core d' = agent_core d \<and>
     set (tbl_events d') \<subseteq> set (tbl_events d) \<and> storage_inv d'"

text \<open>The deleted events, and the order of deletion: by the position of the severity in the list,
  then by sequence number.\<close>

definition deleted :: "database \<Rightarrow> database \<Rightarrow> event_row set" where
  "deleted d d' = set (tbl_events d) - set (tbl_events d')"

definition sev_rank :: "string list \<Rightarrow> event_row \<Rightarrow> nat" where
  "sev_rank sevs r = length (takeWhile (\<lambda>x. x \<noteq> er_severity r) sevs)"

definition prune_le :: "string list \<Rightarrow> event_row \<Rightarrow> event_row \<Rightarrow> bool" where
  "prune_le sevs r r' \<longleftrightarrow>
     sev_rank sevs r < sev_rank sevs r' \<or>
     er_severity r = er_severity r' \<and> er_seq_no r \<le> er_seq_no r'"

text \<open>Deleted and kept events together: the drop counter plus the number of events.\<close>

definition accounted :: "database \<Rightarrow> int option" where
  "accounted d = map_option (\<lambda>a. as_dropped_total a + int (length (tbl_events d))) (tbl_agent_state d)"

lemma pruned_refl: "storage_inv d \<Longrightarrow> pruned d d"
  by (simp add: pruned_def)

lemma pruned_trans: "pruned d1 d2 \<Longrightarrow> pruned d2 d3 \<Longrightarrow> pruned d1 d3"
  by (auto simp: pruned_def)

lemma pruned_inv: "pruned d d' \<Longrightarrow> storage_inv d'"
  by (simp add: pruned_def)

lemma agent_core_update:
  "(\<And>a. as_device_id (f a) = as_device_id a \<and> as_next_seq_no (f a) = as_next_seq_no a) \<Longrightarrow>
   agent_core (update_agent_state f d) = agent_core d"
  by (cases "tbl_agent_state d") (auto simp: agent_core_def update_agent_state_def)

lemma update_agent_state_simps [simp]:
  "tbl_events (update_agent_state f d) = tbl_events d"
  "tbl_dlq (update_agent_state f d) = tbl_dlq d"
  by (simp_all add: update_agent_state_def)

lemma pruned_agent:
  assumes "storage_inv d"
    "\<And>a. as_device_id (f a) = as_device_id a \<and> as_next_seq_no (f a) = as_next_seq_no a"
    "\<And>a. as_dropped_total a = as_dropped_debug a + as_dropped_info a + as_dropped_warning a \<Longrightarrow>
       as_dropped_total (f a) = as_dropped_debug (f a) + as_dropped_info (f a) + as_dropped_warning (f a)"
  shows "pruned d (update_agent_state f d)"
  using assms storage_inv_agent [of d f] by (simp add: pruned_def agent_core_update)

lemma pruned_add_dropped: "storage_inv d \<Longrightarrow> pruned d (update_agent_state (add_dropped sev n now) d)"
  by (rule pruned_agent) (auto simp: add_dropped_def Let_def)

lemma pruned_prune_rows:
  "storage_inv d \<Longrightarrow> pruned d (d\<lparr>tbl_events := prune_rows sev (tbl_events d)\<rparr>)"
  using storage_inv_filter [of d "\<lambda>r. er_event_id r \<notin> set (prune_ids sev (tbl_events d))"]
  by (auto simp: pruned_def prune_rows_def agent_core_def)

text \<open>One DELETE: only the severity asked for, the lowest sequence numbers first, nothing left if
  nothing was deleted.\<close>

lemma prune_ids_subset:
  "set (prune_ids sev rows) \<subseteq> er_event_id ` {r \<in> set rows. er_severity r = sev}"
proof -
  have "set (take 50 (sort_key er_seq_no (filter (\<lambda>r. er_severity r = sev) rows)))
      \<subseteq> {r \<in> set rows. er_severity r = sev}"
    using set_take_subset [of 50 "sort_key er_seq_no (filter (\<lambda>r. er_severity r = sev) rows)"] by auto
  then show ?thesis by (auto simp: prune_ids_def)
qed

lemma distinct_ids_eq:
  "distinct (map g xs) \<Longrightarrow> x \<in> set xs \<Longrightarrow> y \<in> set xs \<Longrightarrow> g x = g y \<Longrightarrow> x = y"
  by (auto simp: distinct_map dest: inj_onD)

lemma prune_rows_severity:
  assumes "distinct (map er_event_id rows)" "r \<in> set rows" "r \<notin> set (prune_rows sev rows)"
  shows "er_severity r = sev"
proof -
  from assms have "er_event_id r \<in> set (prune_ids sev rows)" by (simp add: prune_rows_def)
  with prune_ids_subset obtain q where "q \<in> set rows" "er_severity q = sev" "er_event_id q = er_event_id r"
    by fastforce
  with assms show ?thesis using distinct_ids_eq by fastforce
qed

lemma sorted_key_take_drop:
  "sorted (map f xs) \<Longrightarrow> x \<in> set (take n xs) \<Longrightarrow> y \<in> set (drop n xs) \<Longrightarrow> f x \<le> f y"
proof -
  assume a: "sorted (map f xs)" and xy: "x \<in> set (take n xs)" "y \<in> set (drop n xs)"
  from a have "sorted (map f (take n xs) @ map f (drop n xs))" by (simp flip: map_append)
  with xy show ?thesis by (simp add: sorted_append)
qed

lemma prune_rows_oldest:
  assumes d: "distinct (map er_event_id rows)"
    and r: "r \<in> set rows" "r \<notin> set (prune_rows sev rows)"
    and r': "r' \<in> set (prune_rows sev rows)" "er_severity r' = sev"
  shows "er_seq_no r \<le> er_seq_no r'"
proof -
  let ?xs = "sort_key er_seq_no (filter (\<lambda>r. er_severity r = sev) rows)"
  have sub: "set ?xs = {r \<in> set rows. er_severity r = sev}" by auto
  from r have "er_event_id r \<in> set (prune_ids sev rows)" by (simp add: prune_rows_def)
  then obtain q where q: "q \<in> set (take 50 ?xs)" "er_event_id q = er_event_id r"
    by (auto simp: prune_ids_def)
  have "q \<in> set rows" using q(1) sub by (auto dest: in_set_takeD)
  with d r q have "q = r" using distinct_ids_eq by fastforce
  moreover have "r' \<in> set ?xs" using r' sub by (simp add: prune_rows_def)
  moreover have "r' \<notin> set (take 50 ?xs)" using r' by (auto simp: prune_rows_def prune_ids_def)
  moreover have "set ?xs = set (take 50 ?xs) \<union> set (drop 50 ?xs)"
    by (simp only: set_append [symmetric] append_take_drop_id)
  ultimately have "r \<in> set (take 50 ?xs)" "r' \<in> set (drop 50 ?xs)"
    using q(1) by blast+
  then show ?thesis using sorted_key_take_drop [of er_seq_no ?xs r 50 r'] by simp
qed

lemma prune_rows_none_left:
  assumes "length (prune_rows sev rows) = length rows" "r \<in> set rows"
  shows "er_severity r \<noteq> sev"
proof
  let ?xs = "sort_key er_seq_no (filter (\<lambda>r. er_severity r = sev) rows)"
  assume "er_severity r = sev"
  with assms have "r \<in> set ?xs" by simp
  then have "?xs \<noteq> []" by fastforce
  then obtain q qs where q: "?xs = q # qs" by (cases ?xs) auto
  then have "er_event_id q \<in> set (prune_ids sev rows)" by (simp add: prune_ids_def)
  moreover have "q \<in> set ?xs" by (simp only: q) simp
  then have "q \<in> set rows" by simp
  ultimately show False
    using assms(1) length_filter_less [of q rows "\<lambda>r. er_event_id r \<notin> set (prune_ids sev rows)"]
    by (auto simp: prune_rows_def)
qed

fun prune_db :: "prune_result \<Rightarrow> database" where
  "prune_db (PruneReturn d k) = d"
| "prune_db (PruneBreak d k) = d"
| "prune_db (PruneFail d e) = d"

text \<open>What the loop over one severity does.\<close>

definition loop_post :: "string \<Rightarrow> database \<Rightarrow> database \<Rightarrow> bool" where
  "loop_post sev d d' \<longleftrightarrow>
     pruned d d' \<and> (\<forall>r \<in> deleted d d'. er_severity r = sev) \<and>
     (\<forall>r \<in> deleted d d'. \<forall>r' \<in> set (tbl_events d').
        er_severity r' = sev \<longrightarrow> er_seq_no r \<le> er_seq_no r')"

lemma deleted_trans:
  "pruned d1 d2 \<Longrightarrow> pruned d2 d3 \<Longrightarrow> deleted d1 d3 = deleted d1 d2 \<union> deleted d2 d3"
  by (auto simp: deleted_def pruned_def)

lemma loop_post_refl: "storage_inv d \<Longrightarrow> loop_post sev d d"
  by (simp add: loop_post_def pruned_refl deleted_def)

lemma loop_post_trans: "loop_post sev d1 d2 \<Longrightarrow> loop_post sev d2 d3 \<Longrightarrow> loop_post sev d1 d3"
proof -
  assume a: "loop_post sev d1 d2" "loop_post sev d2 d3"
  then have p: "pruned d1 d2" "pruned d2 d3" by (simp_all add: loop_post_def)
  then have "set (tbl_events d3) \<subseteq> set (tbl_events d2)" by (simp add: pruned_def)
  with a show ?thesis
    unfolding loop_post_def deleted_trans [OF p] using pruned_trans [OF p] by blast
qed

lemma loop_post_inv: "loop_post sev d d' \<Longrightarrow> storage_inv d'"
  by (simp add: loop_post_def pruned_def)

lemma loop_post_rows:
  assumes "storage_inv d"
  shows "loop_post sev d (d\<lparr>tbl_events := prune_rows sev (tbl_events d)\<rparr>)"
proof -
  have "distinct (map er_event_id (tbl_events d))" using assms by (simp add: storage_inv_def)
  then show ?thesis
    using assms pruned_prune_rows prune_rows_severity prune_rows_oldest
    unfolding loop_post_def deleted_def by auto
qed

lemma loop_post_add_dropped:
  "storage_inv d \<Longrightarrow> loop_post sev d (update_agent_state (add_dropped sev n now) d)"
  by (simp add: loop_post_def pruned_add_dropped deleted_def)

lemma loop_post_step:
  assumes "storage_inv d"
  shows "loop_post sev d (update_agent_state (add_dropped sev n now)
           (d\<lparr>tbl_events := prune_rows sev (tbl_events d)\<rparr>))"
  using assms loop_post_rows loop_post_add_dropped loop_post_trans
  by (meson loop_post_inv)

lemma accounted_step:
  assumes "n = int (length (tbl_events d) - length kept)" "length kept \<le> length (tbl_events d)"
  shows "accounted (update_agent_state (add_dropped sev n now) (d\<lparr>tbl_events := kept\<rparr>)) = accounted d"
  using assms
  by (cases "tbl_agent_state d")
     (auto simp: accounted_def update_agent_state_def add_dropped_def Let_def of_nat_diff)

lemma prune_loop_post:
  "storage_inv d \<Longrightarrow> loop_post sev d (prune_db (prune_loop env s est sev k d))"
proof (induction env s est sev k d rule: prune_loop.induct)
  case (1 env s est sev k d)
  let ?kept = "prune_rows sev (tbl_events d)"
  let ?d1 = "d\<lparr>tbl_events := ?kept\<rparr>"
  let ?d2 = "update_agent_state (add_dropped sev (int (length (tbl_events d) - length ?kept))
               (sec_of (env_now env))) ?d1"
  have step: "loop_post sev d ?d2" using 1(2) by (rule loop_post_step)
  then have "storage_inv ?d2" by (rule loop_post_inv)
  note IH = 1(1) [OF refl _ _ refl refl _ refl _ this]
  show ?case
    using loop_post_refl [OF 1(2)] loop_post_rows [OF 1(2)] loop_post_trans [OF step IH]
    by (subst prune_loop.simps) (auto simp: Let_def split: option.splits)
qed

lemma prune_loop_break:
  "prune_loop env s est sev k d = PruneBreak d' k' \<Longrightarrow> r \<in> set (tbl_events d') \<Longrightarrow> er_severity r \<noteq> sev"
proof (induction env s est sev k d rule: prune_loop.induct)
  case (1 env s est sev k d)
  show ?case
    using 1(2) 1(3) 1(1) [OF refl _ _ refl refl _ refl]
    by (subst (asm) prune_loop.simps)
       (auto simp: Let_def prune_rows_none_left split: option.splits if_splits)
qed

lemma prune_loop_accounted:
  "prune_loop env s est sev k d = r \<Longrightarrow> (\<And>x e. r \<noteq> PruneFail x e) \<Longrightarrow>
   accounted (prune_db r) = accounted d"
proof (induction env s est sev k d rule: prune_loop.induct)
  case (1 env s est sev k d)
  have le: "length (prune_rows sev (tbl_events d)) \<le> length (tbl_events d)"
    by (simp add: prune_rows_def)
  show ?case
    using 1(2) 1(3) 1(1) [OF refl _ _ refl refl _ refl]
    by (subst (asm) prune_loop.simps)
       (auto simp: Let_def accounted_step le split: option.splits if_splits)
qed

text \<open>What the loop over all severities does.\<close>

definition all_post :: "string list \<Rightarrow> database \<Rightarrow> database \<Rightarrow> bool" where
  "all_post sevs d d' \<longleftrightarrow>
     pruned d d' \<and> (\<forall>r \<in> deleted d d'. er_severity r \<in> set sevs) \<and>
     (\<forall>r \<in> deleted d d'. \<forall>r' \<in> set (tbl_events d').
        er_severity r' \<in> set sevs \<longrightarrow> prune_le sevs r r')"

lemma sev_rank_Cons:
  "sev_rank (sev # sevs) r = (if er_severity r = sev then 0 else Suc (sev_rank sevs r))"
  by (simp add: sev_rank_def)

lemma all_post_loop: "loop_post sev d d' \<Longrightarrow> all_post (sev # sevs) d d'"
  by (auto simp: all_post_def loop_post_def prune_le_def sev_rank_Cons)

lemma all_post_Cons:
  assumes a: "loop_post sev d d1" "\<And>r. r \<in> set (tbl_events d1) \<Longrightarrow> er_severity r \<noteq> sev"
    and b: "all_post sevs d1 d2"
  shows "all_post (sev # sevs) d d2"
proof -
  have p: "pruned d d1" "pruned d1 d2" using a b by (simp_all add: loop_post_def all_post_def)
  have sub: "set (tbl_events d2) \<subseteq> set (tbl_events d1)" using p(2) by (simp add: pruned_def)
  have ne: "er_severity r \<noteq> sev" if "r \<in> set (tbl_events d2) \<or> r \<in> deleted d1 d2" for r
    using that sub a(2) by (auto simp: deleted_def)
  have "prune_le (sev # sevs) r r'"
    if "r \<in> deleted d d1 \<union> deleted d1 d2" "r' \<in> set (tbl_events d2)"
      "er_severity r' \<in> set (sev # sevs)" for r r'
    using that a(1) b ne [of r] ne [of r']
    by (auto simp: loop_post_def all_post_def prune_le_def sev_rank_Cons)
  moreover have "er_severity r \<in> set (sev # sevs)" if "r \<in> deleted d d1 \<union> deleted d1 d2" for r
    using that a(1) b by (auto simp: loop_post_def all_post_def)
  ultimately show ?thesis
    unfolding all_post_def deleted_trans [OF p] using pruned_trans [OF p] by blast
qed

lemma prune_all_post:
  "storage_inv d \<Longrightarrow> all_post sevs d (prune_db (prune_all env s est sevs k d))"
proof (induction sevs arbitrary: k d)
  case Nil
  then show ?case by (simp add: all_post_def pruned_refl deleted_def)
next
  case (Cons sev sevs)
  have lp: "loop_post sev d (prune_db (prune_loop env s est sev k d))"
    using Cons.prems by (rule prune_loop_post)
  show ?case
  proof (cases "prune_loop env s est sev k d")
    case (PruneBreak d1 k1)
    with lp have "loop_post sev d d1" by simp
    with Cons.IH [of d1 k1] show ?thesis
      using all_post_Cons prune_loop_break [OF PruneBreak] PruneBreak by (simp add: loop_post_inv)
  qed (use lp all_post_loop in simp_all)
qed

lemma prune_all_accounted:
  "prune_all env s est sevs k d = r \<Longrightarrow> (\<And>x e. r \<noteq> PruneFail x e) \<Longrightarrow>
   accounted (prune_db r) = accounted d"
proof (induction sevs arbitrary: k d)
  case (Cons sev sevs)
  show ?case
    using Cons prune_loop_accounted [of env s est sev k d]
    by (cases "prune_loop env s est sev k d") auto
qed auto

lemma pruned_same_events:
  "all_post sevs d d1 \<Longrightarrow> pruned d1 d2 \<Longrightarrow> tbl_events d2 = tbl_events d1 \<Longrightarrow> all_post sevs d d2"
  using pruned_trans [of d d1 d2] by (simp add: all_post_def deleted_def)

lemma enforceQuota_post:
  assumes inv: "storage_inv (disk s)" and q: "enforceQuota env s incoming est = (d', err)"
  shows "all_post prunableSeverities (disk s) d'"
proof -
  have refl: "all_post prunableSeverities (disk s) (disk s)"
    using inv by (simp add: all_post_def pruned_refl deleted_def)
  define r where "r = prune_all env s est prunableSeverities 0 (disk s)"
  have ap: "all_post prunableSeverities (disk s) (prune_db r)"
    using prune_all_post [OF inv] by (simp add: r_def)
  then have inv': "storage_inv (prune_db r)" by (simp add: all_post_def pruned_def)
  have "all_post prunableSeverities (disk s) (update_agent_state f (prune_db r))"
    if "\<And>a. as_device_id (f a) = as_device_id a \<and> as_next_seq_no (f a) = as_next_seq_no a"
      "\<And>a. as_dropped_total a = as_dropped_debug a + as_dropped_info a + as_dropped_warning a \<Longrightarrow>
         as_dropped_total (f a) = as_dropped_debug (f a) + as_dropped_info (f a) + as_dropped_warning (f a)"
    for f
    using pruned_same_events [OF ap pruned_agent [OF inv' that]] by simp
  note upd = this
  show ?thesis
    using q ap refl upd unfolding enforceQuota_def Let_def r_def [symmetric]
    by (cases r) (auto split: sum.splits option.splits if_splits)
qed

lemma accounted_agent:
  "(\<And>a. as_dropped_total (f a) = as_dropped_total a) \<Longrightarrow> accounted (update_agent_state f d) = accounted d"
  by (cases "tbl_agent_state d") (auto simp: accounted_def update_agent_state_def)

lemma enforceQuota_accounted:
  assumes "enforceQuota env s incoming est = (d', None)"
  shows "accounted d' = accounted (disk s)"
proof -
  define r where "r = prune_all env s est prunableSeverities 0 (disk s)"
  have "accounted (prune_db r) = accounted (disk s)" if "\<And>x e. r \<noteq> PruneFail x e"
    using prune_all_accounted [of env s est prunableSeverities 0 "disk s" r] that by (simp add: r_def)
  with assms show ?thesis
    unfolding enforceQuota_def Let_def r_def [symmetric]
    by (cases r) (auto simp: accounted_agent split: sum.splits option.splits if_splits)
qed

text \<open>The low water mark is within the quota.\<close>

lemma low_water_le:
  assumes "0 \<le> quota" "quota \<le> 2 ^ 53"
  shows "low_water quota \<le> quota"
proof -
  obtain x where x: "f64_of_rat (9 / 10) = Fin x" "0 \<le> x" "x \<le> 1"
    using f64_of_rat_unit [of "9 / 10"] by auto
  have g: "round_rat (of_int quota) = of_int quota" using assms by (intro round_rat_int) simp
  have q: "f64_of_int quota = Fin (of_int quota)"
    using f64_of_int_finite [of quota] g assms by simp
  have b: "\<bar>rat_of_int quota\<bar> < f64_top"
  proof (rule small_lt_max)
    have "\<bar>quota\<bar> \<le> 2 ^ 100" using assms by simp
    then show "\<bar>rat_of_int quota\<bar> \<le> of_int (2 ^ 100)" by (metis of_int_abs of_int_le_iff)
  qed
  have "rat_of_int quota * x \<le> of_int quota" "0 \<le> rat_of_int quota * x"
    using assms x by (simp_all add: mult_left_le)
  then obtain r where r: "f64_of_rat (rat_of_int quota * x) = Fin r" "0 \<le> r" "r \<le> of_int quota"
    using f64_of_rat_between [OF round_rat_zero g _ b] b by fastforce
  then have "\<lfloor>r\<rfloor> \<le> quota" "0 \<le> \<lfloor>r\<rfloor>" by (simp_all add: floor_le_iff)
  moreover have "is_int64 t" if "0 \<le> t" "t \<le> quota" for t
    using that assms by (simp add: is_int64_def max_int64_def min_int64_def)
  ultimately show ?thesis using r(2) by (simp add: low_water_def q x(1) r(1))
qed

text \<open>When the files do not shrink, the loops delete every prunable event.\<close>

lemma prune_loop_no_shrink:
  assumes "\<And>k. low_water (quotaBytes s) \<le> size_or_zero (getTotalSize (os_Stat env k) (dbPath s)) + est"
    and "\<And>c i. call_err env s c i = None"
  shows "\<exists>d' k'. prune_loop env s est sev k d = PruneBreak d' k'"
  using assms
proof (induction env s est sev k d rule: prune_loop.induct)
  case (1 env s est sev k d)
  note IH = 1(1) [OF refl _ _ refl refl _ refl _ 1(2) 1(3)]
  show ?case
    using IH 1(2) [of "Suc k"] 1(3) by (subst prune_loop.simps) (simp add: Let_def)
qed

lemma prune_all_no_shrink:
  assumes sz: "\<And>k. low_water (quotaBytes s) \<le> size_or_zero (getTotalSize (os_Stat env k) (dbPath s)) + est"
    and call: "\<And>c i. call_err env s c i = None"
    and inv: "storage_inv d"
  shows "\<exists>d' k'. prune_all env s est sevs k d = PruneBreak d' k' \<and>
    (\<forall>r \<in> set (tbl_events d'). er_severity r \<notin> set sevs)"
  using inv
proof (induction sevs arbitrary: k d)
  case (Cons sev sevs)
  obtain d1 k1 where b: "prune_loop env s est sev k d = PruneBreak d1 k1"
    using prune_loop_no_shrink [OF sz call] by blast
  have inv1: "storage_inv d1" using prune_loop_post [OF Cons.prems, of sev env s est k] b by (simp add: loop_post_inv)
  from Cons.IH [OF inv1, of k1] obtain d2 k2 where
    a: "prune_all env s est sevs k1 d1 = PruneBreak d2 k2" "\<forall>r \<in> set (tbl_events d2). er_severity r \<notin> set sevs"
    by blast
  have "set (tbl_events d2) \<subseteq> set (tbl_events d1)"
    using prune_all_post [OF inv1, of sevs env s est k1] a(1) by (simp add: all_post_def pruned_def)
  then show ?case using a b prune_loop_break [OF b] by auto
qed auto

end
