(* ===== verification/Interfaces.thy ===== *)
theory Interfaces
  imports Events
begin

text \<open>
  The interface \<open>Storage\<close> of \<open>src/agent/internal/interfaces/interfaces.go\<close>: a record of the methods
  the forwarder and the ingestion engine call, over an abstract state and an abstract environment
  of a call, and the contract they rely on. The SQLite storage provides the contract
  (\<open>Storage_Correct\<close>); the clients use it.

  \<open>held s i\<close> says that the event with id \<open>i\<close> is durable: waiting to be sent or dead-lettered;
  \<open>prunable s i\<close> that the quota may discard it.
\<close>

record ('s, 'e) storage_ops =
  op_Init :: "'e \<Rightarrow> 's \<Rightarrow> 's \<times> go_error option"
  op_Store :: "'e \<Rightarrow> canonical_event \<Rightarrow> 's \<Rightarrow> 's \<times> canonical_event \<times> go_error option"
  op_GetPendingEvents :: "'e \<Rightarrow> int \<Rightarrow> 's \<Rightarrow> 's \<times> (go_error + canonical_event list)"
  op_RemoveEvent :: "'e \<Rightarrow> string \<Rightarrow> 's \<Rightarrow> 's \<times> go_error option"
  op_MarkFailed :: "'e \<Rightarrow> string \<Rightarrow> int \<Rightarrow> go_error \<Rightarrow> 's \<Rightarrow> 's \<times> go_error option"
  op_MoveToDLQ :: "'e \<Rightarrow> canonical_event \<Rightarrow> string \<Rightarrow> string \<Rightarrow> 's \<Rightarrow> 's \<times> go_error option"
  op_GetDeviceID :: "'s \<Rightarrow> string"
  op_Close :: "'s \<Rightarrow> 's"

locale storage_contract =
  fixes ops :: "('s, 'e) storage_ops"
    and inv :: "'s \<Rightarrow> bool"
    and env_ok :: "'e \<Rightarrow> bool"
    and held :: "'s \<Rightarrow> string \<Rightarrow> bool"
    and prunable :: "'s \<Rightarrow> string \<Rightarrow> bool"
  assumes Store_inv: "inv s \<Longrightarrow> env_ok e \<Longrightarrow> inv (fst (op_Store ops e ev s))"
    and Pending_inv: "inv s \<Longrightarrow> inv (fst (op_GetPendingEvents ops e n s))"
    and Remove_inv: "inv s \<Longrightarrow> inv (fst (op_RemoveEvent ops e i s))"
    and Mark_inv: "inv s \<Longrightarrow> inv (fst (op_MarkFailed ops e i ra er s))"
    and Move_inv: "inv s \<Longrightarrow> inv (fst (op_MoveToDLQ ops e ev ft fr s))"
    and Store_held: "op_Store ops e ev s = (s', ev', None) \<Longrightarrow> held s' (EventID ev)"
    and Store_event: "op_Store ops e ev s = (s', ev', err) \<Longrightarrow> EventID ev' = EventID ev"
    and Store_error: "op_Store ops e ev s = (s', ev', Some er) \<Longrightarrow>
      errors_Is er ErrStoreFailedBeforeCommit \<or> errors_Is er ErrStoreUncertain"
    and Store_keeps: "inv s \<Longrightarrow> env_ok e \<Longrightarrow> held s j \<Longrightarrow> \<not> prunable s j \<Longrightarrow>
      held (fst (op_Store ops e ev s)) j \<and> \<not> prunable (fst (op_Store ops e ev s)) j"
    and Pending_keeps: "held s j \<Longrightarrow> held (fst (op_GetPendingEvents ops e n s)) j"
    and Pending_prunable: "prunable (fst (op_GetPendingEvents ops e n s)) j \<Longrightarrow> prunable s j"
    and Remove_keeps: "held s j \<Longrightarrow> j \<noteq> i \<Longrightarrow> held (fst (op_RemoveEvent ops e i s)) j"
    and Remove_prunable: "prunable (fst (op_RemoveEvent ops e i s)) j \<Longrightarrow> prunable s j"
    and Mark_keeps: "held s j \<Longrightarrow> held (fst (op_MarkFailed ops e i ra er s)) j"
    and Mark_prunable: "prunable (fst (op_MarkFailed ops e i ra er s)) j \<Longrightarrow> prunable s j"
    and Move_keeps: "held s j \<Longrightarrow> held (fst (op_MoveToDLQ ops e ev ft fr s)) j"
    and Move_prunable: "prunable (fst (op_MoveToDLQ ops e ev ft fr s)) j \<Longrightarrow> prunable s j"
    and Move_held: "op_MoveToDLQ ops e ev ft fr s = (s', None) \<Longrightarrow> held s' (EventID ev)"

end
