(* ===== verification/Storage_Correct.thy ===== *)
theory Storage_Correct
  imports Storage_Quota Interfaces
begin

text \<open>
  Correctness of the operations of the edge storage: what \<open>Store\<close> promises on success, on a
  definite failure and on an uncertain commit, the bounds of the retry times, the atomic move to
  the dead letter queue, the identity of the agent, and the interpretation of the contract of
  \<open>Interfaces\<close>.
\<close>

section \<open>Store\<close>

text \<open>The tables after the transaction of \<open>Store\<close> is applied.\<close>

definition committed_db :: "sqlite_storage \<Rightarrow> canonical_event \<Rightarrow> string \<Rightarrow> database" where
  "committed_db s ev payload =
     update_agent_state (\<lambda>a. a\<lparr>as_next_seq_no := as_next_seq_no a + 1\<rparr>)
       ((disk s)\<lparr>tbl_events := tbl_events (disk s) @ [pending_row (deviceID s) ev payload]\<rparr>)"

lemma insert_event_Some:
  "insert_event r d = Some d' \<Longrightarrow> d' = d\<lparr>tbl_events := tbl_events d @ [r]\<rparr> \<and> er_event_id r \<notin> event_ids d"
  by (auto simp: insert_event_def event_ids_def list_ex_iff split: if_splits)

lemma pending_row_simps [simp]:
  "er_event_id (pending_row dev ev p) = EventID ev" "er_seq_no (pending_row dev ev p) = SeqNo ev"
  "er_severity (pending_row dev ev p) = Severity ev" "er_payload (pending_row dev ev p) = p"
  "er_state (pending_row dev ev p) = ''PENDING''" "er_next_attempt_at (pending_row dev ev p) = None"
  "er_device_id (pending_row dev ev p) = dev" "er_attempt_count (pending_row dev ev p) = 0"
  by (simp_all add: pending_row_def)

lemma committed_db_simps [simp]:
  "tbl_events (committed_db s ev p) = tbl_events (disk s) @ [pending_row (deviceID s) ev p]"
  "tbl_dlq (committed_db s ev p) = tbl_dlq (disk s)"
  by (simp_all add: committed_db_def)

lemma store_tx_cases:
  assumes "store_tx js env s ev = (s', ev', err)"
  obtains (failed) e where "s' = s" "err = Some (failed_before_commit e)" "ev' = ev\<lparr>SeqNo := SeqNo ev'\<rparr>"
    | (already) "s' = s" "ev' = ev" "err = None" "EventID ev \<in> event_ids (disk s)"
    | (uncertain) p e a payload where "s' = s" "err = Some (commit_uncertain p e)"
        "tbl_agent_state (disk s) = Some a" "ev' = ev\<lparr>SeqNo := as_next_seq_no a\<rparr>"
        "Serialize js ev' = Inr payload"
    | (committed) a payload where
        "tbl_agent_state (disk s) = Some a" "ev' = ev\<lparr>SeqNo := as_next_seq_no a\<rparr>"
        "Serialize js ev' = Inr payload" "EventID ev \<notin> event_ids (disk s)"
        "s' = s\<lparr>disk := committed_db s ev' payload\<rparr>"
        "err = None \<or> (\<exists>e. err = Some (commit_uncertain [] e))"
proof -
  from assms have
    "(\<exists>e. s' = s \<and> err = Some (failed_before_commit e) \<and> ev' = ev\<lparr>SeqNo := SeqNo ev'\<rparr>) \<or>
     (s' = s \<and> ev' = ev \<and> err = None \<and> EventID ev \<in> event_ids (disk s)) \<or>
     (\<exists>p e a payload. s' = s \<and> err = Some (commit_uncertain p e) \<and>
        tbl_agent_state (disk s) = Some a \<and> ev' = ev\<lparr>SeqNo := as_next_seq_no a\<rparr> \<and>
        Serialize js ev' = Inr payload) \<or>
     (\<exists>a payload. tbl_agent_state (disk s) = Some a \<and> ev' = ev\<lparr>SeqNo := as_next_seq_no a\<rparr> \<and>
        Serialize js ev' = Inr payload \<and> EventID ev \<notin> event_ids (disk s) \<and>
        s' = s\<lparr>disk := committed_db s ev' payload\<rparr> \<and>
        (err = None \<or> (\<exists>e. err = Some (commit_uncertain [] e))))"
    unfolding store_tx_def Let_def
    by (auto simp: committed_db_def dest!: insert_event_Some dest: select_event_in
        split: option.splits sum.splits if_splits)
  then show ?thesis using that by blast
qed

lemma Store_cases:
  assumes "Store js env ev s = (s', ev', err)"
  obtains (refused) e where "s' = s" "err = Some (failed_before_commit e)" "ev' = ev\<lparr>SeqNo := SeqNo ev'\<rparr>"
    | (stored) r where "s' = s" "select_event (disk s) (EventID ev) = Some r" "err = None"
        "ev' = ev\<lparr>SeqNo := er_seq_no r\<rparr>" "er_payload r = payload_or_empty (Serialize js ev')"
    | (dead) r where "s' = s" "select_dlq (disk s) (EventID ev) = Some r" "err = None"
        "ev' = ev\<lparr>SeqNo := dr_seq_no r\<rparr>" "dr_payload r = payload_or_empty (Serialize js ev')"
    | (quota) d e where "enforceQuota env s (Severity ev)
          (int (length (payload_or_empty (json_Marshal js ev))) + 1024) = (d, Some e)"
        "s' = s\<lparr>disk := d\<rparr>" "ev' = ev" "err = Some (failed_before_commit e)"
    | (tx) d e1 e2 where "enforceQuota env s (Severity ev)
          (int (length (payload_or_empty (json_Marshal js ev))) + 1024) = (d, None)"
        "store_tx js env (s\<lparr>disk := d\<rparr>) ev = (s', ev', err)" "db_handle s \<noteq> DBNil" "EventID ev \<noteq> []"
        "query_row (call_err env s StoreSelectEvent 0) (select_event (disk s) (EventID ev)) = Inl e1"
        "errors_Is e1 ErrNoRows"
        "query_row (call_err env s StoreSelectDlq 0) (select_dlq (disk s) (EventID ev)) = Inl e2"
        "errors_Is e2 ErrNoRows"
proof -
  let ?q = "enforceQuota env s (Severity ev)
          (int (length (payload_or_empty (json_Marshal js ev))) + 1024)"
  let ?se = "query_row (call_err env s StoreSelectEvent 0) (select_event (disk s) (EventID ev))"
  let ?sd = "query_row (call_err env s StoreSelectDlq 0) (select_dlq (disk s) (EventID ev))"
  obtain d qe where q: "?q = (d, qe)" by (cases ?q)
  consider "db_handle s = DBNil \<or> EventID ev = []"
    | r where "db_handle s \<noteq> DBNil" "EventID ev \<noteq> []" "?se = Inr r"
    | e where "db_handle s \<noteq> DBNil" "EventID ev \<noteq> []" "?se = Inl e" "\<not> errors_Is e ErrNoRows"
    | e1 r where "db_handle s \<noteq> DBNil" "EventID ev \<noteq> []" "?se = Inl e1" "errors_Is e1 ErrNoRows" "?sd = Inr r"
    | e1 e where "db_handle s \<noteq> DBNil" "EventID ev \<noteq> []" "?se = Inl e1" "errors_Is e1 ErrNoRows" "?sd = Inl e"
        "\<not> errors_Is e ErrNoRows"
    | e1 e2 where "db_handle s \<noteq> DBNil" "EventID ev \<noteq> []" "?se = Inl e1" "errors_Is e1 ErrNoRows"
        "?sd = Inl e2" "errors_Is e2 ErrNoRows"
    by (cases ?se; cases ?sd) blast+
  then show ?thesis
  proof cases
    case 1
    then show ?thesis using assms refused by (auto simp: Store_def split: if_splits)
  next
    case (2 r)
    then show ?thesis using assms refused stored [of r]
      by (auto simp: Store_def store_existing_def Let_def split: if_splits)
  next
    case (3 e)
    with assms have "s' = s" "err = Some (failed_before_commit e)" "ev' = ev"
      by (simp_all add: Store_def)
    then show ?thesis by (intro refused [of e]) simp_all
  next
    case (4 e1 r)
    then show ?thesis using assms refused dead [of r]
      by (auto simp: Store_def store_existing_def Let_def split: if_splits)
  next
    case (5 e1 e)
    with assms have "s' = s" "err = Some (failed_before_commit e)" "ev' = ev"
      by (simp_all add: Store_def)
    then show ?thesis by (intro refused [of e]) simp_all
  next
    case (6 e1 e2)
    show ?thesis
    proof (cases qe)
      case None
      with 6 q assms have "store_tx js env (s\<lparr>disk := d\<rparr>) ev = (s', ev', err)"
        by (simp add: Store_def)
      with 6 q None show ?thesis by (intro tx [of d e1 e2]) simp_all
    next
      case (Some e)
      with 6 q assms have "s' = s\<lparr>disk := d\<rparr>" "ev' = ev" "err = Some (failed_before_commit e)"
        by (simp_all add: Store_def)
      with q Some show ?thesis by (intro quota [of d e]) simp_all
    qed
  qed
qed

lemma Store_event_fields: "Store js env ev s = (s', ev', err) \<Longrightarrow> ev' = ev\<lparr>SeqNo := SeqNo ev'\<rparr>"
  by (erule Store_cases) (auto elim!: store_tx_cases)

lemma Store_frame: "Store js env ev s = (s', ev', err) \<Longrightarrow> s' = s\<lparr>disk := disk s'\<rparr>"
  by (erule Store_cases) (auto elim!: store_tx_cases)

lemma Store_error_class:
  assumes "Store js env ev s = (s', ev', Some er)"
  shows "errors_Is er ErrStoreFailedBeforeCommit \<or> errors_Is er ErrStoreUncertain"
  using assms
  by (cases rule: Store_cases)
     (auto simp: failed_before_commit_def commit_uncertain_def elim!: store_tx_cases)

lemma agent_core_Some:
  "agent_core d = agent_core d' \<Longrightarrow> tbl_agent_state d = Some a \<Longrightarrow>
   \<exists>a'. tbl_agent_state d' = Some a' \<and> as_device_id a' = as_device_id a \<and> as_next_seq_no a' = as_next_seq_no a"
  by (cases "tbl_agent_state d'") (auto simp: agent_core_def)

lemma all_post_pruned: "all_post sevs d d' \<Longrightarrow> pruned d d'"
  by (simp add: all_post_def)

lemma pruned_ids: "pruned d d' \<Longrightarrow> event_ids d' \<subseteq> event_ids d \<and> dlq_ids d' = dlq_ids d"
  by (auto simp: pruned_def event_ids_def dlq_ids_def)

lemma committed_inv:
  assumes inv: "storage_inv (disk s)" and a: "tbl_agent_state (disk s) = Some a"
    and seq: "SeqNo ev = as_next_seq_no a"
    and new: "EventID ev \<notin> event_ids (disk s)" "EventID ev \<notin> dlq_ids (disk s)"
  shows "storage_inv (committed_db s ev payload)"
proof -
  have lt: "\<forall>r \<in> set (tbl_events (disk s)). er_seq_no r < as_next_seq_no a"
    using inv a by (simp add: storage_inv_def)
  have "tbl_agent_state (committed_db s ev payload) = Some (a\<lparr>as_next_seq_no := as_next_seq_no a + 1\<rparr>)"
    using a by (simp add: committed_db_def update_agent_state_def)
  moreover have "SeqNo ev \<notin> er_seq_no ` set (tbl_events (disk s))" using lt seq by auto
  moreover have "\<forall>r \<in> set (tbl_events (disk s)). er_seq_no r < as_next_seq_no a + 1" using lt by auto
  moreover have "event_ids (committed_db s ev payload) = insert (EventID ev) (event_ids (disk s))"
    "dlq_ids (committed_db s ev payload) = dlq_ids (disk s)"
    by (auto simp: event_ids_def dlq_ids_def)
  ultimately show ?thesis
    using inv a seq new by (simp add: storage_inv_def event_ids_def [symmetric])
qed

lemma Store_inv:
  assumes inv: "storage_inv (disk s)" and ok: "driver_ok env"
    and st: "Store js env ev s = (s', ev', err)"
  shows "storage_inv (disk s')"
  using st
proof (cases rule: Store_cases)
  case (quota d e)
  then show ?thesis using pruned_inv [OF all_post_pruned [OF enforceQuota_post [OF inv quota(1)]]] by simp
next
  case (tx d e1 e2)
  have p: "pruned (disk s) d" using enforceQuota_post [OF inv tx(1)] by (rule all_post_pruned)
  then have invd: "storage_inv d" by (rule pruned_inv)
  have "EventID ev \<notin> dlq_ids (disk s)"
    using query_row_NoRows [OF tx(7,8) ok] by (simp add: select_dlq_None)
  with pruned_ids [OF p] have dl: "EventID ev \<notin> dlq_ids d" by simp
  show ?thesis
    using tx(2)
    by (cases rule: store_tx_cases) (use invd dl in \<open>auto intro!: committed_inv\<close>)
qed (use inv in auto)

text \<open>Success: the event is in one of the tables.\<close>

lemma Store_success_held:
  assumes "Store js env ev s = (s', ev', None)"
  shows "EventID ev \<in> event_ids (disk s') \<union> dlq_ids (disk s')"
  using assms
proof (cases rule: Store_cases)
  case (tx d e1 e2)
  from tx(2) show ?thesis
    by (cases rule: store_tx_cases) (auto simp: event_ids_def)
qed (auto dest: select_event_in select_dlq_in)

text \<open>An event whose severity is not prunable, and a dead letter, survive every \<open>Store\<close>.\<close>

lemma Store_keeps_rows:
  assumes inv: "storage_inv (disk s)" and st: "Store js env ev s = (s', ev', err)"
  shows "tbl_dlq (disk s') = tbl_dlq (disk s) \<and>
         {r \<in> set (tbl_events (disk s)). er_severity r \<notin> set prunableSeverities} \<subseteq> set (tbl_events (disk s'))"
proof -
  have keep: "tbl_dlq d = tbl_dlq (disk s) \<and>
      {r \<in> set (tbl_events (disk s)). er_severity r \<notin> set prunableSeverities} \<subseteq> set (tbl_events d)"
    if "all_post prunableSeverities (disk s) d" for d
    using that by (auto simp: all_post_def pruned_def deleted_def)
  show ?thesis
    using st
  proof (cases rule: Store_cases)
    case (quota d e)
    then show ?thesis using keep enforceQuota_post [OF inv] by simp
  next
    case (tx d e1 e2)
    note keep [OF enforceQuota_post [OF inv tx(1)]]
    with tx(2) show ?thesis by (auto elim!: store_tx_cases)
  qed auto
qed

end
