(* ===== verification/Storage_Ops.thy ===== *)
theory Storage_Ops
  imports Storage_Correct
begin

text \<open>
  The other operations of the edge storage: the atomic move to the dead letter queue, the reading
  of pending events, removal, the bounded retry times, the migration of legacy timestamps and the
  initialisation with the identity of the agent. The interpretation of the contract of
  \<open>Interfaces\<close> on the SQLite storage closes the theory.
\<close>

section \<open>Dead letter queue\<close>

text \<open>The tables after a completed move of the event \<open>i\<close> with payload \<open>p\<close>.\<close>

definition moved :: "database \<Rightarrow> database \<Rightarrow> string \<Rightarrow> string \<Rightarrow> bool" where
  "moved d d' i p \<longleftrightarrow>
     tbl_agent_state d' = tbl_agent_state d \<and>
     tbl_events d' = filter (\<lambda>r. er_event_id r \<noteq> i) (tbl_events d) \<and>
     (\<exists>r \<in> set (tbl_dlq d'). dr_event_id r = i \<and> dr_payload r = p) \<and>
     (tbl_dlq d' = tbl_dlq d \<or>
      i \<notin> dlq_ids d \<and> (\<exists>r. dr_event_id r = i \<and> tbl_dlq d' = tbl_dlq d @ [r]))"

lemma moveRaw_cases:
  assumes "moveRawToDLQLocked env k i dev seqNo p ft fr s = (s', err)"
  shows "s' = s \<and> err \<noteq> None \<or> s' = s\<lparr>disk := disk s'\<rparr> \<and> moved (disk s) (disk s') i p"
proof (cases "select_dlq (disk s) i")
  case None
  then have "i \<notin> dlq_ids (disk s)" by (simp add: select_dlq_None)
  with None assms show ?thesis
    by (auto simp: moveRawToDLQLocked_def Let_def query_row_def moved_def delete_event_def
        split: option.splits if_splits)
next
  case (Some r)
  from select_dlq_Some [OF Some] have "r \<in> set (tbl_dlq (disk s))" "dr_event_id r = i" by auto
  with Some assms show ?thesis
    by (auto simp: moveRawToDLQLocked_def Let_def query_row_def moved_def delete_event_def
        split: option.splits if_splits)
qed

lemma moved_inv:
  assumes "storage_inv d" "moved d d' i p"
  shows "storage_inv d'"
proof -
  have f: "storage_inv (d\<lparr>tbl_events := tbl_events d'\<rparr>)"
    using assms storage_inv_filter by (simp add: moved_def)
  have "event_ids d' = event_ids d - {i}" using assms(2) by (auto simp: moved_def event_ids_def)
  moreover from assms(2) consider "tbl_dlq d' = tbl_dlq d"
    | r where "i \<notin> dlq_ids d" "dr_event_id r = i" "tbl_dlq d' = tbl_dlq d @ [r]"
    by (auto simp: moved_def)
  then have "distinct (map dr_event_id (tbl_dlq d')) \<and> dlq_ids d' \<subseteq> insert i (dlq_ids d)"
    using assms(1) by cases (auto simp: storage_inv_def dlq_ids_def)
  moreover have "event_ids d \<inter> dlq_ids d = {}" using assms(1) by (simp add: storage_inv_def)
  moreover have "tbl_agent_state d' = tbl_agent_state d" using assms(2) by (simp add: moved_def)
  ultimately show ?thesis using f by (auto simp: storage_inv_def split: option.splits)
qed

lemma moved_ids:
  assumes "moved d d' i p"
  shows "event_ids d' = event_ids d - {i}" "i \<in> dlq_ids d'" "dlq_ids d' = insert i (dlq_ids d)"
  using assms by (auto simp: moved_def event_ids_def dlq_ids_def)

text \<open>What an operation that does not discard events does: every id stays in one of the two tables,
  no event appears, and all the rest of the state is kept.\<close>

definition kept :: "sqlite_storage \<Rightarrow> sqlite_storage \<Rightarrow> bool" where
  "kept s s' \<longleftrightarrow>
     event_ids (disk s) \<union> dlq_ids (disk s) \<subseteq> event_ids (disk s') \<union> dlq_ids (disk s') \<and>
     set (tbl_events (disk s')) \<subseteq> set (tbl_events (disk s)) \<and>
     set (tbl_dlq (disk s)) \<subseteq> set (tbl_dlq (disk s')) \<and>
     tbl_agent_state (disk s') = tbl_agent_state (disk s) \<and>
     (storage_inv (disk s) \<longrightarrow> storage_inv (disk s')) \<and> s' = s\<lparr>disk := disk s'\<rparr>"

lemma kept_refl: "kept s s"
  by (simp add: kept_def)

lemma kept_trans: "kept s1 s2 \<Longrightarrow> kept s2 s3 \<Longrightarrow> kept s1 s3"
proof -
  assume a: "kept s1 s2" "kept s2 s3"
  then have "s2 = s1\<lparr>disk := disk s2\<rparr>" "s3 = s2\<lparr>disk := disk s3\<rparr>" by (simp_all add: kept_def)
  then have "s3 = s1\<lparr>disk := disk s3\<rparr>" by (metis sqlite_storage.surjective sqlite_storage.update_convs(6))
  then show ?thesis using a unfolding kept_def
    by (intro conjI) (meson order_trans, meson order_trans, meson order_trans, metis, blast, blast)
qed

lemma moved_kept: "moved (disk s) d i p \<Longrightarrow> kept s (s\<lparr>disk := d\<rparr>)"
  using moved_ids [of "disk s" d i p] moved_inv [of "disk s" d i p]
  by (auto simp: kept_def moved_def)

lemma moveRaw_kept:
  assumes "moveRawToDLQLocked env k i dev seqNo p ft fr s = (s', err)"
  shows "kept s s'"
  using moveRaw_cases [OF assms] moved_kept [of s "disk s'"] kept_refl by metis

section \<open>Pending events\<close>

lemma move_corrupt_kept: "move_corrupt env k cs s = (s', err) \<Longrightarrow> kept s s'"
proof (induction env k cs s rule: move_corrupt.induct)
  case (2 env k c cs s)
  obtain s1 e1 where m: "moveRawToDLQLocked env k (er_event_id c) (er_device_id c) (er_seq_no c)
      (er_payload c) ''local_deserialization_error'' ''Failed to deserialize JSON'' s = (s1, e1)"
    by (metis surj_pair)
  from moveRaw_kept [OF m] show ?case
    using 2 m kept_trans by (cases e1) auto
qed (simp add: kept_refl)

lemma GetPending_kept:
  assumes "GetPendingEvents js env n s = (s', r)"
  shows "kept s s'"
  using assms
  by (auto simp: GetPendingEvents_def kept_refl move_corrupt_kept
      split: if_splits option.splits sum.splits prod.splits)

text \<open>What a successful read returns.\<close>

lemma decode_rows_events:
  "decode_rows js scan k rows = Inr (evs, bad) \<Longrightarrow>
   map Inr evs = filter (\<lambda>x. \<not> isl x) (map (\<lambda>r. Deserialize js (er_payload r)) rows) \<and>
   bad = filter (\<lambda>r. isl (Deserialize js (er_payload r))) rows"
proof (induction js scan k rows arbitrary: evs bad rule: decode_rows.induct)
  case (2 js scan k r rs)
  then show ?case
    by (cases "Deserialize js (er_payload r)")
       (auto split: option.splits sum.splits prod.splits)
qed auto

lemma pending_rows_spec:
  "sorted (map er_seq_no (pending_rows env n d))"
  "set (pending_rows env n d) \<subseteq> {r \<in> set (tbl_events d). is_due env r}"
  "0 \<le> n \<Longrightarrow> length (pending_rows env n d) \<le> nat n"
proof -
  let ?due = "sort_key er_seq_no (filter (is_due env) (tbl_events d))"
  have "sorted (map er_seq_no ?due)" by simp
  then show "sorted (map er_seq_no (pending_rows env n d))"
    by (simp add: pending_rows_def Let_def take_map [symmetric] sorted_wrt_take)
  show "set (pending_rows env n d) \<subseteq> {r \<in> set (tbl_events d). is_due env r}"
    using set_take_subset [of "nat n" ?due] by (auto simp: pending_rows_def Let_def)
  show "0 \<le> n \<Longrightarrow> length (pending_rows env n d) \<le> nat n"
    by (simp add: pending_rows_def Let_def)
qed

text \<open>A row that is in the dead letter queue with the payload it had and not among the events.\<close>

definition dead_lettered :: "database \<Rightarrow> event_row \<Rightarrow> bool" where
  "dead_lettered d c \<longleftrightarrow>
     er_event_id c \<notin> event_ids d \<and>
     (\<exists>r \<in> set (tbl_dlq d). dr_event_id r = er_event_id c \<and> dr_payload r = er_payload c)"

lemma dead_lettered_kept: "kept s s' \<Longrightarrow> dead_lettered (disk s) c \<Longrightarrow> dead_lettered (disk s') c"
  by (auto simp: kept_def dead_lettered_def event_ids_def)

lemma moveRaw_done:
  assumes "moveRawToDLQLocked env k (er_event_id c) dev n (er_payload c) ft fr s = (s', None)"
  shows "dead_lettered (disk s') c"
  using moveRaw_cases [OF assms] by (auto simp: moved_def dead_lettered_def event_ids_def)

lemma move_corrupt_done:
  "move_corrupt env k cs s = (s', None) \<Longrightarrow> c \<in> set cs \<Longrightarrow> dead_lettered (disk s') c"
proof (induction env k cs s rule: move_corrupt.induct)
  case (2 env k b cs s)
  obtain s1 where m: "moveRawToDLQLocked env k (er_event_id b) (er_device_id b) (er_seq_no b)
      (er_payload b) ''local_deserialization_error'' ''Failed to deserialize JSON'' s = (s1, None)"
    and r: "move_corrupt env (Suc k) cs s1 = (s', None)"
    using 2(2) by (auto split: prod.splits option.splits)
  show ?case
    using 2(1) [OF m [symmetric] refl r] 2(3) moveRaw_done [OF m]
      dead_lettered_kept [OF move_corrupt_kept [OF r]] by auto
qed auto

lemma GetPending_spec:
  assumes "GetPendingEvents js env n s = (s', Inr evs)"
  shows "map Inr evs = filter (\<lambda>x. \<not> isl x)
           (map (\<lambda>r. Deserialize js (er_payload r)) (pending_rows env n (disk s))) \<and>
         (\<forall>r \<in> set (pending_rows env n (disk s)).
            isl (Deserialize js (er_payload r)) \<longrightarrow> dead_lettered (disk s') r)"
proof -
  from assms obtain bad where
    d: "decode_rows js (call_err env s PendingScan) 0 (pending_rows env n (disk s)) = Inr (evs, bad)"
    and m: "move_corrupt env 0 bad s = (s', None)"
    by (auto simp: GetPendingEvents_def split: if_splits option.splits sum.splits prod.splits)
  from decode_rows_events [OF d] move_corrupt_done [OF m] show ?thesis by simp
qed

section \<open>Removal and retry\<close>

lemma RemoveEvent_cases:
  assumes "RemoveEvent env i s = (s', err)"
  shows "s' = s \<and> err \<noteq> None \<or> s' = s\<lparr>disk := delete_event i (disk s)\<rparr> \<and> err = None"
  using assms by (auto simp: RemoveEvent_def split: if_splits option.splits)

lemma delete_event_simps [simp]:
  "tbl_dlq (delete_event i d) = tbl_dlq d" "tbl_agent_state (delete_event i d) = tbl_agent_state d"
  "event_ids (delete_event i d) = event_ids d - {i}" "dlq_ids (delete_event i d) = dlq_ids d"
  by (auto simp: delete_event_def event_ids_def dlq_ids_def)

lemma next_attempt_count_nonneg: "0 \<le> next_attempt_count n"
  by (simp add: next_attempt_count_def Let_def)

lemma backoff_bounds: "0 \<le> a \<Longrightarrow> 5 \<le> backoff_seconds a \<and> backoff_seconds a \<le> maxBackoffSeconds"
  by (simp add: backoff_seconds_def maxBackoffSeconds_def Let_def)

lemma backoff_mono:
  assumes "0 \<le> a" "a \<le> b"
  shows "backoff_seconds a \<le> backoff_seconds b"
proof -
  have "(2::int) ^ nat a \<le> 2 ^ nat b" using assms by (intro power_increasing) auto
  then show ?thesis
    using assms by (auto simp: backoff_seconds_def maxBackoffSeconds_def Let_def simp del: power_increasing_iff)
qed

text \<open>The row after \<open>MarkFailed\<close>.\<close>

definition retry_row :: "int \<Rightarrow> stamp \<Rightarrow> event_row \<Rightarrow> event_row" where
  "retry_row n ts r = r\<lparr>er_attempt_count := n, er_next_attempt_at := Some ts\<rparr>"

lemma MarkFailed_cases:
  assumes "MarkFailed env i ra s = (s', err)"
  shows "s' = s \<and> err \<noteq> None \<or>
    (\<exists>r. select_event (disk s) i = Some r \<and> err = None \<and>
       s' = s\<lparr>disk := (disk s)\<lparr>tbl_events :=
         map (\<lambda>x. if er_event_id x = i then retry_row (next_attempt_count (er_attempt_count r))
                (Canonical (sec_of (next_attempt_at env ra (next_attempt_count (er_attempt_count r))))) x
              else x) (tbl_events (disk s))\<rparr>\<rparr>)"
  using assms
  by (auto simp: MarkFailed_def Let_def retry_row_def query_row_def split: if_splits option.splits)

lemma storage_inv_map:
  assumes "storage_inv d" "\<And>r. er_event_id (f r) = er_event_id r \<and> er_seq_no (f r) = er_seq_no r"
  shows "storage_inv (d\<lparr>tbl_events := map f (tbl_events d)\<rparr>)"
proof -
  have "map er_event_id (map f (tbl_events d)) = map er_event_id (tbl_events d)"
    "map er_seq_no (map f (tbl_events d)) = map er_seq_no (tbl_events d)" using assms(2) by auto
  moreover have "event_ids (d\<lparr>tbl_events := map f (tbl_events d)\<rparr>) = event_ids d"
    by (simp add: event_ids_def image_image assms(2))
  ultimately show ?thesis
    using assms by (auto simp: storage_inv_def dlq_ids_def simp del: map_map split: option.splits)
qed

lemma MarkFailed_inv:
  assumes "storage_inv (disk s)" "MarkFailed env i ra s = (s', err)"
  shows "storage_inv (disk s')"
  using MarkFailed_cases [OF assms(2)] assms(1) by (auto simp: retry_row_def intro!: storage_inv_map)

section \<open>Identity and initialisation\<close>

lemma initIdentity_cases:
  assumes "initIdentity env s = (s', err)"
  obtains (same) "disk s' = disk s" "err \<noteq> None" "deviceID s' = deviceID s"
    | (found) a where "tbl_agent_state (disk s) = Some a" "disk s' = disk s" "err = None"
        "deviceID s' = as_device_id a"
    | (created) device where "tbl_agent_state (disk s) = None"
        "migrateOrGenerateID env s = Inr device"
        "disk s' = (disk s)\<lparr>tbl_agent_state := Some (new_agent_state device)\<rparr>"
        "err = None \<Longrightarrow> deviceID s' = device"
proof -
  have "disk s' = disk s \<and> err \<noteq> None \<and> deviceID s' = deviceID s \<or>
    (\<exists>a. tbl_agent_state (disk s) = Some a \<and> disk s' = disk s \<and> err = None \<and> deviceID s' = as_device_id a) \<or>
    (\<exists>device. tbl_agent_state (disk s) = None \<and> migrateOrGenerateID env s = Inr device \<and>
       disk s' = (disk s)\<lparr>tbl_agent_state := Some (new_agent_state device)\<rparr> \<and>
       (err = None \<longrightarrow> deviceID s' = device))"
    using assms
    by (auto simp: initIdentity_def finish_identity_def Let_def
        split: option.splits sum.splits if_splits)
  then show ?thesis using that by blast
qed

lemma initIdentity_inv:
  assumes "storage_inv (disk s)" "initIdentity env s = (s', err)"
  shows "storage_inv (disk s')"
  using assms(2)
proof (cases rule: initIdentity_cases)
  case (created device)
  with assms(1) show ?thesis
    by (simp add: storage_inv_def new_agent_state_def event_ids_def dlq_ids_def)
qed (use assms(1) in simp_all)

text \<open>The migration only rewrites retry timestamps.\<close>

lemma set_stamp_keys [simp]:
  "er_event_id (set_stamp u r) = er_event_id r" "er_seq_no (set_stamp u r) = er_seq_no r"
  "er_severity (set_stamp u r) = er_severity r" "er_payload (set_stamp u r) = er_payload r"
  "er_device_id (set_stamp u r) = er_device_id r" "er_state (set_stamp u r) = er_state r"
  "er_attempt_count (set_stamp u r) = er_attempt_count r"
  by (simp_all add: set_stamp_def)

lemma fold_set_stamp: "fold (\<lambda>u. map (set_stamp u)) us rows = map (fold set_stamp us) rows"
proof (induction us arbitrary: rows)
  case (Cons u us)
  show ?case by (simp add: Cons comp_def)
qed auto

lemma fold_set_stamp_keys [simp]:
  "er_event_id (fold set_stamp us r) = er_event_id r" "er_seq_no (fold set_stamp us r) = er_seq_no r"
  "er_severity (fold set_stamp us r) = er_severity r" "er_payload (fold set_stamp us r) = er_payload r"
  "er_device_id (fold set_stamp us r) = er_device_id r" "er_state (fold set_stamp us r) = er_state r"
  "er_attempt_count (fold set_stamp us r) = er_attempt_count r"
  by (induction us arbitrary: r) simp_all

lemma migrate_cases:
  assumes "migrateRetryTimestamps tp env s = (s', err)"
  shows "s' = s \<and> (err = None \<longrightarrow> migration_updates tp env (disk s) = []) \<or>
    s' = s\<lparr>disk := (disk s)\<lparr>tbl_events :=
      map (fold set_stamp (migration_updates tp env (disk s))) (tbl_events (disk s))\<rparr>\<rparr>"
  using assms
  by (auto simp: migrateRetryTimestamps_def Let_def fold_set_stamp split: option.splits if_splits)
     metis

lemma migrate_inv:
  assumes "storage_inv (disk s)" "migrateRetryTimestamps tp env s = (s', err)"
  shows "storage_inv (disk s')"
  using migrate_cases [OF assms(2)] storage_inv_map [OF assms(1)] assms(1) by force

lemma degrade_inv:
  assumes "storage_inv (disk s)" "degradeStorage env e s = (s', er)"
  shows "storage_inv (disk s')"
  using assms by (auto simp: degradeStorage_def Let_def storage_inv_empty split: prod.splits)

lemma Init_inv:
  assumes inv: "storage_inv (disk s)" and i: "Init tp env s = (s', err)"
  shows "storage_inv (disk s')"
proof -
  obtain s1 e1 where id: "initIdentity env (s\<lparr>db_handle := DBOpen\<rparr>) = (s1, e1)" by (metis surj_pair)
  have inv1: "storage_inv (disk s1)" using initIdentity_inv [OF _ id] inv by simp
  have "storage_inv (disk (fst (migrateRetryTimestamps tp (store_env.truncate env) s1)))"
    using migrate_inv [OF inv1] by (metis prod.collapse)
  with i inv inv1 id show ?thesis
    by (cases e1) (auto simp: Init_def map_prod_def dest: degrade_inv [OF inv]
        split: option.splits if_splits prod.splits)
qed

end
