(* ===== verification/Storage_Theorems.thy ===== *)
theory Storage_Theorems
  imports Storage_Ops
begin

text \<open>
  The properties of the edge storage, and its interpretation as the \<open>Storage\<close> interface. The
  states are those a sequence of operations and restarts can reach, whatever the driver, the file
  system and the clock answer.
\<close>

section \<open>Reachable states\<close>

inductive storage_step :: "codec \<Rightarrow> (string \<Rightarrow> string \<Rightarrow> go_time option) \<Rightarrow>
    sqlite_storage \<Rightarrow> sqlite_storage \<Rightarrow> bool" for js tp where
  step_Init: "storage_step js tp s (fst (Init tp ienv s))"
| step_Store: "driver_ok env \<Longrightarrow> storage_step js tp s (fst (Store js env ev s))"
| step_GetPendingEvents: "storage_step js tp s (fst (GetPendingEvents js env n s))"
| step_RemoveEvent: "storage_step js tp s (fst (RemoveEvent env i s))"
| step_MarkFailed: "storage_step js tp s (fst (MarkFailed env i ra s))"
| step_MoveToDLQ: "storage_step js tp s (fst (MoveToDLQ js env ev ft fr s))"
| step_Close: "storage_step js tp s (Close s)"
| step_restart: "storage_step js tp s
    (NewSQLiteStorage p q n (disk s) (corrupt_backup s) (identity_file s))"

inductive storage_reach :: "codec \<Rightarrow> (string \<Rightarrow> string \<Rightarrow> go_time option) \<Rightarrow>
    sqlite_storage \<Rightarrow> bool" for js tp where
  reach_new: "storage_reach js tp (NewSQLiteStorage p q n empty_database b f)"
| reach_step: "storage_reach js tp s \<Longrightarrow> storage_step js tp s s' \<Longrightarrow> storage_reach js tp s'"

lemma MoveToDLQ_kept: "kept s (fst (MoveToDLQ js env ev ft fr s))"
  by (auto simp: MoveToDLQ_def kept_refl split: sum.splits)
     (metis moveRaw_kept prod.collapse)

lemma GetPending_kept_fst: "kept s (fst (GetPendingEvents js env n s))"
  by (metis GetPending_kept prod.collapse)

lemma kept_inv: "kept s s' \<Longrightarrow> storage_inv (disk s) \<Longrightarrow> storage_inv (disk s')"
  by (simp add: kept_def)

lemma Remove_inv_fst: "storage_inv (disk s) \<Longrightarrow> storage_inv (disk (fst (RemoveEvent env i s)))"
  using RemoveEvent_cases [of env i s] storage_inv_delete by (metis prod.collapse sqlite_storage.select_convs(6) sqlite_storage.surjective sqlite_storage.update_convs(6))

lemma Store_inv_fst:
  "storage_inv (disk s) \<Longrightarrow> driver_ok env \<Longrightarrow> storage_inv (disk (fst (Store js env ev s)))"
  by (metis Store_inv prod.collapse)

lemma Init_inv_fst: "storage_inv (disk s) \<Longrightarrow> storage_inv (disk (fst (Init tp env s)))"
  by (metis Init_inv prod.collapse)

lemma MarkFailed_inv_fst: "storage_inv (disk s) \<Longrightarrow> storage_inv (disk (fst (MarkFailed env i ra s)))"
  by (metis MarkFailed_inv prod.collapse)

lemmas op_inv = Init_inv_fst Store_inv_fst Remove_inv_fst MarkFailed_inv_fst
  kept_inv [OF MoveToDLQ_kept] kept_inv [OF GetPending_kept_fst]

lemma storage_step_inv: "storage_step js tp s s' \<Longrightarrow> storage_inv (disk s) \<Longrightarrow> storage_inv (disk s')"
  by (induction rule: storage_step.induct) (auto simp: op_inv Close_def NewSQLiteStorage_def)

lemma storage_reach_inv: "storage_reach js tp s \<Longrightarrow> storage_inv (disk s)"
  by (induction rule: storage_reach.induct)
     (auto simp: storage_step_inv NewSQLiteStorage_def storage_inv_empty)

section \<open>Store\<close>

lemma find_append: "find P (xs @ ys) = (case find P xs of None \<Rightarrow> find P ys | Some x \<Rightarrow> Some x)"
  by (induction xs) auto

lemma select_committed:
  "EventID ev \<notin> event_ids (disk s) \<Longrightarrow>
   select_event (committed_db s ev p) (EventID ev) = Some (pending_row (deviceID s) ev p)"
  using select_event_None [of "disk s" "EventID ev"]
  by (simp add: select_event_def find_append)

lemma Store_found:
  assumes "EventID ev \<noteq> []" "db_handle s \<noteq> DBNil" "call_err env s StoreSelectEvent 0 = None"
    "select_event (disk s) (EventID ev) = Some r"
    "er_payload r = payload_or_empty (Serialize js (ev\<lparr>SeqNo := er_seq_no r\<rparr>))"
  shows "Store js env ev s = (s, ev\<lparr>SeqNo := er_seq_no r\<rparr>, None)"
  using assms by (simp add: Store_def store_existing_def)

lemma Store_found_dead:
  assumes "EventID ev \<noteq> []" "db_handle s \<noteq> DBNil" "call_err env s StoreSelectEvent 0 = None"
    "call_err env s StoreSelectDlq 0 = None"
    "select_event (disk s) (EventID ev) = None" "select_dlq (disk s) (EventID ev) = Some r"
    "dr_payload r = payload_or_empty (Serialize js (ev\<lparr>SeqNo := dr_seq_no r\<rparr>))"
  shows "Store js env ev s = (s, ev\<lparr>SeqNo := dr_seq_no r\<rparr>, None)"
  using assms by (simp add: Store_def store_existing_def query_row_def)

text \<open>The cases of \<open>Store\<close> for a storage that satisfies the invariant and a driver that reports
  no false \<open>sql.ErrNoRows\<close>.\<close>

lemma Store_new_cases:
  assumes inv: "storage_inv (disk s)" and ok: "driver_ok env"
    and st: "Store js env ev s = (s', ev', err)"
    and new: "EventID ev \<notin> event_ids (disk s) \<union> dlq_ids (disk s)"
  obtains (failed) d e where "pruned (disk s) d" "s' = s\<lparr>disk := d\<rparr>" "err = Some (failed_before_commit e)"
    | (uncertain) d p e a payload where "pruned (disk s) d" "s' = s\<lparr>disk := d\<rparr>"
        "err = Some (commit_uncertain p e)" "tbl_agent_state d = Some a"
        "ev' = ev\<lparr>SeqNo := as_next_seq_no a\<rparr>" "Serialize js ev' = Inr payload"
    | (committed) d a payload where "enforceQuota env s (Severity ev)
          (int (length (payload_or_empty (json_Marshal js ev))) + 1024) = (d, None)"
        "pruned (disk s) d" "tbl_agent_state d = Some a"
        "ev' = ev\<lparr>SeqNo := as_next_seq_no a\<rparr>" "Serialize js ev' = Inr payload"
        "s' = s\<lparr>disk := committed_db (s\<lparr>disk := d\<rparr>) ev' payload\<rparr>" "EventID ev \<notin> event_ids d"
        "err = None \<or> (\<exists>e. err = Some (commit_uncertain [] e))"
  using st
proof (cases rule: Store_cases)
  case (refused e)
  then show ?thesis using failed [of "disk s"] inv by (simp add: pruned_refl)
next
  case (stored r)
  then show ?thesis using new by (auto dest: select_event_in)
next
  case (dead r)
  then show ?thesis using new by (auto dest: select_dlq_in)
next
  case (quota d e)
  then show ?thesis using failed all_post_pruned [OF enforceQuota_post [OF inv]] by blast
next
  case (tx d e1 e2)
  have p: "pruned (disk s) d" using all_post_pruned [OF enforceQuota_post [OF inv tx(1)]] .
  then have n: "EventID ev \<notin> event_ids d" using pruned_ids new by blast
  from tx(2) show ?thesis
  proof (cases rule: store_tx_cases)
    case (failed e)
    then show ?thesis using that(1) p by blast
  next
    case already
    then show ?thesis using n by simp
  next
    case (uncertain pr e a payload)
    then show ?thesis using that(2) p by simp
  next
    case (committed a payload)
    then show ?thesis using that(3) p n tx(1) by simp
  qed
qed

lemma pruned_agent_Some:
  "pruned d d' \<Longrightarrow> tbl_agent_state d' = Some a' \<Longrightarrow>
   \<exists>a. tbl_agent_state d = Some a \<and> as_device_id a = as_device_id a' \<and> as_next_seq_no a = as_next_seq_no a'"
  by (cases "tbl_agent_state d") (auto simp: pruned_def agent_core_def)

lemma agent_core_committed:
  "tbl_agent_state (disk s) = Some a \<Longrightarrow>
   agent_core (committed_db s ev p) = Some (as_device_id a, as_next_seq_no a + 1)"
  by (simp add: agent_core_def committed_db_def update_agent_state_def)

text \<open>The events that were there and are kept are those the quota kept.\<close>

lemma Store_kept_events:
  assumes inv: "storage_inv (disk s)" and st: "Store js env ev s = (s', ev', err)"
  shows "\<exists>d. all_post prunableSeverities (disk s) d \<and> set (tbl_events d) \<subseteq> set (tbl_events (disk s')) \<and>
    set (tbl_events (disk s)) \<inter> set (tbl_events (disk s')) \<subseteq> set (tbl_events d)"
proof -
  have refl: "all_post prunableSeverities (disk s) (disk s)"
    using inv by (simp add: all_post_def pruned_refl deleted_def)
  from st show ?thesis
  proof (cases rule: Store_cases)
    case (quota d e)
    then show ?thesis using enforceQuota_post [OF inv quota(1)] by (intro exI [of _ d]) simp
  next
    case (tx d e1 e2)
    note post = enforceQuota_post [OF inv tx(1)]
    from tx(2) show ?thesis
    proof (cases rule: store_tx_cases)
      case (committed a payload)
      from pruned_agent_Some [OF all_post_pruned [OF post], of a] committed(1) obtain a0
        where "tbl_agent_state (disk s) = Some a0" "as_next_seq_no a0 = as_next_seq_no a" by auto
      with inv committed(2) have "er_seq_no x \<noteq> SeqNo ev'" if "x \<in> set (tbl_events (disk s))" for x
        using that by (auto simp: storage_inv_def)
      then have "pending_row (deviceID s) ev' payload \<notin> set (tbl_events (disk s))" by fastforce
      then show ?thesis using post committed(5) by (intro exI [of _ d]) auto
    qed (use post in auto)
  qed (use refl in auto)
qed

section \<open>Witness data\<close>

text \<open>A codec, an environment without faults and a storage with a fresh identity.\<close>

definition demo_codec :: codec where
  "demo_codec =
     \<lparr>json_Marshal = (\<lambda>e. Inr (EventID e @ dec_int (SeqNo e))),
      json_Unmarshal = (\<lambda>p. if p = [] then Inl (errors_New ''unexpected end of JSON input'')
                            else Inr (sample_event\<lparr>EventID := p\<rparr>))\<rparr>"

definition demo_env :: store_env where
  "demo_env =
     \<lparr>fault = (\<lambda>_ _. None), commit_applied = (\<lambda>_ _. True), testFaultInjectCommit = None,
      os_Stat = (\<lambda>_ _. Inr 0), env_now = 1000 * second, env_now_jitter = unix_epoch,
      sql_datetime = (\<lambda>_. None)\<rparr>"

definition demo_store :: sqlite_storage where
  "demo_store =
     (NewSQLiteStorage ''agent.db'' [] 1000000
        (empty_database\<lparr>tbl_agent_state := Some (new_agent_state ''device'')\<rparr>) False False)
     \<lparr>db_handle := DBOpen, deviceID := ''device''\<rparr>"

lemma demo_driver_ok: "driver_ok demo_env"
  by (simp add: driver_ok_def demo_env_def)

lemma demo_store_inv: "storage_inv (disk demo_store)"
  by (simp add: demo_store_def NewSQLiteStorage_def storage_inv_def empty_database_def
      new_agent_state_def event_ids_def dlq_ids_def)

definition demo_store1 :: sqlite_storage where
  "demo_store1 = fst (Store demo_codec demo_env sample_event demo_store)"

lemma demo_Store: "Store demo_codec demo_env sample_event demo_store = (demo_store1, sample_event, None)"
proof -
  obtain ev' err where st: "Store demo_codec demo_env sample_event demo_store = (demo_store1, ev', err)"
    by (metis demo_store1_def prod.collapse)
  have "snd (snd (Store demo_codec demo_env sample_event demo_store)) = None" by code_simp
  moreover have "SeqNo (fst (snd (Store demo_codec demo_env sample_event demo_store))) = SeqNo sample_event"
    by code_simp
  ultimately show ?thesis using Store_event_fields [OF st] st by simp
qed

lemma demo_store1_inv: "storage_inv (disk demo_store1)"
  using Store_inv [OF demo_store_inv demo_driver_ok demo_Store] .

section \<open>Properties\<close>

text \<open>
  C8. Whatever sequence of operations and restarts led there, and whatever errors the driver
  reported: event ids and sequence numbers are unique in the tables, no event is both waiting and
  dead-lettered, every stored sequence number is below the next one to be assigned, and the total
  of dropped events is the sum of the counters per severity.
\<close>

theorem storage_reach_invariant: "storage_reach js tp s \<Longrightarrow> storage_inv (disk s)"
  by (rule storage_reach_inv)

theorem storage_reach_invariant_witness:
  "storage_reach demo_codec (\<lambda>_ _. None)
     (fst (RemoveEvent demo_env ''e'' (NewSQLiteStorage ''agent.db'' [] 10 empty_database False False))) \<and>
   storage_inv (disk (fst (RemoveEvent demo_env ''e''
     (NewSQLiteStorage ''agent.db'' [] 10 empty_database False False))))"
proof -
  have r: "storage_reach demo_codec (\<lambda>_ _. None)
     (fst (RemoveEvent demo_env ''e'' (NewSQLiteStorage ''agent.db'' [] 10 empty_database False False)))"
    by (rule reach_step [OF reach_new step_RemoveEvent])
  then show ?thesis using storage_reach_invariant [OF r] by simp
qed

text \<open>
  A new event that \<open>Store\<close> accepts gets the next sequence number of the agent, is in the table
  in state PENDING with its serialised form as payload, and the next sequence number grows by one.
\<close>

theorem Store_assigns_sequence:
  assumes "storage_inv (disk s)" "driver_ok env"
    "EventID ev \<notin> event_ids (disk s) \<union> dlq_ids (disk s)"
    "Store js env ev s = (s', ev', None)"
  shows "\<exists>a payload. tbl_agent_state (disk s) = Some a \<and> ev' = ev\<lparr>SeqNo := as_next_seq_no a\<rparr> \<and>
    Serialize js ev' = Inr payload \<and>
    pending_row (deviceID s) ev' payload \<in> set (tbl_events (disk s')) \<and>
    agent_core (disk s') = Some (as_device_id a, as_next_seq_no a + 1)"
  using assms(1,2,4,3)
proof (cases rule: Store_new_cases)
  case (committed d a payload)
  from pruned_agent_Some [OF committed(2,3)] committed show ?thesis
    by (auto simp: agent_core_committed)
qed simp_all

theorem Store_assigns_sequence_witness:
  "\<exists>a payload. tbl_agent_state (disk demo_store) = Some a \<and>
    sample_event = sample_event\<lparr>SeqNo := as_next_seq_no a\<rparr> \<and>
    Serialize demo_codec sample_event = Inr payload \<and>
    pending_row (deviceID demo_store) sample_event payload \<in> set (tbl_events (disk demo_store1)) \<and>
    agent_core (disk demo_store1) = Some (as_device_id a, as_next_seq_no a + 1)"
proof (rule Store_assigns_sequence [OF demo_store_inv demo_driver_ok _ demo_Store])
  show "EventID sample_event \<notin> event_ids (disk demo_store) \<union> dlq_ids (disk demo_store)"
    by code_simp
qed

lemma Store_again:
  assumes inv: "storage_inv (disk s)" and ok: "driver_ok env"
    and st: "Store js env ev s = (s1, ev1, None)"
    and sel: "call_err env2 s1 StoreSelectEvent 0 = None" "call_err env2 s1 StoreSelectDlq 0 = None"
  shows "Store js env2 (ev\<lparr>SeqNo := n\<rparr>) s1 = (s1, ev1, None)"
proof -
  have h: "db_handle s1 \<noteq> DBNil" "EventID (ev\<lparr>SeqNo := n\<rparr>) \<noteq> []"
    using st Store_frame [OF st] by (auto simp: Store_def split: if_splits) (metis sqlite_storage.select_convs(4) sqlite_storage.surjective sqlite_storage.update_convs(6))
  have dis: "event_ids (disk s1) \<inter> dlq_ids (disk s1) = {}"
    using Store_inv [OF inv ok st] by (simp add: storage_inv_def)
  show ?thesis
  proof (cases "EventID ev \<in> event_ids (disk s) \<union> dlq_ids (disk s)")
    case True
    from st show ?thesis
    proof (cases rule: Store_cases)
      case (stored r)
      then show ?thesis using Store_found [OF h(2,1) sel(1), of r js] by simp
    next
      case (dead r)
      then have "select_event (disk s1) (EventID ev) = None"
        using dis select_dlq_in [of "disk s" "EventID ev" r] by (auto simp: select_event_None)
      then show ?thesis using dead Store_found_dead [OF h(2,1) sel, of r js] by simp
    next
      case (tx d e1 e2)
      then show ?thesis
        using True query_row_NoRows [OF tx(5,6) ok] query_row_NoRows [OF tx(7,8) ok]
        by (simp add: select_event_None select_dlq_None)
    qed simp_all
  next
    case False
    from inv ok st False show ?thesis
    proof (cases rule: Store_new_cases)
      case (committed d a payload)
      let ?r = "pending_row (deviceID s) ev1 payload"
      have "select_event (disk s1) (EventID ev) = Some ?r"
        using select_committed [of ev1 "s\<lparr>disk := d\<rparr>" payload] committed by simp
      then show ?thesis
        using Store_found [OF h(2,1) sel(1), of ?r js] committed by (simp add: payload_or_empty_def)
    qed simp_all
  qed
qed

text \<open>
  C11. \<open>Store\<close> is idempotent: once an event was stored, storing it again, with whatever sequence
  number the caller left in it, succeeds with the sequence number of the first call and changes nothing, whatever the sizes of the files and whatever
  the other statements would report; in particular no other event is pruned.
\<close>

theorem Store_idempotent:
  assumes inv: "storage_inv (disk s)" and ok: "driver_ok env"
    and st: "Store js env ev s = (s1, ev1, None)"
    and sel: "call_err env2 s1 StoreSelectEvent 0 = None" "call_err env2 s1 StoreSelectDlq 0 = None"
  shows "Store js env2 (ev\<lparr>SeqNo := n\<rparr>) s1 = (s1, ev1, None)"
  by (rule Store_again [OF assms])

theorem Store_idempotent_witness:
  "Store demo_codec demo_env (sample_event\<lparr>SeqNo := 7\<rparr>) demo_store1 = (demo_store1, sample_event, None)"
proof (rule Store_idempotent [OF demo_store_inv demo_driver_ok demo_Store])
  show "call_err demo_env demo_store1 StoreSelectEvent 0 = None" by code_simp
  show "call_err demo_env demo_store1 StoreSelectDlq 0 = None" by code_simp
qed

text \<open>A transaction without faults is applied.\<close>

definition fault_free :: "store_env \<Rightarrow> bool" where
  "fault_free env \<longleftrightarrow> (\<forall>c i. fault env c i = None) \<and> testFaultInjectCommit env = None"

lemma fault_free_driver_ok: "fault_free env \<Longrightarrow> driver_ok env"
  by (simp add: fault_free_def driver_ok_def)

lemma fault_free_call: "fault_free env \<Longrightarrow> db_handle s = DBOpen \<Longrightarrow> call_err env s c i = None"
  by (simp add: fault_free_def call_err_def)

lemma insert_event_fresh:
  assumes "storage_inv d" "tbl_agent_state d = Some a" "er_seq_no r = as_next_seq_no a"
    "er_event_id r \<notin> event_ids d"
  shows "insert_event r d = Some (d\<lparr>tbl_events := tbl_events d @ [r]\<rparr>)"
proof -
  have "er_seq_no x \<noteq> er_seq_no r" if "x \<in> set (tbl_events d)" for x
    using assms that by (auto simp: storage_inv_def)
  moreover have "er_event_id x \<noteq> er_event_id r" if "x \<in> set (tbl_events d)" for x
    using assms(4) that by (metis event_ids_def imageI)
  ultimately show ?thesis by (auto simp: insert_event_def list_ex_iff)
qed

lemma store_tx_applied:
  assumes ff: "fault_free env" "db_handle s = DBOpen" and inv: "storage_inv (disk s)"
    and a: "tbl_agent_state (disk s) = Some a" and ev1: "ev1 = ev\<lparr>SeqNo := as_next_seq_no a\<rparr>"
    and ser: "Serialize js ev1 = Inr payload" and new: "EventID ev \<notin> event_ids (disk s)"
  shows "store_tx js env s ev = (s\<lparr>disk := committed_db s ev1 payload\<rparr>, ev1, None)"
proof -
  have "select_event (disk s) (EventID ev) = None" using new by (simp add: select_event_None)
  moreover have "insert_event (pending_row (deviceID s) ev1 payload) (disk s) =
      Some ((disk s)\<lparr>tbl_events := tbl_events (disk s) @ [pending_row (deviceID s) ev1 payload]\<rparr>)"
    using insert_event_fresh [OF inv a] ev1 new by simp
  ultimately show ?thesis
    using ser a ff(1) fault_free_call [OF ff]
    by (simp add: store_tx_def query_row_def ev1 [symmetric] committed_db_def fault_free_def)
qed

lemma committed_one_row:
  assumes "EventID ev \<notin> event_ids (disk s)"
  shows "length (filter (\<lambda>r. er_event_id r = EventID ev) (tbl_events (committed_db s ev p))) = 1"
proof -
  have "filter (\<lambda>r. er_event_id r = EventID ev) (tbl_events (disk s)) = []"
    using assms by (force simp: filter_empty_conv event_ids_def)
  then show ?thesis by simp
qed

text \<open>
  C12. An uncertain commit is recovered by a retry: when \<open>Store\<close> of a new event fails otherwise than
  definitely before the commit, then storing the event again without faults (the quota admitting it)
  succeeds with the same event, and there is exactly one row for it, whether or not the first
  commit had been applied.
\<close>

theorem Store_uncertain_retry:
  assumes inv: "storage_inv (disk s)" and ok: "driver_ok env"
    and new: "EventID ev \<notin> event_ids (disk s) \<union> dlq_ids (disk s)"
    and st: "Store js env ev s = (s1, ev1, Some er)"
    and unc: "\<not> errors_Is er ErrStoreFailedBeforeCommit"
    and ff: "fault_free env2" "db_handle s1 = DBOpen" and id: "EventID ev \<noteq> []"
    and q: "snd (enforceQuota env2 s1 (Severity ev)
      (int (length (payload_or_empty (json_Marshal js ev1))) + 1024)) = None"
  shows "\<exists>s2. Store js env2 ev1 s1 = (s2, ev1, None) \<and>
    length (filter (\<lambda>r. er_event_id r = EventID ev) (tbl_events (disk s2))) = 1"
proof -
  note call = fault_free_call [OF ff]
  obtain n where "ev1 = ev\<lparr>SeqNo := n\<rparr>" by (rule that [OF Store_event_fields [OF st]])
  then have id1: "EventID ev1 = EventID ev" "Severity ev1 = Severity ev" by simp_all
  have h: "EventID ev1 \<noteq> []" "db_handle s1 \<noteq> DBNil" using id id1 ff(2) by simp_all
  from inv ok st new show ?thesis
  proof (cases rule: Store_new_cases)
    case (failed d e)
    then show ?thesis using unc by (simp add: failed_before_commit_def)
  next
    case (uncertain d p e a payload)
    have invd: "storage_inv d" using uncertain(1) by (rule pruned_inv)
    have newd: "EventID ev \<notin> event_ids d \<union> dlq_ids d" using new pruned_ids [OF uncertain(1)] by blast
    let ?est = "int (length (payload_or_empty (json_Marshal js ev1))) + 1024"
    obtain d2 where eq: "enforceQuota env2 s1 (Severity ev) ?est = (d2, None)"
      using q by (metis prod.collapse)
    have "storage_inv (disk s1)" using invd uncertain(2) by simp
    from all_post_pruned [OF enforceQuota_post [OF this eq]] have p2: "pruned d d2"
      by (simp add: uncertain(2))
    then have "agent_core d = agent_core d2" by (simp add: pruned_def)
    from agent_core_Some [OF this uncertain(4)] obtain a2
      where a2: "tbl_agent_state d2 = Some a2" "as_next_seq_no a2 = as_next_seq_no a" by blast
    have new2: "EventID ev1 \<notin> event_ids d2" using newd pruned_ids [OF p2] by (auto simp: id1)
    have e1: "ev1 = ev1\<lparr>SeqNo := as_next_seq_no a2\<rparr>" by (simp add: uncertain(5) a2(2))
    have "store_tx js env2 (s1\<lparr>disk := d2\<rparr>) ev1 =
        (s1\<lparr>disk := d2, disk := committed_db (s1\<lparr>disk := d2\<rparr>) ev1 payload\<rparr>, ev1, None)"
      by (rule store_tx_applied [OF ff(1) _ _ _ e1 uncertain(6)])
         (use ff(2) pruned_inv [OF p2] a2(1) new2 in simp_all)
    moreover have "select_event (disk s1) (EventID ev1) = None" "select_dlq (disk s1) (EventID ev1) = None"
      using newd id1 uncertain(2) by (simp_all add: select_event_None select_dlq_None)
    ultimately have "Store js env2 ev1 s1 =
        (s1\<lparr>disk := committed_db (s1\<lparr>disk := d2\<rparr>) ev1 payload\<rparr>, ev1, None)"
      using h eq id1 by (simp add: Store_def query_row_def call)
    then show ?thesis using committed_one_row [of ev1 "s1\<lparr>disk := d2\<rparr>" payload] new2 id1 by simp
  next
    case (committed d a payload)
    let ?s = "s\<lparr>disk := d\<rparr>" and ?r = "pending_row (deviceID s) ev1 payload"
    have "select_event (disk s1) (EventID ev1) = Some ?r"
      using select_committed [of ev1 ?s payload] committed id1 by simp
    then have "Store js env2 ev1 s1 = (s1, ev1\<lparr>SeqNo := SeqNo ev1\<rparr>, None)"
      using Store_found [OF h call, of ?r js] committed(5) by (simp add: payload_or_empty_def)
    then show ?thesis using committed_one_row [of ev1 ?s payload] committed id1 by simp
  qed
qed

text \<open>The commit fails and is not applied.\<close>

definition demo_env_commit :: store_env where
  "demo_env_commit = demo_env
     \<lparr>fault := (\<lambda>c i. if c = StoreCommit then Some (errors_New ''I/O error'') else None),
      commit_applied := (\<lambda>_ _. False)\<rparr>"

theorem Store_uncertain_retry_witness:
  "\<exists>s2. Store demo_codec demo_env sample_event
       (fst (Store demo_codec demo_env_commit sample_event demo_store)) = (s2, sample_event, None) \<and>
    length (filter (\<lambda>r. er_event_id r = EventID sample_event) (tbl_events (disk s2))) = 1"
proof -
  let ?st = "Store demo_codec demo_env_commit sample_event demo_store"
  have ok: "driver_ok demo_env_commit" by (simp add: driver_ok_def demo_env_commit_def)
  have err: "snd (snd ?st) = Some (commit_uncertain [] (errors_New ''I/O error''))" by code_simp
  have sq: "SeqNo (fst (snd ?st)) = SeqNo sample_event" by code_simp
  have st: "?st = (fst ?st, sample_event, Some (commit_uncertain [] (errors_New ''I/O error'')))"
    using Store_event_fields [of demo_codec demo_env_commit sample_event demo_store "fst ?st" "fst (snd ?st)" "snd (snd ?st)"]
      err sq by (metis canonical_event.surjective canonical_event.update_convs(8) prod.collapse)
  show ?thesis
  proof (rule Store_uncertain_retry [OF demo_store_inv ok _ st])
    show "EventID sample_event \<notin> event_ids (disk demo_store) \<union> dlq_ids (disk demo_store)" by code_simp
    show "\<not> errors_Is (commit_uncertain [] (errors_New ''I/O error'')) ErrStoreFailedBeforeCommit" by code_simp
    show "fault_free demo_env" by (simp add: fault_free_def demo_env_def)
    show "db_handle (fst ?st) = DBOpen" by code_simp
    show "EventID sample_event \<noteq> []" by code_simp
    show "snd (enforceQuota demo_env (fst ?st) (Severity sample_event)
      (int (length (payload_or_empty (json_Marshal demo_codec sample_event))) + 1024)) = None" by code_simp
  qed
qed

text \<open>
  A definite failure stores nothing: when \<open>Store\<close> reports an error other than an uncertain
  commit, no row was added to any table, the dead letters, the identity and the next sequence
  number are unchanged, and the only difference can be pruned events.
\<close>

theorem Store_failed_stores_nothing:
  assumes inv: "storage_inv (disk s)" and st: "Store js env ev s = (s', ev', Some er)"
    and drv: "\<not> errors_Is er ErrStoreUncertain"
  shows "tbl_dlq (disk s') = tbl_dlq (disk s) \<and> agent_core (disk s') = agent_core (disk s) \<and>
    set (tbl_events (disk s')) \<subseteq> set (tbl_events (disk s))"
  using st
proof (cases rule: Store_cases)
  case (quota d e)
  then show ?thesis using all_post_pruned [OF enforceQuota_post [OF inv quota(1)]] by (simp add: pruned_def)
next
  case (tx d e1 e2)
  have p: "pruned (disk s) d" by (rule all_post_pruned [OF enforceQuota_post [OF inv tx(1)]])
  from tx(2) show ?thesis
    by (cases rule: store_tx_cases) (use p drv in \<open>auto simp: pruned_def commit_uncertain_def\<close>)
qed simp_all

theorem Store_failed_stores_nothing_witness:
  "tbl_dlq (disk (fst (Store demo_codec demo_env zero_event demo_store1))) = tbl_dlq (disk demo_store1) \<and>
   agent_core (disk (fst (Store demo_codec demo_env zero_event demo_store1))) = agent_core (disk demo_store1) \<and>
   set (tbl_events (disk (fst (Store demo_codec demo_env zero_event demo_store1)))) \<subseteq>
     set (tbl_events (disk demo_store1))"
proof -
  have st: "Store demo_codec demo_env zero_event demo_store1 =
      (demo_store1, zero_event, Some (failed_before_commit (errors_New ''event_id must not be empty'')))"
  proof -
    have "db_handle demo_store1 = DBOpen" by code_simp
    then show ?thesis by (simp add: Store_def zero_event_def)
  qed
  have "\<not> errors_Is (failed_before_commit (errors_New ''event_id must not be empty'')) ErrStoreUncertain"
    by code_simp
  from Store_failed_stores_nothing [OF demo_store1_inv st this] show ?thesis by (simp add: st)
qed

text \<open>
  C13. What the quota deletes during a \<open>Store\<close>: only events of severity DEBUG, INFO or WARNING, and in
  the order of severity, then of sequence number; no event is deleted while an event that comes
  before it in this order is kept. CRITICAL and FATAL events are never deleted.
\<close>

theorem Store_prune_order:
  assumes inv: "storage_inv (disk s)" and st: "Store js env ev s = (s', ev', err)"
    and r: "r \<in> set (tbl_events (disk s))" "r \<notin> set (tbl_events (disk s'))"
  shows "er_severity r \<in> {''DEBUG'', ''INFO'', ''WARNING''} \<and>
    (\<forall>r' \<in> set (tbl_events (disk s)) \<inter> set (tbl_events (disk s')).
       er_severity r' \<in> {''DEBUG'', ''INFO'', ''WARNING''} \<longrightarrow> prune_le [''DEBUG'', ''INFO'', ''WARNING''] r r')"
proof -
  obtain d where post: "all_post prunableSeverities (disk s) d"
    and sub: "set (tbl_events d) \<subseteq> set (tbl_events (disk s'))"
      "set (tbl_events (disk s)) \<inter> set (tbl_events (disk s')) \<subseteq> set (tbl_events d)"
    using inv st Store_kept_events by blast
  from post sub r have "er_severity r \<in> set prunableSeverities \<and>
    (\<forall>r' \<in> set (tbl_events (disk s)) \<inter> set (tbl_events (disk s')).
       er_severity r' \<in> set prunableSeverities \<longrightarrow> prune_le prunableSeverities r r')"
    unfolding all_post_def deleted_def by blast
  then show ?thesis by (simp add: prunableSeverities_def)
qed

lemma enforceQuota_exhausted:
  assumes inv: "storage_inv (disk s)" and ff: "fault_free env" "db_handle s = DBOpen"
    and sz: "\<And>k f. os_Stat env k f = os_Stat env 0 f"
    and total: "getTotalSize (os_Stat env 0) (dbPath s) = Inr n" "quotaBytes s \<le> n + est"
    and quota: "0 \<le> quotaBytes s" "quotaBytes s \<le> 2 ^ 53"
    and q: "enforceQuota env s sev est = (d', err)"
  shows "filter (\<lambda>r. er_severity r \<in> {''DEBUG'', ''INFO'', ''WARNING''}) (tbl_events d') = [] \<and>
    err = (if is_critical sev then None else Some storage_emergency)"
proof -
  note call = fault_free_call [OF ff]
  have st: "os_Stat env k = os_Stat env 0" for k using sz by (rule ext)
  have "low_water (quotaBytes s) \<le> size_or_zero (getTotalSize (os_Stat env k) (dbPath s)) + est" for k
    using low_water_le [OF quota] total by (simp add: st [of k] size_or_zero_def)
  from prune_all_no_shrink [OF this call inv, of prunableSeverities 0] obtain d1 k1 where
    p: "prune_all env s est prunableSeverities 0 (disk s) = PruneBreak d1 k1"
      "\<forall>r \<in> set (tbl_events d1). er_severity r \<notin> set prunableSeverities" by blast
  have "enforceQuota env s sev est =
      (update_agent_state (\<lambda>a. a\<lparr>as_storage_pressure_state := Some ''EMERGENCY'',
         as_last_pressure_at := Some (sec_of (env_now env))\<rparr>) d1,
       if is_critical sev then None else Some storage_emergency)"
    using total p(1) by (simp add: enforceQuota_def Let_def st [of "Suc k1"] size_or_zero_def call)
  with q p(2) show ?thesis by (auto simp: filter_empty_conv prunableSeverities_def)
qed


text \<open>A storage whose quota is exhausted, holding one INFO event.\<close>

definition demo_full :: sqlite_storage where
  "demo_full = demo_store1\<lparr>quotaBytes := 0\<rparr>"

lemma demo_full_inv: "storage_inv (disk demo_full)"
  using demo_store1_inv by (simp add: demo_full_def)

lemma demo_fault_free: "fault_free demo_env"
  by (simp add: fault_free_def demo_env_def)


lemma demo_full_quota:
  "\<exists>d. enforceQuota demo_env demo_full ''INFO'' 1026 = (d, Some storage_emergency) \<and> tbl_events d = []"
proof -
  obtain d err where q: "enforceQuota demo_env demo_full ''INFO'' 1026 = (d, err)" by (metis surj_pair)
  have b: "db_handle demo_full = DBOpen" by code_simp
  have c: "os_Stat demo_env k f = os_Stat demo_env 0 f" for k f by (simp add: demo_env_def)
  have t: "getTotalSize (os_Stat demo_env 0) (dbPath demo_full) = Inr 0" by code_simp
  have n: "quotaBytes demo_full = 0" by (simp add: demo_full_def)
  have "list_all (\<lambda>r. er_severity r = ''INFO'') (tbl_events (disk demo_full))" by code_simp
  moreover have "set (tbl_events d) \<subseteq> set (tbl_events (disk demo_full))"
    using all_post_pruned [OF enforceQuota_post [OF demo_full_inv q]] by (simp add: pruned_def)
  ultimately have "list_all (\<lambda>r. er_severity r = ''INFO'') (tbl_events d)"
    by (auto simp: list_all_iff)
  then show ?thesis
    using enforceQuota_exhausted [OF demo_full_inv demo_fault_free b c t _ _ _ q] q
    by (auto simp: n is_critical_def filter_empty_conv list_all_iff)
qed

lemma demo_full_Store:
  "\<exists>d. Store demo_codec demo_env (sample_event\<lparr>EventID := ''b''\<rparr>) demo_full =
     (demo_full\<lparr>disk := d\<rparr>, sample_event\<lparr>EventID := ''b''\<rparr>,
      Some (failed_before_commit storage_emergency)) \<and> tbl_events d = []"
proof -
  obtain d where d: "enforceQuota demo_env demo_full ''INFO'' 1026 = (d, Some storage_emergency)"
    "tbl_events d = []" using demo_full_quota by blast
  have "select_event (disk demo_full) ''b'' = None" "select_dlq (disk demo_full) ''b'' = None"
    "db_handle demo_full = DBOpen" by code_simp+
  moreover have "int (length (payload_or_empty (json_Marshal demo_codec (sample_event\<lparr>EventID := ''b''\<rparr>)))) + 1024 = 1026"
    by code_simp
  moreover have "Severity sample_event = ''INFO''" by code_simp
  ultimately show ?thesis
    using d fault_free_call [OF demo_fault_free, of demo_full]
    by (intro exI [of _ d]) (simp add: Store_def query_row_def)
qed

theorem Store_prune_order_witness:
  "\<exists>r \<in> set (tbl_events (disk demo_full)).
     r \<notin> set (tbl_events (disk (fst (Store demo_codec demo_env (sample_event\<lparr>EventID := ''b''\<rparr>) demo_full)))) \<and>
     er_severity r \<in> {''DEBUG'', ''INFO'', ''WARNING''}"
proof -
  obtain d where d: "Store demo_codec demo_env (sample_event\<lparr>EventID := ''b''\<rparr>) demo_full =
     (demo_full\<lparr>disk := d\<rparr>, sample_event\<lparr>EventID := ''b''\<rparr>,
      Some (failed_before_commit storage_emergency))" "tbl_events d = []"
    using demo_full_Store by blast
  have "tbl_events (disk demo_full) \<noteq> []" by code_simp
  then obtain r where r: "r \<in> set (tbl_events (disk demo_full))" by (cases "tbl_events (disk demo_full)") auto
  have "r \<notin> set (tbl_events (disk (demo_full\<lparr>disk := d\<rparr>)))" using d(2) by simp
  from Store_prune_order [OF demo_full_inv d(1) r this] this r show ?thesis by (auto simp: d(1))
qed

text \<open>
  The drop counters account for every event: when \<open>Store\<close> of a new event succeeds, the total of
  dropped events plus the number of waiting events has grown by exactly one.
\<close>

theorem Store_accounts_drops:
  assumes "storage_inv (disk s)" "driver_ok env"
    "EventID ev \<notin> event_ids (disk s) \<union> dlq_ids (disk s)"
    "Store js env ev s = (s', ev', None)"
  shows "\<exists>n. accounted (disk s) = Some n \<and> accounted (disk s') = Some (n + 1)"
  using assms(1,2,4,3)
proof (cases rule: Store_new_cases)
  case (committed d a payload)
  have "accounted (disk s) = accounted d" using enforceQuota_accounted [OF committed(1)] by simp
  then show ?thesis
    using committed(3,6) by (simp add: accounted_def committed_db_def update_agent_state_def)
qed simp_all

theorem Store_accounts_drops_witness:
  "\<exists>n. accounted (disk demo_store) = Some n \<and> accounted (disk demo_store1) = Some (n + 1)"
proof (rule Store_accounts_drops [OF demo_store_inv demo_driver_ok _ demo_Store])
  show "EventID sample_event \<notin> event_ids (disk demo_store) \<union> dlq_ids (disk demo_store)" by code_simp
qed

text \<open>
  C14. The move to the dead letter queue is atomic: afterwards either nothing has changed, or the
  event is gone from the waiting events and in the dead letter queue with its payload; success
  means the latter. Every event that was in one of the tables still is.
\<close>

theorem MoveToDLQ_atomic:
  assumes "MoveToDLQ js env ev ft fr s = (s', err)"
  shows "(disk s' = disk s \<and> err \<noteq> None \<or>
     (\<exists>payload. Serialize js ev = Inr payload \<and> moved (disk s) (disk s') (EventID ev) payload)) \<and>
    event_ids (disk s) \<union> dlq_ids (disk s) \<subseteq> event_ids (disk s') \<union> dlq_ids (disk s')"
proof -
  have "event_ids (disk s) \<union> dlq_ids (disk s) \<subseteq> event_ids (disk s') \<union> dlq_ids (disk s')"
    using MoveToDLQ_kept [of s js env ev ft fr] assms by (simp add: kept_def)
  moreover have "disk s' = disk s \<and> err \<noteq> None \<or>
     (\<exists>payload. Serialize js ev = Inr payload \<and> moved (disk s) (disk s') (EventID ev) payload)"
    using assms by (auto simp: MoveToDLQ_def split: sum.splits dest!: moveRaw_cases)
  ultimately show ?thesis by blast
qed

theorem MoveToDLQ_atomic_witness:
  "snd (MoveToDLQ demo_codec demo_env sample_event ''http_400'' ''bad'' demo_store1) = None \<and>
   EventID sample_event \<in> dlq_ids (disk (fst (MoveToDLQ demo_codec demo_env sample_event ''http_400'' ''bad'' demo_store1)))"
proof -
  let ?m = "MoveToDLQ demo_codec demo_env sample_event ''http_400'' ''bad'' demo_store1"
  have n: "snd ?m = None" by code_simp
  then have "?m = (fst ?m, None)" by (metis prod.collapse)
  from MoveToDLQ_atomic [OF this] n show ?thesis using moved_ids(2) by blast
qed



lemma sec_of_add: "sec_of (t + k * second) = sec_of t + k"
  by (simp add: sec_of_def second_def)

lemma jitter_bounds:
  assumes "unix_epoch \<le> env_now_jitter env" "is_int64 (env_now_jitter env - unix_epoch)"
  shows "0 \<le> jitter_seconds env \<and> jitter_seconds env \<le> 9"
  using go_mod_bounds [of "env_now_jitter env - unix_epoch" 10] assms
  by (simp add: jitter_seconds_def UnixNano_def wrap64_id)

lemma sec_of_next_attempt:
  "sec_of (next_attempt_at env ra n) = sec_of (env_now env) +
     (if 0 < ra then min ra maxRetryAfterSeconds else backoff_seconds n + jitter_seconds env)"
proof -
  have "sec_of (env_now env + (backoff_seconds n * second + jitter_seconds env * second)) =
      sec_of (env_now env) + (backoff_seconds n + jitter_seconds env)"
    using sec_of_add [of "env_now env" "backoff_seconds n + jitter_seconds env"]
    by (simp add: distrib_right)
  then show ?thesis by (simp add: next_attempt_at_def sec_of_add)
qed

lemma MarkFailed_wait:
  assumes m: "MarkFailed env i ra s = (s', None)"
    and clock: "unix_epoch \<le> env_now_jitter env" "is_int64 (env_now_jitter env - unix_epoch)"
    and r: "r \<in> set (tbl_events (disk s'))" "er_event_id r = i"
  shows "\<exists>t. er_next_attempt_at r = Some (Canonical t) \<and>
    (if 0 < ra then t = sec_of (env_now env) + min ra 86400
     else sec_of (env_now env) + 5 \<le> t \<and> t \<le> sec_of (env_now env) + 3609)"
proof -
  define upd where "upd q = retry_row (next_attempt_count q)
    (Canonical (sec_of (next_attempt_at env ra (next_attempt_count q))))" for q
  from MarkFailed_cases [OF m] obtain q where
    "tbl_events (disk s') = map (\<lambda>x. if er_event_id x = i then upd q x else x) (tbl_events (disk s))"
    unfolding upd_def by force
  with r obtain x where "r = upd q x" by (auto split: if_splits)
  then have q: "er_next_attempt_at r =
      Some (Canonical (sec_of (next_attempt_at env ra (next_attempt_count q))))"
    by (simp add: upd_def retry_row_def)
  show ?thesis
    using q jitter_bounds [OF clock] backoff_bounds [OF next_attempt_count_nonneg, of q]
    by (simp add: sec_of_next_attempt maxBackoffSeconds_def maxRetryAfterSeconds_def)
qed

text \<open>
  The retry time of a failed event is bounded: without a positive Retry-After the wait is at
  least 5 and at most 3609 seconds, whatever number of attempts the row holds (the shift cannot
  overflow); with one it is the Retry-After capped at a day.
\<close>

theorem MarkFailed_wait_bounds:
  assumes m: "MarkFailed env i ra s = (s', None)"
    and clock: "unix_epoch \<le> env_now_jitter env" "is_int64 (env_now_jitter env - unix_epoch)"
    and r: "r \<in> set (tbl_events (disk s'))" "er_event_id r = i"
  shows "\<exists>t. er_next_attempt_at r = Some (Canonical t) \<and>
    (if 0 < ra then t = sec_of (env_now env) + min ra 86400
     else sec_of (env_now env) + 5 \<le> t \<and> t \<le> sec_of (env_now env) + 3609)"
  by (rule MarkFailed_wait [OF assms])

theorem MarkFailed_wait_bounds_witness:
  "\<exists>t. er_next_attempt_at (hd (tbl_events (disk (fst (MarkFailed demo_env (EventID sample_event) 0 demo_store1))))) =
      Some (Canonical t) \<and> sec_of (env_now demo_env) + 5 \<le> t \<and> t \<le> sec_of (env_now demo_env) + 3609"
proof -
  let ?m = "MarkFailed demo_env (EventID sample_event) 0 demo_store1"
  let ?r = "hd (tbl_events (disk (fst ?m)))"
  have "snd ?m = None" by code_simp
  then have m: "?m = (fst ?m, None)" by (metis prod.collapse)
  have "tbl_events (disk (fst ?m)) \<noteq> []" by code_simp
  then have r: "?r \<in> set (tbl_events (disk (fst ?m)))" by simp
  have i: "er_event_id ?r = EventID sample_event" by code_simp
  have c: "unix_epoch \<le> env_now_jitter demo_env" "is_int64 (env_now_jitter demo_env - unix_epoch)"
    by code_simp+
  from MarkFailed_wait_bounds [OF m c r i] show ?thesis by simp
qed

lemma rename_all_moved: "fst (rename_all ren i xs True)"
  by (induction xs arbitrary: i) (auto split: rename_result.splits)

lemma degrade_agent:
  assumes "degradeStorage env e s = (s', er)"
  shows "(disk s' = disk s \<or> corrupt_backup s') \<and> (corrupt_backup s \<longrightarrow> corrupt_backup s')"
  using assms rename_all_moved [of "os_Rename env" 1 "[''WAL'', ''SHM'']"]
  by (auto simp: degradeStorage_def Let_def split: prod.splits if_splits)

lemma initIdentity_backup: "corrupt_backup (fst (initIdentity env s)) = corrupt_backup s"
  by (auto simp: initIdentity_def finish_identity_def Let_def split: option.splits sum.splits)

lemma migrate_agent:
  "tbl_agent_state (disk (fst (migrateRetryTimestamps tp env s))) = tbl_agent_state (disk s)"
  "corrupt_backup (fst (migrateRetryTimestamps tp env s)) = corrupt_backup s"
  "tbl_dlq (disk (fst (migrateRetryTimestamps tp env s))) = tbl_dlq (disk s)"
proof -
  obtain s' err where m: "migrateRetryTimestamps tp env s = (s', err)" by (metis surj_pair)
  from migrate_cases [OF m]
  show "tbl_agent_state (disk (fst (migrateRetryTimestamps tp env s))) = tbl_agent_state (disk s)"
    "corrupt_backup (fst (migrateRetryTimestamps tp env s)) = corrupt_backup s"
    "tbl_dlq (disk (fst (migrateRetryTimestamps tp env s))) = tbl_dlq (disk s)"
    by (auto simp: m)
qed

text \<open>What a step may do to the row of the agent.\<close>

definition agent_kept :: "sqlite_storage \<Rightarrow> sqlite_storage \<Rightarrow> bool" where
  "agent_kept s s' \<longleftrightarrow>
     (\<forall>a. tbl_agent_state (disk s) = Some a \<longrightarrow>
        (\<exists>a'. tbl_agent_state (disk s') = Some a' \<and> as_device_id a' = as_device_id a \<and>
           as_next_seq_no a \<le> as_next_seq_no a'))"

lemma agent_kept_same: "tbl_agent_state (disk s') = tbl_agent_state (disk s) \<Longrightarrow> agent_kept s s'"
  by (simp add: agent_kept_def)

lemma agent_kept_core: "agent_core (disk s') = agent_core (disk s) \<Longrightarrow> agent_kept s s'"
  using agent_core_Some [of "disk s" "disk s'"] by (fastforce simp: agent_kept_def)

lemma Store_agent_kept:
  assumes inv: "storage_inv (disk s)" and st: "Store js env ev s = (s', ev', err)"
  shows "agent_kept s s'"
  using st
proof (cases rule: Store_cases)
  case (quota d e)
  then show ?thesis using all_post_pruned [OF enforceQuota_post [OF inv quota(1)]]
    by (intro agent_kept_core) (simp add: pruned_def)
next
  case (tx d e1 e2)
  have p: "agent_core d = agent_core (disk s)"
    using all_post_pruned [OF enforceQuota_post [OF inv tx(1)]] by (simp add: pruned_def)
  from tx(2) show ?thesis
  proof (cases rule: store_tx_cases)
    case (committed a payload)
    from agent_core_committed [of "s\<lparr>disk := d\<rparr>" a ev' payload] committed(1,5) p show ?thesis
      by (cases "tbl_agent_state (disk s')") (auto simp: agent_kept_def agent_core_def)
  qed (use p agent_kept_core in auto)
qed (auto intro: agent_kept_same)

lemma Init_agent_kept:
  "agent_kept s (fst (Init tp env s)) \<or> corrupt_backup (fst (Init tp env s))"
proof -
  obtain s1 e1 where id: "initIdentity env (s\<lparr>db_handle := DBOpen\<rparr>) = (s1, e1)" by (metis surj_pair)
  have k1: "agent_kept s s1"
    using id by (cases rule: initIdentity_cases) (auto simp: agent_kept_def)
  have k2: "agent_kept s (fst (migrateRetryTimestamps tp (store_env.truncate env) s1))"
    using k1 by (simp add: agent_kept_def migrate_agent)
  have k3: "agent_kept s (s1\<lparr>db_handle := DBNil\<rparr>)" using k1 by (simp add: agent_kept_def)
  have deg: "agent_kept s (fst (degradeStorage env e s)) \<or> corrupt_backup (fst (degradeStorage env e s))" for e
    using degrade_agent [of env e s] agent_kept_same by (metis prod.collapse)
  show ?thesis
    using k2 k3 deg id agent_kept_same [of s s]
    by (cases e1) (auto simp: Init_def split: option.splits)
qed

lemma storage_step_agent:
  "storage_step js tp s s' \<Longrightarrow> storage_inv (disk s) \<Longrightarrow> agent_kept s s' \<or> corrupt_backup s'"
proof (induction rule: storage_step.induct)
  case (step_Init s ienv)
  show ?case by (rule Init_agent_kept)
next
  case (step_Store env s ev)
  then show ?case by (metis Store_agent_kept prod.collapse)
next
  case (step_GetPendingEvents s env n)
  then show ?case using GetPending_kept_fst [of s js env n] by (simp add: kept_def agent_kept_same)
next
  case (step_RemoveEvent s env i)
  have "tbl_agent_state (disk (fst (RemoveEvent env i s))) = tbl_agent_state (disk s)"
    by (simp add: RemoveEvent_def split: option.splits)
  then show ?case by (simp add: agent_kept_same)
next
  case (step_MarkFailed s env i ra)
  have "tbl_agent_state (disk (fst (MarkFailed env i ra s))) = tbl_agent_state (disk s)"
    by (simp add: MarkFailed_def Let_def split: option.splits sum.splits)
  then show ?case by (simp add: agent_kept_same)
next
  case (step_MoveToDLQ s env ev ft fr)
  then show ?case using MoveToDLQ_kept [of s js env ev ft fr] by (simp add: kept_def agent_kept_same)
next
  case (step_Close s)
  then show ?case by (simp add: Close_def agent_kept_same)
next
  case (step_restart s p q n)
  then show ?case by (simp add: NewSQLiteStorage_def agent_kept_same)
qed


text \<open>A file system that works and a fresh UUID.\<close>

definition demo_init_env :: init_env where
  "demo_init_env = store_env.extend demo_env
     (init_env.fields (Inl (GoError [ErrNotExist] ''not found'')) ''device'' None (\<lambda>_. RenOk))"

definition demo_new :: sqlite_storage where
  "demo_new = NewSQLiteStorage ''agent.db'' ''id.json'' 1000000 empty_database False False"

lemma demo_reach: "storage_reach demo_codec (\<lambda>_ _. None) (fst (Init (\<lambda>_ _. None) demo_init_env demo_new))"
  unfolding demo_new_def by (rule reach_step [OF reach_new step_Init])


lemma frame_backup: "s' = s\<lparr>disk := d\<rparr> \<Longrightarrow> corrupt_backup s' = corrupt_backup s"
  by simp

lemma kept_backup: "kept s s' \<Longrightarrow> corrupt_backup s' = corrupt_backup s"
  unfolding kept_def by (metis frame_backup)

lemma Init_refused: "corrupt_backup s \<Longrightarrow> fst (Init tp env s) = s \<and> snd (Init tp env s) \<noteq> None"
  by (simp add: Init_def split: option.splits)

lemma storage_step_backup: "storage_step js tp s s' \<Longrightarrow> corrupt_backup s \<Longrightarrow> corrupt_backup s'"
proof (induction rule: storage_step.induct)
  case (step_Store env s ev)
  then show ?case by (metis Store_frame frame_backup prod.collapse)
next
  case (step_GetPendingEvents s env n)
  then show ?case using kept_backup [OF GetPending_kept_fst] by simp
next
  case (step_MoveToDLQ s env ev ft fr)
  then show ?case using kept_backup [OF MoveToDLQ_kept] by simp
qed (auto simp: Init_refused RemoveEvent_def MarkFailed_def Close_def NewSQLiteStorage_def Let_def
    split: option.splits sum.splits)

lemma storage_steps_backup: "(storage_step js tp)\<^sup>*\<^sup>* s s' \<Longrightarrow> corrupt_backup s \<Longrightarrow> corrupt_backup s'"
  by (induction rule: rtranclp_induct) (auto intro: storage_step_backup)

text \<open>
  A corrupted database is never silently replaced: when \<open>Init\<close> found the integrity check failing
  and set the file aside, every later \<open>Init\<close> fails, whatever operations and restarts come between.
\<close>

theorem corrupt_database_stays_degraded:
  assumes "degradeStorage env e s = (s1, er)" "os_Rename env 0 = RenOk"
    "(storage_step js tp)\<^sup>*\<^sup>* s1 s2"
  shows "snd (Init tp env2 s2) \<noteq> None"
proof -
  have "corrupt_backup s1"
    using assms(1,2) rename_all_moved [of "os_Rename env" 1 "[''WAL'', ''SHM'']"]
    by (auto simp: degradeStorage_def Let_def split: prod.splits if_splits)
  then have "corrupt_backup s2" using storage_steps_backup [OF assms(3)] by simp
  then show ?thesis using Init_refused by blast
qed

theorem corrupt_database_stays_degraded_witness:
  "snd (Init (\<lambda>_ _. None) demo_init_env
     (Close (fst (degradeStorage demo_init_env (errors_New ''corrupt'') demo_new)))) \<noteq> None"
proof (rule corrupt_database_stays_degraded)
  show "degradeStorage demo_init_env (errors_New ''corrupt'') demo_new =
      (fst (degradeStorage demo_init_env (errors_New ''corrupt'') demo_new),
       snd (degradeStorage demo_init_env (errors_New ''corrupt'') demo_new))" by simp
  show "os_Rename demo_init_env 0 = RenOk" by code_simp
  show "(storage_step demo_codec (\<lambda>_ _. None))\<^sup>*\<^sup>*
      (fst (degradeStorage demo_init_env (errors_New ''corrupt'') demo_new))
      (Close (fst (degradeStorage demo_init_env (errors_New ''corrupt'') demo_new)))"
    using step_Close by (rule r_into_rtranclp)
qed

section \<open>Migration of retry timestamps\<close>

lemma fold_set_stamp_none:
  "er_event_id r \<notin> fst ` set us \<Longrightarrow> fold set_stamp us r = r"
  by (induction us arbitrary: r) (auto simp: set_stamp_def)

lemma fold_set_stamp_some:
  "er_event_id r \<in> fst ` set us \<Longrightarrow>
   \<exists>st. (er_event_id r, st) \<in> set us \<and> er_next_attempt_at (fold set_stamp us r) = Some st"
proof (induction us arbitrary: r)
  case (Cons u us)
  show ?case
  proof (cases "er_event_id r \<in> fst ` set us")
    case True
    with Cons.IH [of "set_stamp u r"] show ?thesis by auto
  next
    case False
    with Cons.prems have e: "er_event_id r = fst u" by auto
    then have "er_next_attempt_at (set_stamp u r) = Some (snd u)" by (simp add: set_stamp_def)
    with False e show ?thesis
      using fold_set_stamp_none [of "set_stamp u r" us] by (intro exI [of _ "snd u"]) (cases u, simp)
  qed
qed simp

lemma migration_updates_all:
  assumes "length (filter (\<lambda>r. legacy_text r \<noteq> None) (tbl_events d)) \<le> 1000"
  shows "set (migration_updates tp env d) =
    {(er_event_id r, migrated_stamp tp env txt) | r txt. r \<in> set (tbl_events d) \<and> legacy_text r = Some txt}"
proof -
  let ?f = "\<lambda>r. map_option (\<lambda>txt. (er_event_id r, migrated_stamp tp env txt)) (legacy_text r)"
  have "length (List.map_filter ?f rows) = length (filter (\<lambda>r. legacy_text r \<noteq> None) rows)" for rows
    by (induction rows) (auto simp: List.map_filter_simps split: option.splits)
  then have "migration_updates tp env d = List.map_filter ?f (tbl_events d)"
    using assms by (simp add: migration_updates_def)
  then show ?thesis by (auto simp: List.map_filter_def) (force)+
qed

lemma fold_set_stamp_upd:
  "fold set_stamp us r = r\<lparr>er_next_attempt_at := er_next_attempt_at (fold set_stamp us r)\<rparr>"
  by (rule event_row.equality) simp_all

definition migrate_row :: "(string \<Rightarrow> string \<Rightarrow> go_time option) \<Rightarrow> store_env \<Rightarrow> event_row \<Rightarrow> event_row" where
  "migrate_row tp env r =
     (case legacy_text r of
        None \<Rightarrow> r
      | Some txt \<Rightarrow> r\<lparr>er_next_attempt_at := Some (migrated_stamp tp env txt)\<rparr>)"

lemma fold_set_stamp_row:
  assumes "distinct (map er_event_id rows)" "r \<in> set rows"
    and us: "set us = {(er_event_id r, migrated_stamp tp env txt) | r txt. r \<in> set rows \<and> legacy_text r = Some txt}"
  shows "fold set_stamp us r = migrate_row tp env r"
proof (cases "legacy_text r")
  case None
  have "er_event_id r \<notin> fst ` set us"
  proof
    assume "er_event_id r \<in> fst ` set us"
    then obtain q t where "q \<in> set rows" "legacy_text q = Some t" "er_event_id q = er_event_id r"
      unfolding us by auto
    with assms(1,2) None show False using distinct_ids_eq by fastforce
  qed
  then show ?thesis by (simp add: fold_set_stamp_none migrate_row_def None)
next
  case (Some t0)
  have "er_event_id r \<in> fst ` set us" using assms(2) Some unfolding us by force
  then obtain st where st: "(er_event_id r, st) \<in> set us" "er_next_attempt_at (fold set_stamp us r) = Some st"
    using fold_set_stamp_some by blast
  from st(1) obtain q t where "q \<in> set rows" "legacy_text q = Some t" "er_event_id q = er_event_id r"
    "st = migrated_stamp tp env t" unfolding us by auto
  moreover from this have "q = r" using assms(1,2) distinct_ids_eq by fastforce
  ultimately show ?thesis using Some st(2) fold_set_stamp_upd [of us r] by (simp add: migrate_row_def)
qed

text \<open>
  The migration of at most 1000 legacy retry timestamps is complete and changes nothing else: on
  success every row whose timestamp has not the canonical 19 characters gets the parsed time in
  canonical form, or a time one hour ago if it does not parse, and every other row and column is
  as before.
\<close>

theorem migrateRetryTimestamps_complete:
  assumes inv: "storage_inv (disk s)" and m: "migrateRetryTimestamps tp env s = (s', None)"
    and n: "length (filter (\<lambda>r. legacy_text r \<noteq> None) (tbl_events (disk s))) \<le> 1000"
  shows "disk s' = (disk s)\<lparr>tbl_events := map (migrate_row tp env) (tbl_events (disk s))\<rparr>"
proof -
  let ?us = "migration_updates tp env (disk s)"
  have d: "distinct (map er_event_id (tbl_events (disk s)))" using inv by (simp add: storage_inv_def)
  note us = migration_updates_all [OF n, of tp env]
  have all: "map (fold set_stamp ?us) (tbl_events (disk s)) = map (migrate_row tp env) (tbl_events (disk s))"
    using fold_set_stamp_row [OF d _ us] by simp
  from migrate_cases [OF m] show ?thesis
  proof
    assume "s' = s \<and> (None = None \<longrightarrow> ?us = [])"
    with all have "s' = s" "map (migrate_row tp env) (tbl_events (disk s)) = tbl_events (disk s)"
      by (auto simp: id_def [symmetric])
    then show ?thesis by simp
  qed (simp add: all)
qed

definition demo_legacy :: sqlite_storage where
  "demo_legacy = demo_store1\<lparr>disk := (disk demo_store1)\<lparr>tbl_events :=
     map (\<lambda>r. r\<lparr>er_next_attempt_at := Some (Legacy ''2026-01-01T00:00:00Z'')\<rparr>) (tbl_events (disk demo_store1))\<rparr>\<rparr>"

lemma demo_legacy_inv: "storage_inv (disk demo_legacy)"
  using storage_inv_map [OF demo_store1_inv, of "\<lambda>r. r\<lparr>er_next_attempt_at := Some (Legacy ''2026-01-01T00:00:00Z'')\<rparr>"]
  by (simp add: demo_legacy_def)

theorem migrateRetryTimestamps_complete_witness:
  "map er_next_attempt_at (tbl_events (disk (fst (migrateRetryTimestamps (\<lambda>_ _. Some (7 * second)) demo_env demo_legacy)))) =
   [Some (Canonical 7)]"
proof -
  let ?m = "migrateRetryTimestamps (\<lambda>_ _. Some (7 * second)) demo_env demo_legacy"
  have "snd ?m = None" by code_simp
  then have m: "?m = (fst ?m, None)" by (metis prod.collapse)
  have "length (filter (\<lambda>r. legacy_text r \<noteq> None) (tbl_events (disk demo_legacy))) \<le> 1000" by code_simp
  from migrateRetryTimestamps_complete [OF demo_legacy_inv m this]
  have "disk (fst ?m) = (disk demo_legacy)\<lparr>tbl_events :=
      map (migrate_row (\<lambda>_ _. Some (7 * second)) demo_env) (tbl_events (disk demo_legacy))\<rparr>" .
  moreover have "map er_next_attempt_at (map (migrate_row (\<lambda>_ _. Some (7 * second)) demo_env)
      (tbl_events (disk demo_legacy))) = [Some (Canonical 7)]" by code_simp
  ultimately show ?thesis by simp
qed

section \<open>The SQLite storage as the Storage interface\<close>

definition sqlite_ops :: "codec \<Rightarrow> (string \<Rightarrow> string \<Rightarrow> go_time option) \<Rightarrow> (sqlite_storage, init_env) storage_ops" where
  "sqlite_ops js tp =
     \<lparr>op_Init = Init tp,
      op_Store = (\<lambda>e. Store js (store_env.truncate e)),
      op_GetPendingEvents = (\<lambda>e. GetPendingEvents js (store_env.truncate e)),
      op_RemoveEvent = (\<lambda>e. RemoveEvent (store_env.truncate e)),
      op_MarkFailed = (\<lambda>e i ra err. MarkFailed (store_env.truncate e) i ra),
      op_MoveToDLQ = (\<lambda>e. MoveToDLQ js (store_env.truncate e)),
      op_GetDeviceID = GetDeviceID,
      op_Close = Close\<rparr>"

definition sqlite_held :: "sqlite_storage \<Rightarrow> string \<Rightarrow> bool" where
  "sqlite_held s i \<longleftrightarrow> i \<in> event_ids (disk s) \<union> dlq_ids (disk s)"

definition sqlite_prunable :: "sqlite_storage \<Rightarrow> string \<Rightarrow> bool" where
  "sqlite_prunable s i \<longleftrightarrow>
     (\<exists>r \<in> set (tbl_events (disk s)). er_event_id r = i \<and> er_severity r \<in> set prunableSeverities)"

lemma Store_rows:
  assumes inv: "storage_inv (disk s)" and ok: "driver_ok env" and st: "Store js env ev s = (s', ev', err)"
    and r: "r \<in> set (tbl_events (disk s'))"
  shows "r \<in> set (tbl_events (disk s)) \<or> er_event_id r \<notin> event_ids (disk s) \<union> dlq_ids (disk s)"
  using st
proof (cases rule: Store_cases)
  case (quota d e)
  then show ?thesis using all_post_pruned [OF enforceQuota_post [OF inv quota(1)]] r by (auto simp: pruned_def)
next
  case (tx d e1 e2)
  have sub: "set (tbl_events d) \<subseteq> set (tbl_events (disk s))"
    using all_post_pruned [OF enforceQuota_post [OF inv tx(1)]] by (simp add: pruned_def)
  have new: "EventID ev \<notin> event_ids (disk s) \<union> dlq_ids (disk s)"
    using query_row_NoRows [OF tx(5,6) ok] query_row_NoRows [OF tx(7,8) ok]
    by (simp add: select_event_None select_dlq_None)
  from tx(2) show ?thesis
    by (cases rule: store_tx_cases) (use sub new r in auto)
qed (use r in auto)

lemma sqlite_Store_keeps:
  assumes inv: "storage_inv (disk s)" and ok: "driver_ok env" and h: "sqlite_held s j" "\<not> sqlite_prunable s j"
    and st: "Store js env ev s = (s', ev', err)"
  shows "sqlite_held s' j \<and> \<not> sqlite_prunable s' j"
proof
  note k = Store_keeps_rows [OF inv st]
  show "sqlite_held s' j"
  proof (cases "j \<in> dlq_ids (disk s)")
    case True
    with k show ?thesis by (simp add: sqlite_held_def dlq_ids_def)
  next
    case False
    with h obtain r where "r \<in> set (tbl_events (disk s))" "er_event_id r = j" "er_severity r \<notin> set prunableSeverities"
      by (auto simp: sqlite_held_def sqlite_prunable_def event_ids_def)
    with k have "r \<in> set (tbl_events (disk s'))" "er_event_id r = j" by auto
    then show ?thesis by (auto simp: sqlite_held_def event_ids_def)
  qed
  show "\<not> sqlite_prunable s' j"
    using Store_rows [OF inv ok st] h unfolding sqlite_prunable_def sqlite_held_def by blast
qed

lemma kept_held: "kept s s' \<Longrightarrow> sqlite_held s j \<Longrightarrow> sqlite_held s' j"
  by (auto simp: kept_def sqlite_held_def)

lemma kept_prunable: "kept s s' \<Longrightarrow> sqlite_prunable s' j \<Longrightarrow> sqlite_prunable s j"
  by (auto simp: kept_def sqlite_prunable_def)

lemma MarkFailed_ids:
  "sqlite_held (fst (MarkFailed env i ra s)) j = sqlite_held s j"
  "sqlite_prunable (fst (MarkFailed env i ra s)) j = sqlite_prunable s j"
proof -
  let ?m = "MarkFailed env i ra s"
  from MarkFailed_cases [of env i ra s "fst ?m" "snd ?m"] consider "fst ?m = s"
    | f where "fst ?m = s\<lparr>disk := (disk s)\<lparr>tbl_events := map f (tbl_events (disk s))\<rparr>\<rparr>"
        "\<And>r. er_event_id (f r) = er_event_id r \<and> er_severity (f r) = er_severity r"
    by (fastforce simp: retry_row_def)
  then have "sqlite_held (fst ?m) j = sqlite_held s j \<and> sqlite_prunable (fst ?m) j = sqlite_prunable s j"
    by cases (auto simp: sqlite_held_def sqlite_prunable_def event_ids_def dlq_ids_def image_iff)
  then show "sqlite_held (fst ?m) j = sqlite_held s j" "sqlite_prunable (fst ?m) j = sqlite_prunable s j"
    by simp_all
qed

lemma RemoveEvent_ids:
  "sqlite_held s j \<Longrightarrow> j \<noteq> i \<Longrightarrow> sqlite_held (fst (RemoveEvent env i s)) j"
  "sqlite_prunable (fst (RemoveEvent env i s)) j \<Longrightarrow> sqlite_prunable s j"
proof -
  let ?m = "RemoveEvent env i s"
  from RemoveEvent_cases [of env i s "fst ?m" "snd ?m"]
  have c: "fst ?m = s \<or> fst ?m = s\<lparr>disk := delete_event i (disk s)\<rparr>" by auto
  then show "sqlite_held s j \<Longrightarrow> j \<noteq> i \<Longrightarrow> sqlite_held (fst ?m) j"
    by (auto simp: sqlite_held_def)
  from c show "sqlite_prunable (fst ?m) j \<Longrightarrow> sqlite_prunable s j"
    by (auto simp: sqlite_prunable_def delete_event_def)
qed

lemma MoveToDLQ_held: "MoveToDLQ js env ev ft fr s = (s', None) \<Longrightarrow> sqlite_held s' (EventID ev)"
  by (auto simp: MoveToDLQ_def sqlite_held_def split: sum.splits dest!: moveRaw_cases moved_ids(2))

lemma Store_event_id: "Store js env ev s = (s', ev', err) \<Longrightarrow> EventID ev' = EventID ev"
  by (drule Store_event_fields) (metis canonical_event.select_convs(1) canonical_event.surjective canonical_event.update_convs(8))

lemmas sqlite_laws = Store_inv_fst Remove_inv_fst MarkFailed_inv_fst
  kept_inv [OF MoveToDLQ_kept] kept_inv [OF GetPending_kept_fst]
  kept_held [OF MoveToDLQ_kept] kept_held [OF GetPending_kept_fst] MarkFailed_ids
  RemoveEvent_ids(1) MoveToDLQ_held Store_event_id Store_error_class

text \<open>The SQLite storage keeps the contract the forwarder and the ingestion engine rely on.\<close>

interpretation sqlite: storage_contract "sqlite_ops js tp" "\<lambda>s. storage_inv (disk s)"
  "\<lambda>e. driver_ok (store_env.truncate e)" sqlite_held sqlite_prunable
proof
  fix s s' :: sqlite_storage and e :: init_env and ev ev' j er
  show "storage_inv (disk s) \<Longrightarrow> driver_ok (store_env.truncate e) \<Longrightarrow> sqlite_held s j \<Longrightarrow>
      \<not> sqlite_prunable s j \<Longrightarrow>
      sqlite_held (fst (op_Store (sqlite_ops js tp) e ev s)) j \<and>
      \<not> sqlite_prunable (fst (op_Store (sqlite_ops js tp) e ev s)) j"
    by (simp add: sqlite_ops_def) (metis sqlite_Store_keeps prod.collapse)
  show "op_Store (sqlite_ops js tp) e ev s = (s', ev', None) \<Longrightarrow> sqlite_held s' (EventID ev)"
    by (simp add: sqlite_ops_def sqlite_held_def) (metis Store_success_held Un_iff)
qed (auto simp: sqlite_ops_def sqlite_laws dest: kept_prunable [OF MoveToDLQ_kept]
    kept_prunable [OF GetPending_kept_fst] RemoveEvent_ids(2))

end
