(* ===== verification/Governor_Types.thy ===== *)
theory Governor_Types
  imports Go_Float
begin

text \<open>
  The types of \<open>src/agent/internal/governor/types.go\<close>: the operating state of the host, the state of
  the network, the signals, the thresholds and the optional measurements.
\<close>

datatype HostResourceState = StateNormal | StateResourceSaver | StateEmergency

text \<open>\<open>NetworkNone\<close> is the empty string, the zero value of the type.\<close>

datatype NetworkState = NetworkNone | NetworkUnknown | NetworkOnline | NetworkOffline

record ResourceSignals =
  CPUUtilizationPercent :: f64
  MemoryRSSBytes :: u64
  StoragePressure :: f64
  QueueSaturation :: f64
  sig_NetworkState :: NetworkState

record gov_config =
  CPUSaverThreshold :: f64
  CPUEmergencyThreshold :: f64
  CPURecoveryMargin :: f64
  MemorySaverBytes :: u64
  MemoryEmergencyBytes :: u64
  MemoryRecoveryMarginBytes :: u64
  StorageSaverRatio :: f64
  StorageEmergencyRatio :: f64
  StorageRecoveryMarginRatio :: f64
  QueueSaverRatio :: f64
  QueueEmergencyRatio :: f64
  QueueRecoveryMarginRatio :: f64
  RecoveryDuration :: duration

record ValidFloat64 =
  vf_Value :: f64
  vf_Valid :: bool

record ValidUint64 =
  vu_Value :: u64
  vu_Valid :: bool

definition invalid_float :: ValidFloat64 where
  "invalid_float = \<lparr>vf_Value = Fin 0, vf_Valid = False\<rparr>"

definition invalid_uint :: ValidUint64 where
  "invalid_uint = \<lparr>vu_Value = 0, vu_Valid = False\<rparr>"

end
