(* ===== verification/Forwarder.thy ===== *)
theory Forwarder
  imports Interfaces Governor_Types
begin

text \<open>
  The forwarder, \<open>src/agent/internal/forwarder/forwarder.go\<close>: it reads the pending events from the
  storage and posts each to the server. The storage is any provider of the \<open>Storage\<close> interface;
  what the HTTP client answers, and whether the context is done, is the environment of a call.
  The lemmas hold for every storage that keeps the contract of \<open>Interfaces\<close>.
\<close>

section \<open>State and lifecycle\<close>

text \<open>The values of the atomic \<open>networkState\<close>.\<close>

definition networkUnknown :: u32 where "networkUnknown = 0"
definition networkOnline :: u32 where "networkOnline = 1"
definition networkOffline :: u32 where "networkOffline = 2"

record forwarder =
  apiURL :: string
  fwd_tenantID :: string
  wakeup_full :: bool
  has_cancel :: bool
  started :: bool
  stopped :: bool
  networkState :: u32

text \<open>\<open>strings.TrimRight(apiURL, "/")\<close>.\<close>

definition TrimRight_slash :: "string \<Rightarrow> string" where
  "TrimRight_slash s = rev (dropWhile (\<lambda>c. c = CHR ''/'') (rev s))"

definition NewForwarder :: "string \<Rightarrow> string \<Rightarrow> forwarder" where
  "NewForwarder url tenant =
     \<lparr>apiURL = TrimRight_slash url, fwd_tenantID = tenant, wakeup_full = False, has_cancel = False,
      started = False, stopped = False, networkState = networkUnknown\<rparr>"

definition NetworkState_of :: "forwarder \<Rightarrow> NetworkState" where
  "NetworkState_of f =
     (if networkState f = networkOnline then NetworkOnline
      else if networkState f = networkOffline then NetworkOffline
      else NetworkUnknown)"

text \<open>The channel holds one element; a second wake-up is dropped.\<close>

definition Wakeup :: "forwarder \<Rightarrow> forwarder" where
  "Wakeup f = (if wakeup_full f then f else f\<lparr>wakeup_full := True\<rparr>)"

definition fwd_Start :: "forwarder \<Rightarrow> forwarder \<times> go_error option" where
  "fwd_Start f =
     (if stopped f then (f, Some (errors_New ''forwarder cannot be restarted''))
      else if started f then (f, Some (errors_New ''forwarder already started''))
      else (f\<lparr>started := True, has_cancel := True\<rparr>, None))"

definition fwd_Stop :: "forwarder \<Rightarrow> forwarder" where
  "fwd_Stop f = (if has_cancel f then f\<lparr>has_cancel := False, stopped := True\<rparr> else f\<lparr>stopped := True\<rparr>)"

section \<open>Sending\<close>

text \<open>\<open>strconv.Atoi\<close>: an optional sign and decimal digits, in the range of \<open>int\<close>.\<close>

definition all_digits :: "string \<Rightarrow> bool" where
  "all_digits s \<longleftrightarrow> s \<noteq> [] \<and> list_all (\<lambda>c. 48 \<le> code c \<and> code c \<le> 57) s"

definition Atoi :: "string \<Rightarrow> int option" where
  "Atoi s =
     (let (sg, ds) = (case s of
            c # cs \<Rightarrow> if c = CHR ''-'' then (-1, cs) else if c = CHR ''+'' then (1, cs) else (1, s)
          | [] \<Rightarrow> (1, s))
      in if all_digits ds \<and> is_int64 (sg * int (undec ds)) then Some (sg * int (undec ds)) else None)"

record http_response =
  StatusCode :: int
  resp_Body :: string
  hdr_RetryAfter :: string

text \<open>What one \<open>sendEvent\<close> meets: the context of its one storage call, the error of building the
  request, the answer of the client, and whether the context was done when the client failed.\<close>

record 'e send_env =
  se_store :: 'e
  se_NewRequest :: "go_error option"
  se_Do :: "go_error + http_response"
  se_ctx_done :: bool

definition truncate_body :: "string \<Rightarrow> string" where
  "truncate_body b = (if 512 < length b then take 512 b @ ''...(truncated)'' else b)"

definition retry_after :: "http_response \<Rightarrow> int" where
  "retry_after resp =
     (if StatusCode resp = 429 \<and> hdr_RetryAfter resp \<noteq> []
      then case Atoi (hdr_RetryAfter resp) of Some n \<Rightarrow> n | None \<Rightarrow> 0
      else 0)"

definition http_error :: "http_response \<Rightarrow> go_error" where
  "http_error resp =
     errors_New (''HTTP '' @ dec_int (StatusCode resp) @ '': '' @ truncate_body (resp_Body resp))"

text \<open>\<open>sendEvent\<close>; the errors of the storage calls are only logged.\<close>

definition sendEvent ::
    "codec \<Rightarrow> ('s, 'e) storage_ops \<Rightarrow> 'e send_env \<Rightarrow> canonical_event \<Rightarrow> forwarder \<times> 's \<Rightarrow> forwarder \<times> 's" where
  "sendEvent js ops env ev fs =
     (case fs of (f, s) \<Rightarrow>
      if TenantID ev \<noteq> fwd_tenantID f
      then (f, fst (op_MoveToDLQ ops (se_store env) ev ''tenant_mismatch''
             (''Event tenant '' @ TenantID ev @ '' != forwarder tenant '' @ fwd_tenantID f) s))
      else
      case json_Marshal js ev of
        Inl err \<Rightarrow> (f, fst (op_MoveToDLQ ops (se_store env) ev ''serialization_error'' (err_text err) s))
      | Inr payload \<Rightarrow>
      case se_NewRequest env of
        Some err \<Rightarrow> (f, fst (op_MarkFailed ops (se_store env) (EventID ev) 0 err s))
      | None \<Rightarrow>
      case se_Do env of
        Inl err \<Rightarrow>
          (if se_ctx_done env then f else f\<lparr>networkState := networkOffline\<rparr>,
           fst (op_MarkFailed ops (se_store env) (EventID ev) 0 err s))
      | Inr resp \<Rightarrow>
      let f1 = f\<lparr>networkState := networkOnline\<rparr> in
      if StatusCode resp = 202
      then (f1, fst (op_RemoveEvent ops (se_store env) (EventID ev) s))
      else if StatusCode resp = 400
      then (f1, fst (op_MoveToDLQ ops (se_store env) ev ''http_400'' (truncate_body (resp_Body resp)) s))
      else (f1, fst (op_MarkFailed ops (se_store env) (EventID ev) (retry_after resp) (http_error resp) s)))"

text \<open>What one \<open>processPending\<close> meets: the context of the read, and for each event of the batch
  whether the context is done and the environment of the send.\<close>

record 'e pending_env =
  pe_get :: 'e
  pe_ctx_done :: "nat \<Rightarrow> bool"
  pe_send :: "nat \<Rightarrow> 'e send_env"

fun send_all ::
    "codec \<Rightarrow> ('s, 'e) storage_ops \<Rightarrow> 'e pending_env \<Rightarrow> nat \<Rightarrow> canonical_event list \<Rightarrow>
     forwarder \<times> 's \<Rightarrow> forwarder \<times> 's" where
  "send_all js ops env k [] fs = fs"
| "send_all js ops env k (ev # evs) fs =
     (if pe_ctx_done env k then fs
      else send_all js ops env (Suc k) evs (sendEvent js ops (pe_send env k) ev fs))"

definition processPending ::
    "codec \<Rightarrow> ('s, 'e) storage_ops \<Rightarrow> 'e pending_env \<Rightarrow> forwarder \<times> 's \<Rightarrow> forwarder \<times> 's" where
  "processPending js ops env fs =
     (case op_GetPendingEvents ops (pe_get env) 50 (snd fs) of
        (s1, Inl err) \<Rightarrow> (fst fs, s1)
      | (s1, Inr evs) \<Rightarrow> send_all js ops env 0 evs (fst fs, s1))"

text \<open>The loop of \<open>run\<close>: a batch, then the branch of the \<open>select\<close> that fires.\<close>

datatype wake = CtxDone | WakeupRecv | TickerFired

fun fwd_run ::
    "codec \<Rightarrow> ('s, 'e) storage_ops \<Rightarrow> ('e pending_env \<times> wake) list \<Rightarrow> forwarder \<times> 's \<Rightarrow> forwarder \<times> 's" where
  "fwd_run js ops [] fs = fs"
| "fwd_run js ops ((env, w) # rest) fs =
     (let (f1, s1) = processPending js ops env fs in
      case w of
        CtxDone \<Rightarrow> (f1, s1)
      | WakeupRecv \<Rightarrow> fwd_run js ops rest (f1\<lparr>wakeup_full := False\<rparr>, s1)
      | TickerFired \<Rightarrow> fwd_run js ops rest (f1, s1))"

section \<open>What the forwarder does to a storage\<close>

text \<open>The event was posted and the server answered 202.\<close>

definition accepted :: "'e send_env \<Rightarrow> bool" where
  "accepted env \<longleftrightarrow> (\<exists>resp. se_Do env = Inr resp \<and> StatusCode resp = 202)"

locale forwarder_storage = storage_contract
begin

lemma sendEvent_inv: "inv s \<Longrightarrow> inv (snd (sendEvent js ops env ev (f, s)))"
  by (auto simp: sendEvent_def Let_def Mark_inv Move_inv Remove_inv split: sum.splits option.splits)

lemma sendEvent_keeps:
  assumes "held s j" "\<not> (accepted env \<and> j = EventID ev)"
  shows "held (snd (sendEvent js ops env ev (f, s))) j"
  using assms
  by (auto simp: sendEvent_def accepted_def Let_def Mark_keeps Move_keeps Remove_keeps
      split: sum.splits option.splits)

lemma sendEvent_prunable: "prunable (snd (sendEvent js ops env ev (f, s))) j \<Longrightarrow> prunable s j"
  by (auto simp: sendEvent_def Let_def split: sum.splits option.splits if_splits
      dest: Mark_prunable Move_prunable Remove_prunable)

lemma send_all_inv: "inv (snd fs) \<Longrightarrow> inv (snd (send_all js ops env k evs fs))"
proof (induction evs arbitrary: k fs)
  case (Cons ev evs)
  then show ?case using sendEvent_inv [of "snd fs" js "pe_send env k" ev "fst fs"] by simp
qed simp

lemma send_all_prunable: "prunable (snd (send_all js ops env k evs fs)) j \<Longrightarrow> prunable (snd fs) j"
proof (induction evs arbitrary: k fs)
  case (Cons ev evs)
  then show ?case using sendEvent_prunable [of js "pe_send env k" ev "fst fs" "snd fs" j]
    by (auto split: if_splits)
qed simp

lemma send_all_keeps:
  assumes "held (snd fs) j"
    "\<And>i. i < length evs \<Longrightarrow> \<not> (accepted (pe_send env (k + i)) \<and> j = EventID (evs ! i))"
  shows "held (snd (send_all js ops env k evs fs)) j"
  using assms
proof (induction evs arbitrary: k fs)
  case (Cons ev evs)
  have "held (snd (sendEvent js ops (pe_send env k) ev fs)) j"
    using sendEvent_keeps [of "snd fs" j "pe_send env k" ev js "fst fs"] Cons.prems(1) Cons.prems(2) [of 0] by simp
  moreover have "\<not> (accepted (pe_send env (Suc k + i)) \<and> j = EventID (evs ! i))" if "i < length evs" for i
    using Cons.prems(2) [of "Suc i"] that by simp
  ultimately show ?case using Cons.IH [of "sendEvent js ops (pe_send env k) ev fs" "Suc k"] Cons.prems(1) by simp
qed simp

text \<open>An event leaves the storage in a batch only if the server accepted it.\<close>

lemma processPending_keeps:
  assumes h: "held s j" and lost: "\<not> held (snd (processPending js ops env (f, s))) j"
  shows "\<exists>s1 evs i. op_GetPendingEvents ops (pe_get env) 50 s = (s1, Inr evs) \<and> i < length evs \<and>
    EventID (evs ! i) = j \<and> accepted (pe_send env i)"
proof -
  obtain s1 r where g: "op_GetPendingEvents ops (pe_get env) 50 s = (s1, r)" by (metis surj_pair)
  with Pending_keeps [OF h, of "pe_get env" 50] have h1: "held s1 j" by simp
  with lost g obtain evs where r: "r = Inr evs" by (cases r) (auto simp: processPending_def)
  show ?thesis
  proof (rule ccontr)
    assume "\<not> ?thesis"
    with g r have "\<And>i. i < length evs \<Longrightarrow> \<not> (accepted (pe_send env (0 + i)) \<and> j = EventID (evs ! i))" by auto
    from send_all_keeps [of "(f, s1)" j, OF _ this] h1 lost g r show False
      by (simp add: processPending_def)
  qed
qed

lemma processPending_inv: "inv s \<Longrightarrow> inv (snd (processPending js ops env (f, s)))"
  using Pending_inv [of s "pe_get env" 50] send_all_inv
  by (auto simp: processPending_def split: prod.splits sum.splits)

lemma processPending_prunable: "prunable (snd (processPending js ops env (f, s))) j \<Longrightarrow> prunable s j"
proof -
  assume p: "prunable (snd (processPending js ops env (f, s))) j"
  obtain s1 r where g: "op_GetPendingEvents ops (pe_get env) 50 s = (s1, r)" by (metis surj_pair)
  have "prunable s1 j"
    using p g send_all_prunable [of js env 0 _ "(f, s1)" j] by (cases r) (auto simp: processPending_def)
  with Pending_prunable [of "pe_get env" 50 s j] g show ?thesis by simp
qed

end

section \<open>Lifecycle\<close>

datatype fwd_call = CallStart | CallStop | CallWakeup

fun fwd_calls :: "fwd_call list \<Rightarrow> forwarder \<Rightarrow> nat" where
  "fwd_calls [] f = 0"
| "fwd_calls (CallStart # cs) f =
     (case fwd_Start f of (f1, None) \<Rightarrow> Suc (fwd_calls cs f1) | (f1, Some _) \<Rightarrow> fwd_calls cs f1)"
| "fwd_calls (CallStop # cs) f = fwd_calls cs (fwd_Stop f)"
| "fwd_calls (CallWakeup # cs) f = fwd_calls cs (Wakeup f)"

lemma fwd_calls_none: "started f \<or> stopped f \<Longrightarrow> fwd_calls cs f = 0"
  by (induction cs f rule: fwd_calls.induct)
     (auto simp: fwd_Start_def fwd_Stop_def Wakeup_def split: if_splits)

lemma fwd_calls_le: "fwd_calls cs f \<le> 1"
proof (induction cs f rule: fwd_calls.induct)
  case (2 cs f)
  then show ?case
    by (auto simp: fwd_Start_def fwd_calls_none split: prod.splits option.splits)
qed auto

text \<open>
  A forwarder is started at most once: in any sequence of Start, Stop and Wakeup calls at most
  one Start succeeds, and none succeeds after a Stop.
\<close>

theorem forwarder_starts_once:
  "fwd_calls cs f \<le> 1 \<and> fwd_calls (CallStop # cs) f = 0"
  using fwd_calls_le [of cs f] by (simp add: fwd_calls_none fwd_Stop_def)

end
