(* ===== verification/Ingestion.thy ===== *)
theory Ingestion
  imports Interfaces
begin

text \<open>
  The ingestion engine, \<open>src/agent/internal/ingestion/engine.go\<close>: enrichment, the durable store with
  its bounded retries, the recovery to the dead letter queue and the emergency spill file. The
  storage is any provider of the \<open>Storage\<close> interface.

  A context is a number, so that the comparison \<open>storeCtx == ctx\<close> is that of the source. What the
  contexts, the timer and the file system answer in one call of \<open>ProcessEvent\<close> is its
  environment, indexed by the iteration of the loop. The loop is a \<open>partial_function\<close>: \<^term>\<open>None\<close>
  means that it does not return.
\<close>

section \<open>Configuration and environment\<close>

datatype EventOutcome =
    OutcomeCommitted | OutcomeFailedBeforeCommit | OutcomeRecoveredDLQ | OutcomeSpilledDisk
  | OutcomeDropped

text \<open>The calls of the optional callbacks \<open>OnDropped\<close>, \<open>OnDLQ\<close> and \<open>OnFatal\<close>, and the end of the
  process by \<open>log.Fatalf\<close>.\<close>

datatype callback = CbDropped string | CbDLQ string | CbFatal | LogFatalf

record ('s, 'e) ingest_config =
  cfg_TenantID :: string
  cfg_SiteID :: string
  cfg_AssetID :: string
  RetryDelay :: duration
  EmergencySpillPath :: string
  OnCommitted :: "(nat \<Rightarrow> canonical_event \<Rightarrow> 's \<Rightarrow> 's) option"
  has_OnDropped :: bool
  has_OnDLQ :: bool
  has_OnFatal :: bool
  TestInjectError :: "(nat \<Rightarrow> canonical_event \<Rightarrow> go_error option) option"

definition NewEngine :: "('s, 'e) ingest_config \<Rightarrow> ('s, 'e) ingest_config" where
  "NewEngine cfg =
     (let cfg = (if RetryDelay cfg = 0 then cfg\<lparr>RetryDelay := 100 * 1000000\<rparr> else cfg) in
      if EmergencySpillPath cfg = [] then cfg\<lparr>EmergencySpillPath := ''agent_emergency_spill.log''\<rparr> else cfg)"

record spill_env =
  sp_OpenFile :: "go_error option"
  sp_Write :: "nat \<times> go_error option"
  sp_Sync :: "go_error option"
  sp_Close :: "go_error option"

record 'e ingest_env =
  ie_store :: "nat \<Rightarrow> nat \<Rightarrow> 'e"
  ie_dlq :: "nat \<Rightarrow> 'e"
  ie_start_done :: bool
  ie_select_done :: "nat \<Rightarrow> bool"
  ie_ctx_done :: "nat \<Rightarrow> bool"
  ie_spill :: spill_env

section \<open>Enrichment and spill\<close>

definition enrich :: "('s, 'e) ingest_config \<Rightarrow> canonical_event \<Rightarrow> canonical_event" where
  "enrich cfg ev =
     (let ev = (if cfg_TenantID cfg \<noteq> [] \<and> TenantID ev = [] then ev\<lparr>TenantID := cfg_TenantID cfg\<rparr> else ev);
          ev = (if cfg_SiteID cfg \<noteq> [] \<and> SiteID ev = [] then ev\<lparr>SiteID := cfg_SiteID cfg\<rparr> else ev)
      in if cfg_AssetID cfg \<noteq> [] \<and> AssetID ev = [] then ev\<lparr>AssetID := cfg_AssetID cfg\<rparr> else ev)"

text \<open>\<open>appendEmergencySpill\<close> on the content of the file, opened for appending.\<close>

definition appendEmergencySpill :: "spill_env \<Rightarrow> string \<Rightarrow> string \<Rightarrow> string \<times> go_error option" where
  "appendEmergencySpill env rec file =
     (case sp_OpenFile env of
        Some err \<Rightarrow> (file, Some err)
      | None \<Rightarrow>
        (let (n, werr) = sp_Write env;
             file1 = file @ take n rec;
             werr = (if werr = None \<and> n \<noteq> length rec then Some (errors_New ''short write'') else werr);
             werr = (if werr = None then sp_Sync env else werr)
         in (file1, if werr \<noteq> None then werr else sp_Close env)))"

section \<open>The loop of ProcessEvent\<close>

record 's ingest_result =
  ir_outcome :: EventOutcome
  ir_calls :: "callback list"
  ir_event :: canonical_event
  ir_db :: 's
  ir_file :: string

definition call_if :: "bool \<Rightarrow> callback \<Rightarrow> callback list" where
  "call_if b c = (if b then [c] else [])"

text \<open>The third uncertain attempt: dead letter queue, then spill file, then terminal behaviour.\<close>

definition recover ::
    "codec \<Rightarrow> ('s, 'e) storage_ops \<Rightarrow> ('s, 'e) ingest_config \<Rightarrow> 'e ingest_env \<Rightarrow> nat \<Rightarrow>
     canonical_event \<Rightarrow> go_error \<Rightarrow> 's \<Rightarrow> string \<Rightarrow> 's ingest_result" where
  "recover js ops cfg env storeCtx ev storeErr db file =
     (case op_MoveToDLQ ops (ie_dlq env storeCtx) ev ''uncertain_commit'' (err_text storeErr) db of
        (db1, None) \<Rightarrow>
          \<lparr>ir_outcome = OutcomeRecoveredDLQ, ir_calls = call_if (has_OnDLQ cfg) (CbDLQ ''uncertain_commit''),
           ir_event = ev, ir_db = db1, ir_file = file\<rparr>
      | (db1, Some dlqErr) \<Rightarrow>
        (case json_Marshal js ev of
           Inl marshalErr \<Rightarrow>
             \<lparr>ir_outcome = OutcomeDropped, ir_calls = call_if (has_OnFatal cfg) CbFatal,
              ir_event = ev, ir_db = db1, ir_file = file\<rparr>
         | Inr spillBytes \<Rightarrow>
           (case appendEmergencySpill (ie_spill env) (spillBytes @ [CHR 0x0A]) file of
              (file1, None) \<Rightarrow>
                \<lparr>ir_outcome = OutcomeSpilledDisk, ir_calls = [], ir_event = ev, ir_db = db1, ir_file = file1\<rparr>
            | (file1, Some spillErr) \<Rightarrow>
                \<lparr>ir_outcome = OutcomeDropped,
                 ir_calls = (if has_OnFatal cfg then [CbFatal] else [LogFatalf]),
                 ir_event = ev, ir_db = db1, ir_file = file1\<rparr>)))"

text \<open>The local variables of the loop, and one iteration: the result returned, or the variables with
  which the loop continues.\<close>

record 's loop_state =
  ls_k :: nat
  ls_storeCtx :: nat
  ls_attempts :: nat
  ls_event :: canonical_event
  ls_db :: 's

definition loop_store ::
    "('s, 'e) storage_ops \<Rightarrow> ('s, 'e) ingest_config \<Rightarrow> 'e ingest_env \<Rightarrow> 's loop_state \<Rightarrow>
     's \<times> canonical_event \<times> go_error option" where
  "loop_store ops cfg env l =
     (case TestInjectError cfg of
        Some inject \<Rightarrow> (ls_db l, ls_event l, inject (ls_storeCtx l) (ls_event l))
      | None \<Rightarrow> op_Store ops (ie_store env (ls_k l) (ls_storeCtx l)) (ls_event l) (ls_db l))"

definition process_step ::
    "codec \<Rightarrow> ('s, 'e) storage_ops \<Rightarrow> ('s, 'e) ingest_config \<Rightarrow> 'e ingest_env \<Rightarrow> nat \<Rightarrow> nat \<Rightarrow>
     string \<Rightarrow> 's loop_state \<Rightarrow> 's ingest_result + 's loop_state" where
  "process_step js ops cfg env ctx drainCtx file l =
     (case loop_store ops cfg env l of (db1, ev1, storeErr) \<Rightarrow>
      let l1 = l\<lparr>ls_k := Suc (ls_k l), ls_event := ev1, ls_db := db1\<rparr>;
          k = ls_k l; storeCtx = ls_storeCtx l; attempts = Suc (ls_attempts l)
      in case storeErr of
        None \<Rightarrow>
          Inl \<lparr>ir_outcome = OutcomeCommitted, ir_calls = [], ir_event = ev1,
               ir_db = (case OnCommitted cfg of Some cb \<Rightarrow> cb storeCtx ev1 db1 | None \<Rightarrow> db1),
               ir_file = file\<rparr>
      | Some e \<Rightarrow>
        if errors_Is e ErrStoreFailedBeforeCommit then
          if errors_Is e CtxCanceled \<and> storeCtx = ctx
          then Inr (l1\<lparr>ls_storeCtx := drainCtx\<rparr>)
          else Inl \<lparr>ir_outcome = OutcomeFailedBeforeCommit,
                    ir_calls = call_if (has_OnDropped cfg) (CbDropped ''failed_before_commit''),
                    ir_event = ev1, ir_db = db1, ir_file = file\<rparr>
        else if errors_Is e ErrStoreUncertain then
          if attempts \<ge> 3 then Inl (recover js ops cfg env storeCtx ev1 e db1 file)
          else if ie_select_done env k \<and> storeCtx = ctx
          then Inr (l1\<lparr>ls_storeCtx := drainCtx, ls_attempts := attempts\<rparr>)
          else if ie_ctx_done env k \<and> storeCtx \<noteq> ctx
          then Inl \<lparr>ir_outcome = OutcomeDropped,
                    ir_calls = call_if (has_OnDropped cfg) (CbDropped ''uncertain_deadline_expired''),
                    ir_event = ev1, ir_db = db1, ir_file = file\<rparr>
          else Inr (l1\<lparr>ls_attempts := attempts\<rparr>)
        else
          Inl \<lparr>ir_outcome = OutcomeDropped,
               ir_calls = call_if (has_OnDropped cfg) (CbDropped ''unknown_storage_error''),
               ir_event = ev1, ir_db = db1, ir_file = file\<rparr>)"

partial_function (option) process_loop ::
    "codec \<Rightarrow> ('s, 'e) storage_ops \<Rightarrow> ('s, 'e) ingest_config \<Rightarrow> 'e ingest_env \<Rightarrow> nat \<Rightarrow> nat \<Rightarrow>
     string \<Rightarrow> 's loop_state \<Rightarrow> 's ingest_result option" where
  "process_loop js ops cfg env ctx drainCtx file l =
     (case process_step js ops cfg env ctx drainCtx file l of
        Inl r \<Rightarrow> Some r
      | Inr l1 \<Rightarrow> process_loop js ops cfg env ctx drainCtx file l1)"

definition ProcessEvent ::
    "codec \<Rightarrow> ('s, 'e) storage_ops \<Rightarrow> ('s, 'e) ingest_config \<Rightarrow> 'e ingest_env \<Rightarrow> nat \<Rightarrow> nat \<Rightarrow>
     canonical_event \<Rightarrow> 's \<Rightarrow> string \<Rightarrow> 's ingest_result option" where
  "ProcessEvent js ops cfg env ctx drainCtx ev db file =
     process_loop js ops cfg env ctx drainCtx file
       \<lparr>ls_k = 0, ls_storeCtx = (if ie_start_done env then drainCtx else ctx), ls_attempts = 0,
        ls_event = enrich cfg ev, ls_db = db\<rparr>"

text \<open>\<open>Run\<close> over the events the channel delivers before it is closed; the process may end.\<close>

fun ingest_Run ::
    "codec \<Rightarrow> ('s, 'e) storage_ops \<Rightarrow> ('s, 'e) ingest_config \<Rightarrow> nat \<Rightarrow> nat \<Rightarrow>
     ('e ingest_env \<times> canonical_event) list \<Rightarrow> 's \<Rightarrow> string \<Rightarrow> ('s \<times> string \<times> EventOutcome list) option" where
  "ingest_Run js ops cfg ctx drainCtx [] db file = Some (db, file, [])"
| "ingest_Run js ops cfg ctx drainCtx ((env, ev) # rest) db file =
     (case ProcessEvent js ops cfg env ctx drainCtx (enrich cfg ev) db file of
        None \<Rightarrow> None
      | Some r \<Rightarrow>
        if LogFatalf \<in> set (ir_calls r) then Some (ir_db r, ir_file r, [ir_outcome r])
        else map_option (\<lambda>(db1, file1, os). (db1, file1, ir_outcome r # os))
               (ingest_Run js ops cfg ctx drainCtx rest (ir_db r) (ir_file r)))"

section \<open>Termination\<close>

text \<open>Each iteration that does not return has used an attempt or switched to the drain context.\<close>

definition loop_measure :: "nat \<Rightarrow> 's loop_state \<Rightarrow> nat" where
  "loop_measure ctx l = 2 * (3 - ls_attempts l) + (if ls_storeCtx l = ctx then 1 else 0)"

lemma process_step_Inr:
  assumes "process_step js ops cfg env ctx drainCtx file l = Inr l1"
  shows "ls_storeCtx l = ctx \<and> ls_storeCtx l1 = drainCtx \<and> ls_attempts l1 = ls_attempts l \<or>
    ls_attempts l1 = Suc (ls_attempts l) \<and> Suc (ls_attempts l) < 3"
proof -
  obtain db1 ev1 se where "loop_store ops cfg env l = (db1, ev1, se)" by (metis prod_cases3)
  with assms show ?thesis
    unfolding process_step_def Let_def by (cases se) (simp_all split: if_split_asm, auto)
qed

lemma process_step_decreases:
  assumes "ctx \<noteq> drainCtx" "process_step js ops cfg env ctx drainCtx file l = Inr l1"
  shows "loop_measure ctx l1 < loop_measure ctx l"
  using process_step_Inr [OF assms(2)] assms(1) by (auto simp: loop_measure_def)

lemma process_loop_induct:
  assumes ne: "ctx \<noteq> drainCtx"
    and ret: "\<And>l r. Q l \<Longrightarrow> process_step js ops cfg env ctx drainCtx file l = Inl r \<Longrightarrow> P r"
    and step: "\<And>l l1. Q l \<Longrightarrow> process_step js ops cfg env ctx drainCtx file l = Inr l1 \<Longrightarrow> Q l1"
    and "Q l"
  shows "\<exists>r. process_loop js ops cfg env ctx drainCtx file l = Some r \<and> P r"
  using \<open>Q l\<close>
proof (induction "loop_measure ctx l" arbitrary: l rule: less_induct)
  case less
  show ?case
  proof (cases "process_step js ops cfg env ctx drainCtx file l")
    case (Inl r)
    then have "process_loop js ops cfg env ctx drainCtx file l = Some r"
      by (subst process_loop.simps) simp
    then show ?thesis using ret [OF less.prems Inl] by blast
  next
    case (Inr l1)
    then have "process_loop js ops cfg env ctx drainCtx file l =
        process_loop js ops cfg env ctx drainCtx file l1"
      by (subst process_loop.simps) simp
    then show ?thesis
      using less.hyps [OF process_step_decreases [OF ne Inr] step [OF less.prems Inr]] by simp
  qed
qed

section \<open>What becomes of an event\<close>

text \<open>An event is accounted for: it was durable when the commit was reported to \<open>OnCommitted\<close>, or it
  is in the dead letter queue, or its JSON line was appended to the spill file, or the callback for
  a dropped event was called when there is one.\<close>

definition accounted_for ::
    "('s \<Rightarrow> string \<Rightarrow> bool) \<Rightarrow> codec \<Rightarrow> ('s, 'e) ingest_config \<Rightarrow> string \<Rightarrow> string \<Rightarrow> 's ingest_result \<Rightarrow> bool" where
  "accounted_for held js cfg file i r \<longleftrightarrow>
     EventID (ir_event r) = i \<and>
     (case ir_outcome r of
        OutcomeCommitted \<Rightarrow>
          ir_file r = file \<and>
          (\<exists>db c. held db i \<and>
             ir_db r = (case OnCommitted cfg of Some cb \<Rightarrow> cb c (ir_event r) db | None \<Rightarrow> db))
      | OutcomeRecoveredDLQ \<Rightarrow> ir_file r = file \<and> held (ir_db r) i
      | OutcomeSpilledDisk \<Rightarrow>
          (\<exists>p. json_Marshal js (ir_event r) = Inr p \<and> ir_file r = file @ p @ [CHR 0x0A])
      | OutcomeFailedBeforeCommit \<Rightarrow>
          ir_file r = file \<and> (has_OnDropped cfg \<longrightarrow> ir_calls r = [CbDropped ''failed_before_commit''])
      | OutcomeDropped \<Rightarrow> has_OnDropped cfg \<and> has_OnFatal cfg \<longrightarrow> ir_calls r \<noteq> [])"

text \<open>The file only grows, and a successful spill appended the whole record.\<close>

lemma appendEmergencySpill_ok:
  assumes "appendEmergencySpill env rec file = (file1, None)"
  shows "file1 = file @ rec"
  using assms
  by (auto simp: appendEmergencySpill_def Let_def split: option.splits prod.splits if_splits)

lemma appendEmergencySpill_prefix: "\<exists>t. fst (appendEmergencySpill env rec file) = file @ t"
  by (auto simp: appendEmergencySpill_def Let_def split: option.splits prod.splits)

locale ingestion_storage = storage_contract
begin

lemma recover_accounted:
  "accounted_for held js cfg file (EventID ev) (recover js ops cfg env c ev e db file)"
proof -
  obtain db1 de where m: "op_MoveToDLQ ops (ie_dlq env c) ev ''uncertain_commit'' (err_text e) db = (db1, de)"
    by (metis surj_pair)
  show ?thesis
  proof (cases de)
    case None
    with m Move_held show ?thesis by (simp add: recover_def accounted_for_def)
  next
    case (Some err)
    show ?thesis
    proof (cases "json_Marshal js ev")
      case (Inr p)
      obtain f1 se where a: "appendEmergencySpill (ie_spill env) (p @ [CHR 0x0A]) file = (f1, se)"
        by (metis surj_pair)
      then show ?thesis
        using m Some Inr appendEmergencySpill_ok [of "ie_spill env" "p @ [CHR 0x0A]" "file" f1]
        by (cases se) (simp_all add: recover_def accounted_for_def)
    qed (use m Some in \<open>simp add: recover_def accounted_for_def call_if_def\<close>)
  qed
qed

lemma loop_store_event:
  "loop_store ops cfg env l = (db1, ev1, se) \<Longrightarrow> EventID ev1 = EventID (ls_event l)"
  by (auto simp: loop_store_def Store_event split: option.splits)

lemma process_step_event:
  assumes "process_step js ops cfg env ctx drainCtx file l = Inr l1"
  shows "EventID (ls_event l1) = EventID (ls_event l)"
proof -
  obtain db1 ev1 se where s: "loop_store ops cfg env l = (db1, ev1, se)" by (metis prod_cases3)
  from assms s loop_store_event [OF s] show ?thesis
    unfolding process_step_def Let_def by (cases se) (simp_all split: if_split_asm, auto)
qed

lemma process_step_accounted:
  assumes inj: "TestInjectError cfg = None"
    and st: "process_step js ops cfg env ctx drainCtx file l = Inl r"
  shows "accounted_for held js cfg file (EventID (ls_event l)) r"
proof -
  obtain db1 ev1 se where s: "loop_store ops cfg env l = (db1, ev1, se)" by (metis prod_cases3)
  note i = loop_store_event [OF s]
  show ?thesis
  proof (cases se)
    case None
    have "held db1 (EventID (ls_event l))"
      using s inj None Store_held by (simp add: loop_store_def)
    with st s None i show ?thesis
      by (auto simp: process_step_def accounted_for_def intro!: exI [of _ db1] exI [of _ "ls_storeCtx l"]
          split: option.split)
  next
    case (Some e)
    show ?thesis
      using st recover_accounted [of js cfg "file" ev1 env "ls_storeCtx l" e db1] i
      unfolding process_step_def Let_def s Some
      by (simp split: if_split_asm) (auto simp: accounted_for_def call_if_def)
  qed
qed

theorem ProcessEvent_accounted:
  assumes "ctx \<noteq> drainCtx" "TestInjectError cfg = None"
  shows "\<exists>r. ProcessEvent js ops cfg env ctx drainCtx ev db file = Some r \<and>
    accounted_for held js cfg file (EventID (enrich cfg ev)) r"
  unfolding ProcessEvent_def
  by (rule process_loop_induct [OF assms(1), where Q = "\<lambda>l. EventID (ls_event l) = EventID (enrich cfg ev)"])
     (use process_step_accounted [OF assms(2)] process_step_event in fastforce)+

end

lemma enrich_EventID [simp]: "EventID (enrich cfg ev) = EventID ev"
  by (simp add: enrich_def Let_def)

end
