(* ===== verification/Detection.thy ===== *)
theory Detection
  imports Interfaces
begin

text \<open>
  Local detection, \<open>src/agent/internal/detection\<close>: the engine (\<open>engine.go\<close>), the IOC rule
  (\<open>rules.go\<close>) and the YARA rule (\<open>yara_rule.go\<close>). A rule is a record of the methods of the
  interface \<open>Rule\<close>; its \<open>Evaluate\<close> may panic. The SHA-1 UUIDs of \<open>google/uuid\<close>, the YARA-X scanner
  and the file system are parameters.
\<close>

section \<open>Rules\<close>

datatype rule_eval = EvalPanic | EvalErr go_error | EvalOk bool

record rule =
  rule_ID :: string
  rule_Version :: string
  rule_Severity :: string
  rule_Confidence :: f64
  rule_Reason :: string
  rule_AttckEnterprise :: "string list"
  rule_AttckICS :: "string list"
  rule_Evaluate :: "canonical_event \<Rightarrow> rule_eval"

definition ioc_Evaluate :: "canonical_event \<Rightarrow> rule_eval" where
  "ioc_Evaluate ev =
     (case Metadata ev of
        None \<Rightarrow> EvalOk False
      | Some m \<Rightarrow>
        (case m ''executable_path'' of
           None \<Rightarrow> EvalOk False
         | Some v \<Rightarrow>
           (case v of
              GStr s \<Rightarrow> EvalOk (s = ''/opt/malicious/bin/miner'')
            | _ \<Rightarrow> EvalOk False)))"

definition RealIOCExecRule :: rule where
  "RealIOCExecRule =
     \<lparr>rule_ID = ''LOCAL-IOC-EXEC-001'', rule_Version = ''1.0'', rule_Severity = ''CRITICAL'',
      rule_Confidence = Fin 100,
      rule_Reason = ''Deterministic IOC: Suspicious executable path detected'',
      rule_AttckEnterprise = [], rule_AttckICS = [], rule_Evaluate = ioc_Evaluate\<rparr>"

section \<open>The YARA rule\<close>

definition MaxArtifactSizeBytes :: int where
  "MaxArtifactSizeBytes = 50 * 1024 * 1024"

text \<open>The file system and the scanner; \<open>af_Content\<close> is what reading the open file to its end would
  give, and a scan gives the number of matching rules, or a nil result.\<close>

record artifact_env =
  af_Stat :: "string \<Rightarrow> go_error + int"
  af_Open :: "string \<Rightarrow> go_error option"
  af_Content :: "string \<Rightarrow> go_error + string"
  af_Scan :: "string \<Rightarrow> go_error + nat option"

definition evaluateFile :: "artifact_env \<Rightarrow> string \<Rightarrow> rule_eval" where
  "evaluateFile env path =
     (case af_Stat env path of
        Inl e \<Rightarrow> EvalErr (wrap_err (''failed to stat artifact at '' @ path @ '': '') e)
      | Inr sz \<Rightarrow>
      if sz > MaxArtifactSizeBytes
      then EvalErr (errors_New (''oversized artifact: '' @ path @ '' (size '' @ dec_int sz @
             '' bytes exceeds provisional limit of '' @ dec_int MaxArtifactSizeBytes @ '' bytes)''))
      else
      case af_Open env path of
        Some e \<Rightarrow> EvalErr (wrap_err (''failed to open artifact at '' @ path @ '': '') e)
      | None \<Rightarrow>
      case map_sum id (take (nat (MaxArtifactSizeBytes + 1))) (af_Content env path) of
        Inl e \<Rightarrow> EvalErr (wrap_err (''failed to read artifact at '' @ path @ '': '') e)
      | Inr data \<Rightarrow>
      if int (length data) > MaxArtifactSizeBytes
      then EvalErr (errors_New (''oversized artifact detected during read: '' @ path))
      else
      case af_Scan env data of
        Inl e \<Rightarrow> EvalErr (wrap_err (''YARA-X evaluation failed on artifact '' @ path @ '': '') e)
      | Inr matches \<Rightarrow> EvalOk (case matches of Some n \<Rightarrow> n > 0 | None \<Rightarrow> False))"

text \<open>\<open>ev.Metadata[key].(string)\<close> with a non-empty result.\<close>

definition path_of :: "metadata \<Rightarrow> string \<Rightarrow> string option" where
  "path_of m key =
     (case m key of
        Some (GStr p) \<Rightarrow> (if p \<noteq> [] then Some p else None)
      | _ \<Rightarrow> None)"

definition yara_Evaluate :: "artifact_env \<Rightarrow> canonical_event \<Rightarrow> rule_eval" where
  "yara_Evaluate env ev =
     (case Metadata ev of
        None \<Rightarrow> EvalOk False
      | Some m \<Rightarrow>
        (case path_of m ''file_path'' of
           Some p \<Rightarrow> evaluateFile env p
         | None \<Rightarrow>
           (case path_of m ''executable_path'' of
              Some p \<Rightarrow> evaluateFile env p
            | None \<Rightarrow> EvalOk False)))"

text \<open>\<open>NewYaraRule\<close>: the source is compiled once; \<open>compile\<close> gives the scanner of the compiled rules.\<close>

definition NewYaraRule ::
    "(string \<Rightarrow> go_error + artifact_env) \<Rightarrow> string \<Rightarrow> string \<Rightarrow> string \<Rightarrow> f64 \<Rightarrow> string \<Rightarrow>
     string list \<Rightarrow> string list \<Rightarrow> string \<Rightarrow> go_error + rule" where
  "NewYaraRule compile i version severity confidence reason ent ics source =
     (case compile source of
        Inl e \<Rightarrow> Inl (wrap_err ''failed to compile YARA rule source: '' e)
      | Inr env \<Rightarrow>
        Inr \<lparr>rule_ID = i, rule_Version = version, rule_Severity = severity,
             rule_Confidence = confidence, rule_Reason = reason, rule_AttckEnterprise = ent,
             rule_AttckICS = ics, rule_Evaluate = yara_Evaluate env\<rparr>)"

section \<open>The engine\<close>

text \<open>The package \<open>google/uuid\<close>: \<open>NewSHA1\<close> in the namespace of the engine, and \<open>Parse\<close>.\<close>

record uuid_pkg =
  uuid_NewSHA1 :: "string \<Rightarrow> string"
  uuid_Parse :: "string \<Rightarrow> go_error option"

definition dedupString :: "canonical_event \<Rightarrow> rule \<Rightarrow> string" where
  "dedupString ev r = TenantID ev @ '':'' @ rule_ID r @ '':'' @ rule_Version r @ '':'' @ EventID ev"

definition createFinding :: "uuid_pkg \<Rightarrow> canonical_event \<Rightarrow> rule \<Rightarrow> canonical_event" where
  "createFinding u ev r = zero_event
     \<lparr>EventID := uuid_NewSHA1 u (dedupString ev r),
      TenantID := TenantID ev, SiteID := SiteID ev, AssetID := AssetID ev, SensorID := SensorID ev,
      OccurredAt := OccurredAt ev,
      Source := ''local_detection'', Category := ''detection/finding'',
      Severity := rule_Severity r, Confidence := Some (rule_Confidence r),
      RuleID := rule_ID r, RuleVersion := rule_Version r,
      AttckEnterprise := rule_AttckEnterprise r, AttckICS := rule_AttckICS r,
      Metadata := Some [''reason'' \<mapsto> GStr (rule_Reason r),
                        ''evidence_event_ids'' \<mapsto> GList [GStr (EventID ev)]],
      SchemaVersion := CurrentSchemaVersion\<rparr>"

text \<open>One rule; a panic, an error, an invalid finding and a storage error are only logged.\<close>

definition evaluateRuleSafe ::
    "('s, 'e) storage_ops \<Rightarrow> uuid_pkg \<Rightarrow> 'e \<Rightarrow> canonical_event \<Rightarrow> rule \<Rightarrow> 's \<Rightarrow> 's" where
  "evaluateRuleSafe ops u env ev r s =
     (case rule_Evaluate r ev of
        EvalPanic \<Rightarrow> s
      | EvalErr _ \<Rightarrow> s
      | EvalOk matched \<Rightarrow>
        if matched then
          let finding = createFinding u ev r in
          case Validate (uuid_Parse u) finding of
            Some _ \<Rightarrow> s
          | None \<Rightarrow> fst (op_Store ops env finding s)
        else s)"

fun evaluate_rules ::
    "('s, 'e) storage_ops \<Rightarrow> uuid_pkg \<Rightarrow> (nat \<Rightarrow> 'e) \<Rightarrow> nat \<Rightarrow> canonical_event \<Rightarrow> rule list \<Rightarrow> 's \<Rightarrow> 's" where
  "evaluate_rules ops u env k ev [] s = s"
| "evaluate_rules ops u env k ev (r # rs) s =
     evaluate_rules ops u env (Suc k) ev rs (evaluateRuleSafe ops u (env k) ev r s)"

definition det_Evaluate ::
    "('s, 'e) storage_ops \<Rightarrow> uuid_pkg \<Rightarrow> (nat \<Rightarrow> 'e) \<Rightarrow> rule list \<Rightarrow> canonical_event \<Rightarrow> 's \<Rightarrow> 's" where
  "det_Evaluate ops u env rules ev s =
     (if Category ev = ''detection/finding'' then s else evaluate_rules ops u env 0 ev rules s)"

section \<open>Lemmas\<close>

text \<open>A finding of a valid event is valid when the rule is well described.\<close>

definition rule_ok :: "rule \<Rightarrow> bool" where
  "rule_ok r \<longleftrightarrow>
     rule_Severity r \<in> set severities \<and> \<not> confidence_bad (rule_Confidence r) \<and>
     RuneCountInString (rule_ID r) \<le> 255 \<and> RuneCountInString (rule_Version r) \<le> 64"

lemma RuneCount_short: "length s \<le> n \<Longrightarrow> RuneCountInString s \<le> n"
  using RuneCount_le_length [of s] by simp

lemma finding_valid:
  assumes "event_valid (uuid_Parse u) ev" "rule_ok r" "\<And>d. uuid_Parse u (uuid_NewSHA1 u d) = None"
  shows "Validate (uuid_Parse u) (createFinding u ev r) = None"
proof -
  have "RuneCountInString (AssetID ev) \<le> 128" "RuneCountInString (SensorID ev) \<le> 128"
    using assms(1) by (auto simp: event_valid_def field_limits_def)
  moreover have "RuneCountInString [] \<le> n" for n :: nat by (rule RuneCount_short) simp
  moreover have "RuneCountInString ''local_detection'' \<le> 255" "RuneCountInString ''detection/finding'' \<le> 255"
    by (rule RuneCount_short, simp)+
  ultimately show ?thesis
    using assms unfolding Validate_None_iff event_valid_def rule_ok_def confidence_bad_iff
    by (simp add: createFinding_def field_limits_def zero_event_def)
qed

lemma ioc_rule_ok: "rule_ok RealIOCExecRule"
proof -
  have "RuneCountInString ''LOCAL-IOC-EXEC-001'' \<le> 255" "RuneCountInString ''1.0'' \<le> 64"
    by (rule RuneCount_short, simp)+
  then show ?thesis
    by (simp add: rule_ok_def RealIOCExecRule_def severities_def confidence_bad_iff)
qed

text \<open>The identity of a finding determines tenant, rule, version and event.\<close>

lemma split_colon:
  "CHR '':'' \<notin> set a \<Longrightarrow> CHR '':'' \<notin> set a' \<Longrightarrow> a @ CHR '':'' # b = a' @ CHR '':'' # b' \<Longrightarrow> a = a' \<and> b = b'"
proof (induction a arbitrary: a')
  case Nil
  then show ?case by (cases a') auto
next
  case (Cons x a)
  then show ?case by (cases a') auto
qed

locale detection_storage = storage_contract
begin

lemma evaluateRuleSafe_keeps:
  assumes "inv s" "env_ok e" "held s j" "\<not> prunable s j"
  shows "inv (evaluateRuleSafe ops u e ev r s) \<and> held (evaluateRuleSafe ops u e ev r s) j \<and>
    \<not> prunable (evaluateRuleSafe ops u e ev r s) j"
  using assms Store_inv Store_keeps
  by (auto simp: evaluateRuleSafe_def Let_def split: rule_eval.splits option.splits)

lemma evaluate_rules_keeps:
  assumes "inv s" "\<And>k. env_ok (env k)" "held s j" "\<not> prunable s j"
  shows "inv (evaluate_rules ops u env k ev rs s) \<and> held (evaluate_rules ops u env k ev rs s) j \<and>
    \<not> prunable (evaluate_rules ops u env k ev rs s) j"
  using assms
proof (induction rs arbitrary: k s)
  case (Cons r rs)
  then show ?case using evaluateRuleSafe_keeps [of s "env k" j u ev r] by simp
qed simp

lemma det_Evaluate_keeps:
  assumes "inv s" "\<And>k. env_ok (env k)" "held s j" "\<not> prunable s j"
  shows "inv (det_Evaluate ops u env rules ev s) \<and> held (det_Evaluate ops u env rules ev s) j \<and>
    \<not> prunable (det_Evaluate ops u env rules ev s) j"
  using assms evaluate_rules_keeps by (simp add: det_Evaluate_def)

end

section \<open>Properties\<close>

text \<open>
  The finding of every well-described rule for a valid event is itself a valid event, so it is
  never discarded by the validation of the engine.
\<close>

theorem createFinding_valid:
  assumes "Validate (uuid_Parse u) ev = None" "rule_ok r" "\<And>d. uuid_Parse u (uuid_NewSHA1 u d) = None"
  shows "Validate (uuid_Parse u) (createFinding u ev r) = None"
  using finding_valid [of u ev r] assms by (simp add: Validate_None_iff)

theorem createFinding_valid_witness:
  "Validate (\<lambda>_. None) (createFinding \<lparr>uuid_NewSHA1 = id, uuid_Parse = (\<lambda>_. None)\<rparr> sample_event RealIOCExecRule) = None"
  using createFinding_valid [of "\<lparr>uuid_NewSHA1 = id, uuid_Parse = (\<lambda>_. None)\<rparr>" sample_event RealIOCExecRule]
    sample_event_valid ioc_rule_ok by simp

text \<open>
  The name a finding id is derived from identifies its origin: two findings of rules and tenants
  whose identifiers have no colon get the same name only for the same tenant, rule, version and
  event.
\<close>

theorem dedupString_inj:
  assumes "dedupString ev r = dedupString ev' r'"
    "CHR '':'' \<notin> set (TenantID ev) \<union> set (rule_ID r) \<union> set (rule_Version r)"
    "CHR '':'' \<notin> set (TenantID ev') \<union> set (rule_ID r') \<union> set (rule_Version r')"
  shows "TenantID ev = TenantID ev' \<and> rule_ID r = rule_ID r' \<and> rule_Version r = rule_Version r' \<and>
    EventID ev = EventID ev'"
proof -
  from assms have a: "TenantID ev = TenantID ev' \<and>
      rule_ID r @ CHR '':'' # rule_Version r @ CHR '':'' # EventID ev =
      rule_ID r' @ CHR '':'' # rule_Version r' @ CHR '':'' # EventID ev'"
    by (intro split_colon) (auto simp: dedupString_def)
  with assms have b: "rule_ID r = rule_ID r' \<and>
      rule_Version r @ CHR '':'' # EventID ev = rule_Version r' @ CHR '':'' # EventID ev'"
    by (intro split_colon) auto
  with assms have "rule_Version r = rule_Version r' \<and> EventID ev = EventID ev'"
    by (intro split_colon) auto
  with a b show ?thesis by simp
qed

theorem dedupString_inj_witness:
  "\<not> (TenantID sample_event = TenantID zero_event) \<and>
   dedupString sample_event RealIOCExecRule \<noteq> dedupString zero_event RealIOCExecRule"
proof -
  have c: "CHR '':'' \<notin> set (TenantID sample_event) \<union> set (rule_ID RealIOCExecRule) \<union> set (rule_Version RealIOCExecRule)"
    "CHR '':'' \<notin> set (TenantID zero_event) \<union> set (rule_ID RealIOCExecRule) \<union> set (rule_Version RealIOCExecRule)"
    by code_simp+
  have n: "TenantID sample_event \<noteq> TenantID zero_event" by code_simp
  then show ?thesis using dedupString_inj [OF _ c] by blast
qed

text \<open>
  The YARA rule reports a match only for an artifact within the size limit: the file was at most
  50 MiB when it was examined, and so was the content handed to the scanner, even if the file grew
  in between; no other data reaches the scanner.
\<close>

theorem evaluateFile_bounded:
  assumes "evaluateFile env path = EvalOk True"
  shows "\<exists>sz data. af_Stat env path = Inr sz \<and> sz \<le> MaxArtifactSizeBytes \<and>
    af_Content env path = Inr data \<and> int (length data) \<le> MaxArtifactSizeBytes \<and>
    (\<exists>n > 0. af_Scan env data = Inr (Some n))"
proof -
  obtain sz d where s: "af_Stat env path = Inr sz" "sz \<le> MaxArtifactSizeBytes"
    "af_Content env path = Inr d"
    using assms
    by (cases "af_Content env path") (auto simp: evaluateFile_def split: sum.splits if_splits option.splits)
  let ?t = "take (nat (MaxArtifactSizeBytes + 1)) d"
  have l: "int (length ?t) \<le> MaxArtifactSizeBytes" and n: "\<exists>n > 0. af_Scan env ?t = Inr (Some n)"
    using assms s by (auto simp: evaluateFile_def split: sum.splits if_splits option.splits)
  from l have "?t = d" by (simp add: MaxArtifactSizeBytes_def min_def split: if_splits)
  with s l n show ?thesis by metis
qed

theorem evaluateFile_bounded_witness:
  "\<exists>sz data. af_Stat \<lparr>af_Stat = (\<lambda>_. Inr 3), af_Open = (\<lambda>_. None), af_Content = (\<lambda>_. Inr ''abc''),
      af_Scan = (\<lambda>d. Inr (Some (length d)))\<rparr> ''/f'' = Inr sz \<and> sz \<le> MaxArtifactSizeBytes \<and>
    data = ''abc'' \<and> int (length data) \<le> MaxArtifactSizeBytes"
proof -
  let ?e = "\<lparr>af_Stat = (\<lambda>_. Inr 3), af_Open = (\<lambda>_. None), af_Content = (\<lambda>_. Inr ''abc''),
      af_Scan = (\<lambda>d. Inr (Some (length d)))\<rparr>"
  have "evaluateFile ?e ''/f'' = EvalOk True" by (simp add: evaluateFile_def MaxArtifactSizeBytes_def)
  from evaluateFile_bounded [OF this] show ?thesis by auto
qed

end
