(* ===== verification/Agent.thy ===== *)
theory Agent
  imports Storage_Theorems Forwarder Ingestion Detection
begin

text \<open>
  The endpoint agent: the edge storage with the ingestion engine, the detection engine and the
  forwarder working on it, as \<open>src/agent/cmd/endpoint/main.go\<close> puts them together. The mutex of the
  storage makes each storage operation one step, and the steps of the components interleave in any
  order. The state remembers the ids of the events the server accepted.
\<close>

section \<open>Steps\<close>

record agent =
  ag_db :: sqlite_storage
  ag_fwd :: forwarder
  ag_batch :: "canonical_event list"
  ag_accepted :: "string set"

text \<open>The request for the event was sent and answered with 202.\<close>

definition posted :: "codec \<Rightarrow> forwarder \<Rightarrow> 'e send_env \<Rightarrow> canonical_event \<Rightarrow> bool" where
  "posted js f env ev \<longleftrightarrow>
     TenantID ev = fwd_tenantID f \<and> (\<exists>p. json_Marshal js ev = Inr p) \<and> se_NewRequest env = None \<and>
     accepted env"

text \<open>What the next process finds of the storage after a crash or a shutdown: the files.\<close>

definition reopened :: "sqlite_storage \<Rightarrow> sqlite_storage" where
  "reopened s = NewSQLiteStorage (dbPath s) (identityPath s) (quotaBytes s) (disk s) (corrupt_backup s) (identity_file s)"

inductive agent_step :: "codec \<Rightarrow> (string \<Rightarrow> string \<Rightarrow> go_time option) \<Rightarrow> agent \<Rightarrow> agent \<Rightarrow> bool" for js tp where
  agent_Store: "driver_ok env \<Longrightarrow> agent_step js tp a (a\<lparr>ag_db := fst (Store js env ev (ag_db a))\<rparr>)"
| agent_MoveToDLQ: "agent_step js tp a (a\<lparr>ag_db := fst (MoveToDLQ js env ev ft fr (ag_db a))\<rparr>)"
| agent_fetch: "GetPendingEvents js env 50 (ag_db a) = (db, r) \<Longrightarrow>
    agent_step js tp a (a\<lparr>ag_db := db, ag_batch := (case r of Inl e \<Rightarrow> [] | Inr evs \<Rightarrow> evs)\<rparr>)"
| agent_send: "ag_batch a = ev # evs \<Longrightarrow>
    sendEvent js (sqlite_ops js tp) env ev (ag_fwd a, ag_db a) = (f, db) \<Longrightarrow>
    agent_step js tp a \<lparr>ag_db = db, ag_fwd = f, ag_batch = evs,
      ag_accepted = (if posted js (ag_fwd a) env ev then insert (EventID ev) (ag_accepted a) else ag_accepted a)\<rparr>"
| agent_abort: "agent_step js tp a (a\<lparr>ag_batch := []\<rparr>)"
| agent_restart: "Init tp env (reopened (ag_db a)) = (db, err) \<Longrightarrow> \<not> corrupt_backup db \<Longrightarrow>
    agent_step js tp a \<lparr>ag_db = db, ag_fwd = NewForwarder url tenant, ag_batch = [], ag_accepted = ag_accepted a\<rparr>"

text \<open>The clients on the SQLite storage.\<close>

interpretation fwd: forwarder_storage "sqlite_ops js tp" "\<lambda>s. storage_inv (disk s)"
  "\<lambda>e. driver_ok (store_env.truncate e)" sqlite_held sqlite_prunable
  by unfold_locales

interpretation ing: ingestion_storage "sqlite_ops js tp" "\<lambda>s. storage_inv (disk s)"
  "\<lambda>e. driver_ok (store_env.truncate e)" sqlite_held sqlite_prunable
  by unfold_locales

interpretation det: detection_storage "sqlite_ops js tp" "\<lambda>s. storage_inv (disk s)"
  "\<lambda>e. driver_ok (store_env.truncate e)" sqlite_held sqlite_prunable
  by unfold_locales

text \<open>A more precise form of the forwarder's promise: without a 202 for the event nothing is lost.\<close>

lemma sendEvent_posted:
  assumes "sqlite_held s j" "\<not> (posted js f env ev \<and> j = EventID ev)"
  shows "sqlite_held (snd (sendEvent js (sqlite_ops js tp) env ev (f, s))) j"
  using assms
  by (auto simp: sendEvent_def posted_def accepted_def Let_def sqlite.Mark_keeps sqlite.Move_keeps
      sqlite.Remove_keeps split: sum.splits option.splits)

text \<open>Opening the database keeps the events and the dead letters, unless it sets a corrupted file aside.\<close>

definition rows_kept :: "sqlite_storage \<Rightarrow> sqlite_storage \<Rightarrow> bool" where
  "rows_kept s s' \<longleftrightarrow>
     map (\<lambda>r. (er_event_id r, er_severity r)) (tbl_events (disk s')) = map (\<lambda>r. (er_event_id r, er_severity r)) (tbl_events (disk s)) \<and>
     tbl_dlq (disk s') = tbl_dlq (disk s)"

lemma set_stamp_keeps: "er_event_id (fold set_stamp us r) = er_event_id r \<and> er_severity (fold set_stamp us r) = er_severity r"
  by (induction us arbitrary: r) (auto simp: set_stamp_def)

lemma migrate_rows_kept: "rows_kept s (fst (migrateRetryTimestamps tp env s))"
proof -
  obtain s' err where m: "migrateRetryTimestamps tp env s = (s', err)" by (metis surj_pair)
  from migrate_cases [OF m] show ?thesis by (auto simp: m rows_kept_def set_stamp_keeps)
qed

lemma Init_rows_kept: "rows_kept s (fst (Init tp env s)) \<or> corrupt_backup (fst (Init tp env s))"
proof -
  obtain s1 e1 where id: "initIdentity env (s\<lparr>db_handle := DBOpen\<rparr>) = (s1, e1)" by (metis surj_pair)
  have k1: "rows_kept s s1" using id by (cases rule: initIdentity_cases) (auto simp: rows_kept_def)
  have k2: "rows_kept s (fst (migrateRetryTimestamps tp (store_env.truncate env) s1))"
    using k1 migrate_rows_kept [of s1 tp "store_env.truncate env"] by (simp add: rows_kept_def)
  have k3: "rows_kept s (s1\<lparr>db_handle := DBNil\<rparr>)" using k1 by (simp add: rows_kept_def)
  have deg: "rows_kept s (fst (degradeStorage env e s)) \<or> corrupt_backup (fst (degradeStorage env e s))" for e
  proof -
    obtain s' er where "degradeStorage env e s = (s', er)" by (metis surj_pair)
    with degrade_agent [OF this] show ?thesis by (auto simp: rows_kept_def)
  qed
  have "rows_kept s s" by (simp add: rows_kept_def)
  with k2 k3 deg id show ?thesis by (cases e1) (auto simp: Init_def split: option.splits)
qed

lemma rows_kept_same:
  assumes "rows_kept s s'"
  shows "sqlite_held s' i = sqlite_held s i" "sqlite_prunable s' i = sqlite_prunable s i"
proof -
  from assms have eq: "(\<lambda>r. (er_event_id r, er_severity r)) ` set (tbl_events (disk s')) = (\<lambda>r. (er_event_id r, er_severity r)) ` set (tbl_events (disk s))"
    and dlq: "tbl_dlq (disk s') = tbl_dlq (disk s)"
    by (auto simp: rows_kept_def simp flip: set_map)
  have "event_ids (disk x) = fst ` (\<lambda>r. (er_event_id r, er_severity r)) ` set (tbl_events (disk x))" for x :: sqlite_storage
    by (simp add: event_ids_def image_image)
  with eq dlq show "sqlite_held s' i = sqlite_held s i" by (simp add: sqlite_held_def dlq_ids_def)
  have "sqlite_prunable x i \<longleftrightarrow> (\<exists>p \<in> (\<lambda>r. (er_event_id r, er_severity r)) ` set (tbl_events (disk x)). fst p = i \<and> snd p \<in> set prunableSeverities)" for x
    by (auto simp: sqlite_prunable_def)
  with eq show "sqlite_prunable s' i = sqlite_prunable s i" by metis
qed

lemma restart_kept:
  assumes "Init tp env (reopened s) = (db, err)" "\<not> corrupt_backup db"
  shows "sqlite_held db i = sqlite_held s i" "sqlite_prunable db i = sqlite_prunable s i"
proof -
  have "rows_kept (reopened s) db" using Init_rows_kept [of "reopened s" tp env] assms by simp
  then have "rows_kept s db" by (simp add: rows_kept_def reopened_def NewSQLiteStorage_def)
  then show "sqlite_held db i = sqlite_held s i" "sqlite_prunable db i = sqlite_prunable s i"
    by (rule rows_kept_same)+
qed

text \<open>The event is safe: the server accepted it, or it is durable and the quota will not discard it.\<close>

definition safe_event :: "agent \<Rightarrow> string \<Rightarrow> bool" where
  "safe_event a i \<longleftrightarrow>
     i \<in> ag_accepted a \<or> sqlite_held (ag_db a) i \<and> \<not> sqlite_prunable (ag_db a) i"

lemma agent_step_inv:
  "agent_step js tp a b \<Longrightarrow> storage_inv (disk (ag_db a)) \<Longrightarrow> storage_inv (disk (ag_db b))"
proof (induction rule: agent_step.induct)
  case (agent_fetch env a db r)
  then show ?case using kept_inv [OF GetPending_kept [OF agent_fetch(1)]] by simp
next
  case (agent_send a ev evs env f db)
  have "storage_inv (disk (snd (sendEvent js (sqlite_ops js tp) env ev (ag_fwd a, ag_db a))))"
    using agent_send(3) by (rule fwd.sendEvent_inv)
  with agent_send(2) show ?case by simp
next
  case (agent_restart env a db err url tenant)
  have "storage_inv (disk (reopened (ag_db a)))"
    using agent_restart(3) by (simp add: reopened_def NewSQLiteStorage_def)
  with agent_restart(1) show ?case using Init_inv by fastforce
qed (auto simp: op_inv)

lemma agent_step_safe:
  "agent_step js tp a b \<Longrightarrow> storage_inv (disk (ag_db a)) \<Longrightarrow> safe_event a i \<Longrightarrow> safe_event b i"
proof (induction rule: agent_step.induct)
  case (agent_Store env a ev)
  then show ?case
    using sqlite_Store_keeps [of "ag_db a" env i js ev "fst (Store js env ev (ag_db a))"]
    by (auto simp: safe_event_def) (metis prod.collapse)+
next
  case (agent_MoveToDLQ a env ev ft fr)
  then show ?case
    using kept_held [OF MoveToDLQ_kept] kept_prunable [OF MoveToDLQ_kept] by (auto simp: safe_event_def)
next
  case (agent_fetch env a db r)
  then show ?case
    using kept_held [OF GetPending_kept [OF agent_fetch(1)]] kept_prunable [OF GetPending_kept [OF agent_fetch(1)]]
    by (auto simp: safe_event_def)
next
  case (agent_send a ev evs env f db)
  have "sqlite_prunable (snd (sendEvent js (sqlite_ops js tp) env ev (ag_fwd a, ag_db a))) i \<Longrightarrow>
      sqlite_prunable (ag_db a) i" by (rule fwd.sendEvent_prunable)
  with agent_send show ?case
    using sendEvent_posted [of "ag_db a" i js "ag_fwd a" env ev tp] by (auto simp: safe_event_def)
next
  case (agent_restart env a db err url tenant)
  then show ?case using restart_kept by (simp add: safe_event_def)
qed (auto simp: safe_event_def)

lemma agent_steps_safe:
  "(agent_step js tp)\<^sup>*\<^sup>* a b \<Longrightarrow> storage_inv (disk (ag_db a)) \<Longrightarrow> safe_event a i \<Longrightarrow>
   storage_inv (disk (ag_db b)) \<and> safe_event b i"
  by (induction rule: rtranclp_induct) (auto intro: agent_step_inv agent_step_safe)

lemma Store_critical_safe:
  assumes inv: "storage_inv (disk s)" and ok: "driver_ok env" and st: "Store js env ev s = (s', ev', None)"
    and new: "EventID ev \<notin> event_ids (disk s) \<union> dlq_ids (disk s)"
    and crit: "is_critical (Severity ev)"
  shows "sqlite_held s' (EventID ev) \<and> \<not> sqlite_prunable s' (EventID ev)"
  using inv ok st new
proof (cases rule: Store_new_cases)
  case (committed d a payload)
  have "Severity ev' = Severity ev" "EventID ev' = EventID ev" using committed(4) by simp_all
  moreover have "er_event_id r \<noteq> EventID ev" if "r \<in> set (tbl_events d)" for r
    using committed(7) that by (force simp: event_ids_def)
  moreover have "Severity ev \<notin> set prunableSeverities"
    using crit by (auto simp: is_critical_def prunableSeverities_def)
  ultimately show ?thesis
    using committed(6) by (auto simp: sqlite_held_def sqlite_prunable_def event_ids_def)
qed simp_all

section \<open>Properties\<close>

text \<open>
  No loss of critical telemetry: when \<open>Store\<close> reports success for a new CRITICAL or FATAL event,
  then after any interleaving of storing further events, quota pruning, dead-lettering, fetching,
  sending and aborting batches, crashes and restarts included, with any faults of the driver and
  of the network, the server has accepted the event or it is still durable in the storage (as
  long as the database file is not set aside as corrupted).
\<close>

theorem critical_event_not_lost:
  assumes inv: "storage_inv (disk (ag_db a))" and ok: "driver_ok env"
    and st: "Store js env ev (ag_db a) = (s', ev', None)"
    and new: "EventID ev \<notin> event_ids (disk (ag_db a)) \<union> dlq_ids (disk (ag_db a))"
    and crit: "Severity ev \<in> {''CRITICAL'', ''FATAL''}"
    and steps: "(agent_step js tp)\<^sup>*\<^sup>* (a\<lparr>ag_db := s'\<rparr>) b"
  shows "EventID ev \<in> ag_accepted b \<or> EventID ev \<in> event_ids (disk (ag_db b)) \<union> dlq_ids (disk (ag_db b))"
proof -
  have "is_critical (Severity ev)" using crit by (auto simp: is_critical_def)
  then have "safe_event (a\<lparr>ag_db := s'\<rparr>) (EventID ev)"
    using Store_critical_safe [OF inv ok st new] by (simp add: safe_event_def)
  moreover have "storage_inv (disk (ag_db (a\<lparr>ag_db := s'\<rparr>)))" using Store_inv [OF inv ok st] by simp
  ultimately have "safe_event b (EventID ev)" using agent_steps_safe [OF steps] by blast
  then show ?thesis by (auto simp: safe_event_def sqlite_held_def)
qed

definition critical_event :: canonical_event where
  "critical_event = sample_event\<lparr>Severity := ''CRITICAL''\<rparr>"

definition demo_agent :: agent where
  "demo_agent = \<lparr>ag_db = demo_store, ag_fwd = NewForwarder ''http://host'' ''tenant-alpha'', ag_batch = [],
     ag_accepted = {}\<rparr>"

theorem critical_event_not_lost_witness:
  "EventID critical_event \<in> event_ids (disk (fst (Store demo_codec demo_env critical_event demo_store))) \<union>
     dlq_ids (disk (fst (Store demo_codec demo_env critical_event demo_store)))"
proof -
  let ?st = "Store demo_codec demo_env critical_event demo_store"
  have "snd (snd ?st) = None" by code_simp
  then have st: "Store demo_codec demo_env critical_event (ag_db demo_agent) = (fst ?st, fst (snd ?st), None)"
    by (metis demo_agent_def agent.select_convs(1) prod.collapse)
  have inv: "storage_inv (disk (ag_db demo_agent))" using demo_store_inv by (simp add: demo_agent_def)
  have new: "EventID critical_event \<notin> event_ids (disk (ag_db demo_agent)) \<union> dlq_ids (disk (ag_db demo_agent))"
    by code_simp
  have crit: "Severity critical_event \<in> {''CRITICAL'', ''FATAL''}" by (simp add: critical_event_def)
  have "(agent_step demo_codec (\<lambda>_ _. None))\<^sup>*\<^sup>* (demo_agent\<lparr>ag_db := fst ?st\<rparr>)
      (demo_agent\<lparr>ag_db := fst ?st, ag_batch := []\<rparr>)"
    using agent_abort [of demo_codec "\<lambda>_ _. None" "demo_agent\<lparr>ag_db := fst ?st\<rparr>"] by (rule r_into_rtranclp)
  from critical_event_not_lost [OF inv demo_driver_ok st new crit this] show ?thesis
    by (simp add: demo_agent_def)
qed

text \<open>
  The forwarder removes an event only after the server accepted it: an event that was in the
  storage and is not after \<open>processPending\<close> was in the batch, and the answer to its request was 202.
\<close>

theorem processPending_removes_accepted:
  assumes "sqlite_held s i" "\<not> sqlite_held (snd (processPending js (sqlite_ops js tp) env (f, s))) i"
  shows "\<exists>s1 evs k resp. GetPendingEvents js (store_env.truncate (pe_get env)) 50 s = (s1, Inr evs) \<and>
    k < length evs \<and> EventID (evs ! k) = i \<and> se_Do (pe_send env k) = Inr resp \<and> StatusCode resp = 202"
  using fwd.processPending_keeps [OF assms] by (fastforce simp: sqlite_ops_def accepted_def)

text \<open>A server that accepts everything.\<close>

definition demo_send :: "init_env send_env" where
  "demo_send = \<lparr>se_store = demo_init_env, se_NewRequest = None,
     se_Do = Inr \<lparr>StatusCode = 202, resp_Body = [], hdr_RetryAfter = []\<rparr>, se_ctx_done = False\<rparr>"

definition demo_pending :: "init_env pending_env" where
  "demo_pending = \<lparr>pe_get = demo_init_env, pe_ctx_done = (\<lambda>_. False), pe_send = (\<lambda>_. demo_send)\<rparr>"

text \<open>A codec that reads back what it wrote, for the sample event.\<close>

definition echo_codec :: codec where
  "echo_codec = demo_codec\<lparr>json_Unmarshal := (\<lambda>_. Inr sample_event)\<rparr>"

theorem processPending_removes_accepted_witness:
  "\<exists>s1 evs k resp. GetPendingEvents echo_codec (store_env.truncate (pe_get demo_pending)) 50 demo_store1 = (s1, Inr evs) \<and>
    k < length evs \<and> EventID (evs ! k) = EventID sample_event \<and>
    se_Do (pe_send demo_pending k) = Inr resp \<and> StatusCode resp = 202"
proof (rule processPending_removes_accepted)
  show "sqlite_held demo_store1 (EventID sample_event)" by code_simp
  show "\<not> sqlite_held (snd (processPending echo_codec (sqlite_ops echo_codec (\<lambda>_ _. None)) demo_pending
      (NewForwarder ''http://host'' ''tenant-alpha'', demo_store1))) (EventID sample_event)" by code_simp
qed


definition demo_cfg :: "(sqlite_storage, init_env) ingest_config" where
  "demo_cfg = \<lparr>cfg_TenantID = ''tenant-alpha'', cfg_SiteID = ''site-primary'', cfg_AssetID = ''device'',
     RetryDelay = 0, EmergencySpillPath = [], OnCommitted = None, has_OnDropped = False, has_OnDLQ = False,
     has_OnFatal = False, TestInjectError = None\<rparr>"

definition demo_ingest_env :: "init_env ingest_env" where
  "demo_ingest_env = \<lparr>ie_store = (\<lambda>_ _. demo_init_env), ie_dlq = (\<lambda>_. demo_init_env), ie_start_done = False,
     ie_select_done = (\<lambda>_. False), ie_ctx_done = (\<lambda>_. False),
     ie_spill = \<lparr>sp_OpenFile = None, sp_Write = (0, None), sp_Sync = None, sp_Close = None\<rparr>\<rparr>"


text \<open>
  Findings are stored once: evaluating a rule again for the same event, after its finding was
  stored, changes nothing in the storage.
\<close>

theorem finding_stored_once:
  assumes inv: "storage_inv (disk s)" and ok: "driver_ok (store_env.truncate e1)"
    and st: "Store js (store_env.truncate e1) (createFinding u ev r) s = (s1, f1, None)"
    and sel: "call_err (store_env.truncate e2) s1 StoreSelectEvent 0 = None"
      "call_err (store_env.truncate e2) s1 StoreSelectDlq 0 = None"
  shows "evaluateRuleSafe (sqlite_ops js tp) u e2 ev r s1 = s1"
proof -
  have "(createFinding u ev r)\<lparr>SeqNo := 0\<rparr> = createFinding u ev r"
    by (simp add: createFinding_def zero_event_def)
  with Store_again [OF inv ok st sel, of 0]
  have "Store js (store_env.truncate e2) (createFinding u ev r) s1 = (s1, f1, None)" by simp
  then show ?thesis
    by (simp add: evaluateRuleSafe_def sqlite_ops_def Let_def split: rule_eval.split option.split)
qed

text \<open>
  An event that cannot be serialised is stuck: the forwarder hands it to \<open>MoveToDLQ\<close>, which
  serialises it again and fails too, so the storage is unchanged, the event stays due and is tried
  again with every batch.
\<close>

theorem sendEvent_unserialisable_stuck:
  assumes "json_Marshal js ev = Inl err"
  shows "snd (sendEvent js (sqlite_ops js tp) env ev (f, s)) = s"
  using assms by (simp add: sendEvent_def sqlite_ops_def MoveToDLQ_def Serialize_def)

definition nan_codec :: codec where
  "nan_codec = demo_codec\<lparr>json_Marshal := (\<lambda>_. Inl (errors_New ''unsupported value''))\<rparr>"

theorem sendEvent_unserialisable_stuck_witness:
  "sqlite_held (snd (sendEvent nan_codec (sqlite_ops nan_codec (\<lambda>_ _. None)) demo_send sample_event
     (NewForwarder ''http://host'' ''tenant-alpha'', demo_store1))) (EventID sample_event)"
proof -
  have "json_Marshal nan_codec sample_event = Inl (errors_New ''unsupported value'')"
    by (simp add: nan_codec_def)
  moreover have "sqlite_held demo_store1 (EventID sample_event)" by code_simp
  ultimately show ?thesis using sendEvent_unserialisable_stuck [of nan_codec sample_event] by simp
qed

definition demo_uuid :: uuid_pkg where
  "demo_uuid = \<lparr>uuid_NewSHA1 = (\<lambda>n. ''id-'' @ n), uuid_Parse = (\<lambda>_. None)\<rparr>"

theorem finding_stored_once_witness:
  "\<exists>s1 f1. Store demo_codec demo_env (createFinding demo_uuid sample_event RealIOCExecRule) demo_store = (s1, f1, None) \<and>
     evaluateRuleSafe (sqlite_ops demo_codec (\<lambda>_ _. None)) demo_uuid demo_init_env sample_event
       (RealIOCExecRule\<lparr>rule_Evaluate := (\<lambda>_. EvalOk True)\<rparr>) s1 = s1"
proof -
  let ?r = "RealIOCExecRule\<lparr>rule_Evaluate := (\<lambda>_. EvalOk True)\<rparr>"
  let ?st = "Store demo_codec demo_env (createFinding demo_uuid sample_event ?r) demo_store"
  have t: "store_env.truncate demo_init_env = demo_env"
    by (simp add: demo_init_env_def demo_env_def store_env.defs init_env.defs)
  have same: "createFinding demo_uuid sample_event ?r = createFinding demo_uuid sample_event RealIOCExecRule"
    by (simp add: createFinding_def dedupString_def)
  have "snd (snd ?st) = None" by code_simp
  then have st: "?st = (fst ?st, fst (snd ?st), None)" by (metis prod.collapse)
  have "call_err demo_env (fst ?st) StoreSelectEvent 0 = None" "call_err demo_env (fst ?st) StoreSelectDlq 0 = None"
    by code_simp+
  then have "evaluateRuleSafe (sqlite_ops demo_codec (\<lambda>_ _. None)) demo_uuid demo_init_env sample_event ?r (fst ?st) = fst ?st"
    using finding_stored_once [of demo_store demo_init_env demo_codec demo_uuid sample_event ?r "fst ?st" "fst (snd ?st)" demo_init_env]
      demo_store_inv demo_driver_ok st by (simp add: t)
  with st same show ?thesis by metis
qed

section \<open>Progress of the forwarder\<close>

lemma MoveToDLQ_fault_free:
  assumes inv: "storage_inv (disk s)" and ff: "fault_free env" "db_handle s = DBOpen"
    and ser: "json_Marshal js ev = Inr p" and i: "EventID ev \<in> event_ids (disk s)"
  shows "EventID ev \<notin> event_ids (disk (fst (MoveToDLQ js env ev ft fr s)))"
proof -
  have "select_dlq (disk s) (EventID ev) = None"
    using inv i by (auto simp: storage_inv_def select_dlq_None)
  then show ?thesis
    using ser fault_free_call [OF ff] ff(2)
    by (auto simp: MoveToDLQ_def Serialize_def moveRawToDLQLocked_def Let_def query_row_def)
qed

lemma RemoveEvent_fault_free:
  assumes "fault_free env" "db_handle s = DBOpen"
  shows "i \<notin> event_ids (disk (fst (RemoveEvent env i s)))"
  using fault_free_call [OF assms] assms(2) by (simp add: RemoveEvent_def)

lemma MarkFailed_fault_free:
  assumes "fault_free env" "db_handle s = DBOpen" "i \<in> event_ids (disk s)"
  shows "snd (MarkFailed env i ra s) = None"
proof -
  obtain r where "select_event (disk s) i = Some r"
    using assms(3) select_event_None [of "disk s" i] by auto
  then show ?thesis using fault_free_call [OF assms(1,2)] assms(2) by (simp add: MarkFailed_def Let_def)
qed

lemma MarkFailed_later:
  assumes ff: "fault_free env" "db_handle s = DBOpen" "i \<in> event_ids (disk s)"
    and clock: "unix_epoch \<le> env_now_jitter env" "is_int64 (env_now_jitter env - unix_epoch)"
    and r: "r \<in> set (tbl_events (disk (fst (MarkFailed env i ra s))))" "er_event_id r = i"
  shows "\<not> is_due env r"
proof -
  have "MarkFailed env i ra s = (fst (MarkFailed env i ra s), None)"
    using MarkFailed_fault_free [OF ff] by (metis prod.collapse)
  from MarkFailed_wait [OF this clock r] show ?thesis
    by (auto simp: is_due_def split: if_splits)
qed

text \<open>
  C39. No busy loop: when the storage works, an event the forwarder has handled is not due any more:
  it has left the table of waiting events, or its next attempt lies in the future, whatever the
  server answered.
\<close>

theorem sendEvent_not_due:
  assumes inv: "storage_inv (disk s)"
    and ff: "fault_free (store_env.truncate (se_store env))" "db_handle s = DBOpen"
    and clock: "unix_epoch \<le> env_now_jitter (store_env.truncate (se_store env))"
      "is_int64 (env_now_jitter (store_env.truncate (se_store env)) - unix_epoch)"
    and ev: "EventID ev \<in> event_ids (disk s)" "json_Marshal js ev = Inr p"
    and r: "r \<in> set (tbl_events (disk (snd (sendEvent js (sqlite_ops js tp) env ev (f, s)))))"
      "er_event_id r = EventID ev"
  shows "\<not> is_due (store_env.truncate (se_store env)) r"
proof -
  let ?e = "store_env.truncate (se_store env)"
  let ?s' = "snd (sendEvent js (sqlite_ops js tp) env ev (f, s))"
  have in': "EventID ev \<in> event_ids (disk ?s')" using r by (force simp: event_ids_def)
  have "(\<exists>ra. ?s' = fst (MarkFailed ?e (EventID ev) ra s)) \<or>
      (\<exists>ft fr. ?s' = fst (MoveToDLQ js ?e ev ft fr s)) \<or> ?s' = fst (RemoveEvent ?e (EventID ev) s)"
    using ev(2) by (auto simp: sendEvent_def sqlite_ops_def Let_def split: option.splits sum.splits)
  then obtain ra where "?s' = fst (MarkFailed ?e (EventID ev) ra s)"
    using in' MoveToDLQ_fault_free [OF inv ff ev(2,1)] RemoveEvent_fault_free [OF ff, of "EventID ev"] by metis
  with r show ?thesis using MarkFailed_later [OF ff ev(1) clock] by metis
qed

theorem sendEvent_not_due_witness:
  "\<exists>r \<in> set (tbl_events (disk (snd (sendEvent demo_codec (sqlite_ops demo_codec (\<lambda>_ _. None))
      (demo_send\<lparr>se_Do := Inl (errors_New ''refused'')\<rparr>) sample_event
      (NewForwarder ''http://host'' ''tenant-alpha'', demo_store1))))). \<not> is_due demo_env r"
proof -
  let ?env = "demo_send\<lparr>se_Do := Inl (errors_New ''refused'')\<rparr>"
  let ?x = "sendEvent demo_codec (sqlite_ops demo_codec (\<lambda>_ _. None)) ?env sample_event
      (NewForwarder ''http://host'' ''tenant-alpha'', demo_store1)"
  have t: "store_env.truncate (se_store ?env) = demo_env"
    by (simp add: demo_send_def demo_init_env_def demo_env_def store_env.defs init_env.defs)
  have ne: "tbl_events (disk (snd ?x)) \<noteq> []" by code_simp
  have i: "er_event_id (hd (tbl_events (disk (snd ?x)))) = EventID sample_event" by code_simp
  have "\<not> is_due (store_env.truncate (se_store ?env)) (hd (tbl_events (disk (snd ?x))))"
  proof (rule sendEvent_not_due [OF demo_store1_inv])
    show "fault_free (store_env.truncate (se_store ?env))" unfolding t by (rule demo_fault_free)
    show "db_handle demo_store1 = DBOpen" by code_simp
    show "unix_epoch \<le> env_now_jitter (store_env.truncate (se_store ?env))" by code_simp
    show "is_int64 (env_now_jitter (store_env.truncate (se_store ?env)) - unix_epoch)" by code_simp
    show "EventID sample_event \<in> event_ids (disk demo_store1)" by code_simp
    show "json_Marshal demo_codec sample_event = Inr (EventID sample_event @ dec_int (SeqNo sample_event))"
      by (simp add: demo_codec_def)
    show "hd (tbl_events (disk (snd ?x))) \<in> set (tbl_events (disk (snd ?x)))" using ne by simp
  qed (rule i)
  then show ?thesis using ne by (metis t hd_in_set)
qed

end
