(* ===== verification/Governor.thy ===== *)
theory Governor
  imports Governor_Types
begin

text \<open>
  The resource governor, \<open>src/agent/internal/governor/governor.go\<close>: the validation of its thresholds,
  the target state of a set of signals with hysteresis, and the state machine with its recovery
  timer. Floating point is the model of \<open>Go_Float\<close>, memory sizes are 64 bit words. The lemmas show
  that escalation is immediate, that invalid signals fail safe, and that the state goes down only
  after the signals stayed low for the recovery duration.
\<close>

section \<open>Data\<close>

record Transition =
  PreviousState :: HostResourceState
  NewState :: HostResourceState
  Reason :: string
  ObservedAt :: go_time
  tr_Signals :: ResourceSignals

record governor =
  gov_cfg :: gov_config
  currentState :: HostResourceState
  recoveryStartTime :: go_time

definition zero_f :: f64 where "zero_f = Fin 0"
definition one_f :: f64 where "one_f = Fin 1"
definition hundred_f :: f64 where "hundred_f = Fin 100"

section \<open>Configuration\<close>

text \<open>The checks of one triple of thresholds that are percentages or ratios.\<close>

definition threshold_errors :: "f64 \<Rightarrow> f64 \<Rightarrow> f64 \<Rightarrow> f64 \<Rightarrow> string \<Rightarrow> string \<Rightarrow> string \<Rightarrow> go_error option" where
  "threshold_errors hi saver emerg margin e1 e2 e3 =
     (if f64_lt saver zero_f \<or> f64_gt saver hi then Some (errors_New e1)
      else if f64_le emerg saver \<or> f64_gt emerg hi then Some (errors_New e2)
      else if f64_lt margin zero_f \<or> f64_ge margin saver then Some (errors_New e3)
      else None)"

definition validateConfig :: "gov_config \<Rightarrow> go_error option" where
  "validateConfig c =
     (case threshold_errors hundred_f (CPUSaverThreshold c) (CPUEmergencyThreshold c) (CPURecoveryMargin c)
        ''invalid CPUSaverThreshold'' ''invalid CPUEmergencyThreshold'' ''invalid CPURecoveryMargin'' of
        Some e \<Rightarrow> Some e
      | None \<Rightarrow>
      if MemoryEmergencyBytes c \<le> MemorySaverBytes c then Some (errors_New ''invalid Memory limits'')
      else if MemoryRecoveryMarginBytes c \<ge> MemorySaverBytes c
      then Some (errors_New ''invalid MemoryRecoveryMarginBytes'')
      else
      case threshold_errors one_f (StorageSaverRatio c) (StorageEmergencyRatio c) (StorageRecoveryMarginRatio c)
        ''invalid StorageSaverRatio'' ''invalid StorageEmergencyRatio'' ''invalid StorageRecoveryMarginRatio'' of
        Some e \<Rightarrow> Some e
      | None \<Rightarrow>
      case threshold_errors one_f (QueueSaverRatio c) (QueueEmergencyRatio c) (QueueRecoveryMarginRatio c)
        ''invalid QueueSaverRatio'' ''invalid QueueEmergencyRatio'' ''invalid QueueRecoveryMarginRatio'' of
        Some e \<Rightarrow> Some e
      | None \<Rightarrow> if RecoveryDuration c \<le> 0 then Some (errors_New ''invalid RecoveryDuration'') else None)"

definition NewGovernor :: "gov_config \<Rightarrow> go_error + governor" where
  "NewGovernor cfg =
     (case validateConfig cfg of
        Some e \<Rightarrow> Inl e
      | None \<Rightarrow> Inr \<lparr>gov_cfg = cfg, currentState = StateNormal, recoveryStartTime = time_zero\<rparr>)"

definition CurrentState :: "governor \<Rightarrow> HostResourceState" where
  "CurrentState g = currentState g"

section \<open>Target state\<close>

fun stateSeverity :: "HostResourceState \<Rightarrow> int" where
  "stateSeverity StateNormal = 0"
| "stateSeverity StateResourceSaver = 1"
| "stateSeverity StateEmergency = 2"

definition validateSignals :: "ResourceSignals \<Rightarrow> go_error option" where
  "validateSignals s =
     (if f64_IsNaN (CPUUtilizationPercent s) \<or> f64_lt (CPUUtilizationPercent s) zero_f
      then Some (errors_New ''CPU utilization must be a valid non-negative number'')
      else if f64_IsNaN (StoragePressure s) \<or> f64_lt (StoragePressure s) zero_f \<or> f64_gt (StoragePressure s) one_f
      then Some (errors_New ''StoragePressure must be in [0, 1]'')
      else if f64_IsNaN (QueueSaturation s) \<or> f64_lt (QueueSaturation s) zero_f \<or> f64_gt (QueueSaturation s) one_f
      then Some (errors_New ''QueueSaturation must be in [0, 1]'')
      else None)"

definition evalFloat64 ::
    "f64 \<Rightarrow> f64 \<Rightarrow> f64 \<Rightarrow> f64 \<Rightarrow> HostResourceState \<Rightarrow> string \<Rightarrow> HostResourceState \<times> string" where
  "evalFloat64 val saverThresh emergThresh margin current name =
     (let effEmerg = (if current = StateEmergency then f64_sub emergThresh margin else emergThresh);
          effSaver = (if current = StateEmergency \<or> current = StateResourceSaver
                      then f64_sub saverThresh margin else saverThresh)
      in if f64_ge val effEmerg then (StateEmergency, name @ '' exceeded emergency threshold'')
         else if f64_ge val effSaver then (StateResourceSaver, name @ '' exceeded saver threshold'')
         else (StateNormal, name @ '' healthy''))"

definition evalUint64 ::
    "u64 \<Rightarrow> u64 \<Rightarrow> u64 \<Rightarrow> u64 \<Rightarrow> HostResourceState \<Rightarrow> string \<Rightarrow> HostResourceState \<times> string" where
  "evalUint64 val saverThresh emergThresh margin current name =
     (let effEmerg = (if current = StateEmergency \<and> emergThresh > margin then emergThresh - margin else emergThresh);
          effSaver = (if (current = StateEmergency \<or> current = StateResourceSaver) \<and> saverThresh > margin
                      then saverThresh - margin else saverThresh)
      in if val \<ge> effEmerg then (StateEmergency, name @ '' exceeded emergency threshold'')
         else if val \<ge> effSaver then (StateResourceSaver, name @ '' exceeded saver threshold'')
         else (StateNormal, name @ '' healthy''))"

text \<open>The loop for the highest severity; the first of equals gives the reason.\<close>

fun max_state :: "(HostResourceState \<times> string) list \<Rightarrow> HostResourceState \<times> string \<Rightarrow> HostResourceState \<times> string" where
  "max_state [] m = m"
| "max_state (st # sts) m =
     max_state sts (if stateSeverity (fst st) > stateSeverity (fst m) then st else m)"

definition dimension_states :: "gov_config \<Rightarrow> HostResourceState \<Rightarrow> ResourceSignals \<Rightarrow> (HostResourceState \<times> string) list" where
  "dimension_states c cur s =
     [evalFloat64 (CPUUtilizationPercent s) (CPUSaverThreshold c) (CPUEmergencyThreshold c) (CPURecoveryMargin c) cur ''CPU'',
      evalUint64 (MemoryRSSBytes s) (MemorySaverBytes c) (MemoryEmergencyBytes c) (MemoryRecoveryMarginBytes c) cur ''Memory'',
      evalFloat64 (StoragePressure s) (StorageSaverRatio c) (StorageEmergencyRatio c) (StorageRecoveryMarginRatio c) cur ''Storage'',
      evalFloat64 (QueueSaturation s) (QueueSaverRatio c) (QueueEmergencyRatio c) (QueueRecoveryMarginRatio c) cur ''Queue'']"

definition computeTargetState :: "governor \<Rightarrow> ResourceSignals \<Rightarrow> HostResourceState \<times> string" where
  "computeTargetState g s =
     (case validateSignals s of
        Some e \<Rightarrow> (StateEmergency, ''Invalid signal (fail-safe): '' @ err_text e)
      | None \<Rightarrow> max_state (dimension_states (gov_cfg g) (currentState g) s) (StateNormal, ''Healthy''))"

section \<open>The state machine\<close>

definition gov_transition ::
    "HostResourceState \<Rightarrow> string \<Rightarrow> go_time \<Rightarrow> ResourceSignals \<Rightarrow> governor \<Rightarrow> governor \<times> Transition list" where
  "gov_transition new reason now s g =
     (g\<lparr>currentState := new, recoveryStartTime := time_zero\<rparr>,
      [\<lparr>PreviousState = currentState g, NewState = new, Reason = reason, ObservedAt = now, tr_Signals = s\<rparr>])"

text \<open>\<open>Evaluate\<close>; the list holds the call of \<open>onTransition\<close>.\<close>

definition gov_Evaluate :: "go_time \<Rightarrow> ResourceSignals \<Rightarrow> governor \<Rightarrow> governor \<times> Transition list" where
  "gov_Evaluate now s g =
     (let (target, reason) = computeTargetState g s in
      if stateSeverity target > stateSeverity (currentState g)
      then gov_transition target reason now s g
      else if stateSeverity target < stateSeverity (currentState g)
      then
        (if IsZero (recoveryStartTime g) then (g\<lparr>recoveryStartTime := now\<rparr>, [])
         else if time_Sub now (recoveryStartTime g) \<ge> RecoveryDuration (gov_cfg g)
         then gov_transition target (''Recovery duration met: '' @ reason) now s g
         else (g, []))
      else (g\<lparr>recoveryStartTime := time_zero\<rparr>, []))"

section \<open>Lemmas\<close>

lemma stateSeverity_le2: "stateSeverity s \<le> 2" "0 \<le> stateSeverity s"
  by (cases s; simp)+

lemma stateSeverity_inj: "stateSeverity s = stateSeverity t \<Longrightarrow> s = t"
  by (cases s; cases t) simp_all

lemma max_state_ge:
  "stateSeverity (fst m) \<le> stateSeverity (fst (max_state sts m)) \<and>
   (\<forall>st \<in> set sts. stateSeverity (fst st) \<le> stateSeverity (fst (max_state sts m)))"
proof (induction sts arbitrary: m)
  case (Cons st sts)
  let ?m = "if stateSeverity (fst st) > stateSeverity (fst m) then st else m"
  from Cons [of ?m] show ?case by (auto split: if_splits)
qed simp

lemma max_state_in: "max_state sts m \<in> insert m (set sts)"
  by (induction sts arbitrary: m) (auto split: if_splits)

lemma max_state_le:
  assumes "stateSeverity (fst m) \<le> n" "\<And>st. st \<in> set sts \<Longrightarrow> stateSeverity (fst st) \<le> n"
  shows "stateSeverity (fst (max_state sts m)) \<le> n"
  using max_state_in [of sts m] assms by (metis insert_iff)

text \<open>The target depends on the configuration and the current state only.\<close>

definition target_of :: "gov_config \<Rightarrow> HostResourceState \<Rightarrow> ResourceSignals \<Rightarrow> HostResourceState" where
  "target_of c cur s =
     (case validateSignals s of
        Some e \<Rightarrow> StateEmergency
      | None \<Rightarrow> fst (max_state (dimension_states c cur s) (StateNormal, ''Healthy'')))"

lemma fst_computeTargetState: "fst (computeTargetState g s) = target_of (gov_cfg g) (currentState g) s"
  by (simp add: computeTargetState_def target_of_def split: option.split)

definition low :: "gov_config \<Rightarrow> HostResourceState \<Rightarrow> ResourceSignals \<Rightarrow> bool" where
  "low c cur s \<longleftrightarrow> stateSeverity (target_of c cur s) < stateSeverity cur"

lemma gov_Evaluate_cases:
  obtains (up) "stateSeverity (currentState g) < stateSeverity (target_of (gov_cfg g) (currentState g) s)"
      "fst (gov_Evaluate now s g) = g\<lparr>currentState := target_of (gov_cfg g) (currentState g) s, recoveryStartTime := time_zero\<rparr>"
    | (start) "low (gov_cfg g) (currentState g) s" "IsZero (recoveryStartTime g)"
      "fst (gov_Evaluate now s g) = g\<lparr>recoveryStartTime := now\<rparr>"
    | (recovered) "low (gov_cfg g) (currentState g) s" "\<not> IsZero (recoveryStartTime g)"
      "RecoveryDuration (gov_cfg g) \<le> time_Sub now (recoveryStartTime g)"
      "fst (gov_Evaluate now s g) = g\<lparr>currentState := target_of (gov_cfg g) (currentState g) s, recoveryStartTime := time_zero\<rparr>"
    | (waiting) "low (gov_cfg g) (currentState g) s" "\<not> IsZero (recoveryStartTime g)"
      "\<not> RecoveryDuration (gov_cfg g) \<le> time_Sub now (recoveryStartTime g)"
      "fst (gov_Evaluate now s g) = g"
    | (stable) "target_of (gov_cfg g) (currentState g) s = currentState g"
      "fst (gov_Evaluate now s g) = g\<lparr>recoveryStartTime := time_zero\<rparr>"
proof -
  obtain target reason where c: "computeTargetState g s = (target, reason)" by (metis surj_pair)
  with fst_computeTargetState [of g s] have t: "target = target_of (gov_cfg g) (currentState g) s" by simp
  consider "stateSeverity target > stateSeverity (currentState g)" | "stateSeverity target < stateSeverity (currentState g)"
    | "target = currentState g" using stateSeverity_inj [of target "currentState g"] by linarith
  then show ?thesis
  proof cases
    case 2
    then show ?thesis
      using that(2-4)
      by (cases "IsZero (recoveryStartTime g)"; cases "RecoveryDuration (gov_cfg g) \<le> time_Sub now (recoveryStartTime g)")
         (simp_all add: gov_Evaluate_def c gov_transition_def low_def t [symmetric])
  qed (use that(1,5) in \<open>auto simp: gov_Evaluate_def c gov_transition_def t [symmetric]\<close>)
qed

lemma gov_Evaluate_cfg [simp]: "gov_cfg (fst (gov_Evaluate now s g)) = gov_cfg g"
  by (cases rule: gov_Evaluate_cases [of g s now]) simp_all

lemma gov_Evaluate_target:
  "stateSeverity (target_of (gov_cfg g) (currentState g) s) \<le> stateSeverity (currentState (fst (gov_Evaluate now s g)))"
  by (cases rule: gov_Evaluate_cases [of g s now]) (simp_all add: low_def)

text \<open>A sequence of evaluations.\<close>

fun gov_run :: "(go_time \<times> ResourceSignals) list \<Rightarrow> governor \<Rightarrow> governor" where
  "gov_run [] g = g"
| "gov_run ((now, s) # tr) g = gov_run tr (fst (gov_Evaluate now s g))"

lemma gov_run_append: "gov_run (tr @ tr') g = gov_run tr' (gov_run tr g)"
  by (induction tr g rule: gov_run.induct) simp_all

lemma gov_run_cfg [simp]: "gov_cfg (gov_run tr g) = gov_cfg g"
  by (induction tr g rule: gov_run.induct) simp_all

text \<open>A running recovery timer was started by an evaluation since which all signals were low.\<close>

definition timer_since :: "governor \<Rightarrow> (go_time \<times> ResourceSignals) list \<Rightarrow> governor \<Rightarrow> bool" where
  "timer_since g0 tr g \<longleftrightarrow>
     IsZero (recoveryStartTime g) \<or>
     (\<exists>tr1 s0 tr2. tr = tr1 @ (recoveryStartTime g, s0) # tr2 \<and>
        currentState (gov_run tr1 g0) = currentState g \<and>
        (\<forall>x \<in> set ((recoveryStartTime g, s0) # tr2). low (gov_cfg g) (currentState g) (snd x)))"

lemma gov_run_timer:
  assumes "IsZero (recoveryStartTime g0)"
  shows "timer_since g0 tr (gov_run tr g0)"
proof (induction tr rule: rev_induct)
  case (snoc x tr)
  obtain now s where x: "x = (now, s)" by (metis surj_pair)
  let ?g = "gov_run tr g0"
  have run: "gov_run (tr @ [x]) g0 = fst (gov_Evaluate now s ?g)" by (simp add: gov_run_append x)
  show ?case
  proof (cases rule: gov_Evaluate_cases [of ?g s now])
    case start
    then show ?thesis unfolding timer_since_def run
      by (intro disjI2 exI [of _ tr] exI [of _ s] exI [of _ "[]"]) (simp add: x)
  next
    case waiting
    with snoc obtain tr1 s0 tr2 where t: "tr = tr1 @ (recoveryStartTime ?g, s0) # tr2"
      "currentState (gov_run tr1 g0) = currentState ?g"
      "\<forall>x \<in> set ((recoveryStartTime ?g, s0) # tr2). low (gov_cfg ?g) (currentState ?g) (snd x)"
      by (auto simp: timer_since_def)
    with waiting show ?thesis unfolding timer_since_def run
      by (intro disjI2 exI [of _ tr1] exI [of _ s0] exI [of _ "tr2 @ [x]"]) (simp add: x)
  qed (simp_all add: timer_since_def run IsZero_def)
qed (simp add: timer_since_def assms)

section \<open>Hysteresis\<close>

text \<open>Thresholds of a triple that holds numbers, not NaN, and that \<open>validateConfig\<close> accepted.\<close>

definition thresholds_ok :: "f64 \<Rightarrow> f64 \<Rightarrow> f64 \<Rightarrow> bool" where
  "thresholds_ok saver emerg margin \<longleftrightarrow>
     f64_ok saver \<and> f64_ok emerg \<and> (\<exists>a b m. saver = Fin a \<and> emerg = Fin b \<and> margin = Fin m \<and> a < b \<and> 0 \<le> m)"

lemma thresholds_ok_Fin:
  "thresholds_ok (Fin a) (Fin b) (Fin m) \<longleftrightarrow> f64_ok (Fin a) \<and> f64_ok (Fin b) \<and> a < b \<and> 0 \<le> m"
  by (simp add: thresholds_ok_def)

lemma evalFloat64_mono:
  assumes "thresholds_ok saver emerg margin" "stateSeverity cur \<le> stateSeverity cur'"
  shows "stateSeverity (fst (evalFloat64 v saver emerg margin cur n)) \<le>
    stateSeverity (fst (evalFloat64 v saver emerg margin cur' n'))"
proof -
  have "f64_le (f64_sub saver margin) saver" "f64_le (f64_sub emerg margin) emerg"
    using assms(1) f64_sub_le by (auto simp: thresholds_ok_def)
  then have "f64_ge v saver \<longrightarrow> f64_ge v (f64_sub saver margin)" "f64_ge v emerg \<longrightarrow> f64_ge v (f64_sub emerg margin)"
    unfolding f64_ge_def using f64_le_trans by blast+
  then show ?thesis
    using assms(2) by (cases cur; cases cur') (auto simp: evalFloat64_def Let_def)
qed

lemma word_sub_le: "b < a \<Longrightarrow> a - b \<le> (a :: u64)"
  by (simp add: word_le_nat_alt word_less_nat_alt unat_sub_if')

lemma evalUint64_mono:
  assumes "stateSeverity cur \<le> stateSeverity cur'"
  shows "stateSeverity (fst (evalUint64 v saver emerg margin cur n)) \<le>
    stateSeverity (fst (evalUint64 v saver emerg margin cur' n'))"
  using assms word_sub_le [of margin saver] word_sub_le [of margin emerg]
  by (cases cur; cases cur') (auto simp: evalUint64_def Let_def intro: order_trans)

text \<open>\<open>evalUint64\<close> on natural numbers: the guarded subtraction does not wrap around.\<close>

definition eval_nat :: "nat \<Rightarrow> nat \<Rightarrow> nat \<Rightarrow> nat \<Rightarrow> HostResourceState \<Rightarrow> HostResourceState" where
  "eval_nat v saver emerg margin cur =
     (if v \<ge> (if cur = StateEmergency then emerg - margin else emerg) then StateEmergency
      else if v \<ge> (if cur \<noteq> StateNormal then saver - margin else saver) then StateResourceSaver
      else StateNormal)"

lemma evalUint64_nat:
  assumes "margin < saver" "saver < emerg"
  shows "fst (evalUint64 v saver emerg margin cur n) =
    eval_nat (unat v) (unat saver) (unat emerg) (unat margin) cur"
proof -
  have "margin < emerg" using assms by simp
  then show ?thesis
    using assms
    by (cases cur) (auto simp: evalUint64_def eval_nat_def Let_def word_le_nat_alt word_less_nat_alt unat_sub_if')
qed

definition config_ok :: "gov_config \<Rightarrow> bool" where
  "config_ok c \<longleftrightarrow>
     thresholds_ok (CPUSaverThreshold c) (CPUEmergencyThreshold c) (CPURecoveryMargin c) \<and>
     thresholds_ok (StorageSaverRatio c) (StorageEmergencyRatio c) (StorageRecoveryMarginRatio c) \<and>
     thresholds_ok (QueueSaverRatio c) (QueueEmergencyRatio c) (QueueRecoveryMarginRatio c)"

lemma target_mono:
  assumes "config_ok c" "stateSeverity cur \<le> stateSeverity cur'"
  shows "stateSeverity (target_of c cur s) \<le> stateSeverity (target_of c cur' s)"
proof -
  let ?m = "max_state (dimension_states c cur' s) (StateNormal, ''Healthy'')"
  have "stateSeverity (fst st) \<le> stateSeverity (fst ?m)" if "st \<in> set (dimension_states c cur s)" for st
  proof -
    from that assms have "\<exists>st' \<in> set (dimension_states c cur' s). stateSeverity (fst st) \<le> stateSeverity (fst st')"
      using evalFloat64_mono [OF _ assms(2)] evalUint64_mono [OF assms(2)]
      by (auto simp: dimension_states_def config_ok_def)
    then show ?thesis using max_state_ge [of "(StateNormal, ''Healthy'')" "dimension_states c cur' s"]
      by (meson order_trans)
  qed
  then have "stateSeverity (fst (max_state (dimension_states c cur s) (StateNormal, ''Healthy''))) \<le> stateSeverity (fst ?m)"
    using stateSeverity_le2(2) by (intro max_state_le) simp_all
  then show ?thesis by (simp add: target_of_def split: option.split)
qed

text \<open>A NaN threshold is not noticed.\<close>

lemma f64_le_NaN [simp]: "\<not> f64_le x NaN"
  by (cases x) simp_all

lemma threshold_NaN:
  "threshold_errors hi saver emerg margin e1 e2 e3 = None \<Longrightarrow> threshold_errors hi NaN emerg margin e1 e2 e3 = None"
  by (auto simp: threshold_errors_def f64_lt_def f64_gt_def f64_ge_def split: if_splits)

text \<open>Thresholds and signals for the witnesses.\<close>

definition demo_gov_cfg :: gov_config where
  "demo_gov_cfg =
     \<lparr>CPUSaverThreshold = Fin 80, CPUEmergencyThreshold = Fin 90, CPURecoveryMargin = Fin 5,
      MemorySaverBytes = 200, MemoryEmergencyBytes = 300, MemoryRecoveryMarginBytes = 10,
      StorageSaverRatio = Fin (1 / 2), StorageEmergencyRatio = Fin (3 / 4), StorageRecoveryMarginRatio = Fin (1 / 4),
      QueueSaverRatio = Fin (1 / 2), QueueEmergencyRatio = Fin (3 / 4), QueueRecoveryMarginRatio = Fin (1 / 4),
      RecoveryDuration = 30 * second\<rparr>"

definition demo_gov :: governor where
  "demo_gov = \<lparr>gov_cfg = demo_gov_cfg, currentState = StateNormal, recoveryStartTime = time_zero\<rparr>"

definition sig_low :: ResourceSignals where
  "sig_low = \<lparr>CPUUtilizationPercent = Fin 0, MemoryRSSBytes = 0, StoragePressure = Fin 0,
     QueueSaturation = Fin 0, sig_NetworkState = NetworkOnline\<rparr>"

definition sig_bad :: ResourceSignals where
  "sig_bad = sig_low\<lparr>CPUUtilizationPercent := NaN\<rparr>"

lemma demo_valid: "validateConfig demo_gov_cfg = None"
  by code_simp

lemma demo_NewGovernor: "NewGovernor demo_gov_cfg = Inr demo_gov"
  by (simp add: NewGovernor_def demo_valid demo_gov_def)

lemma demo_exact:
  "f64_of_rat 85 = Fin 85" "f64_of_rat 75 = Fin 75" "f64_of_rat (1 / 4) = Fin (1 / 4)"
  "f64_of_rat (1 / 2) = Fin (1 / 2)" "f64_of_rat (3 / 4) = Fin (3 / 4)" "f64_of_rat 80 = Fin 80" "f64_of_rat 90 = Fin 90"
  by (simp_all add: f64_of_rat_exact [of _ 85 0] f64_of_rat_exact [of _ 75 0] f64_of_rat_exact [of _ 1 2]
      f64_of_rat_exact [of _ 1 1] f64_of_rat_exact [of _ 3 2] f64_of_rat_exact [of _ 80 0] f64_of_rat_exact [of _ 90 0])

lemma demo_target:
  "target_of demo_gov_cfg StateEmergency sig_low = StateNormal"
  "target_of demo_gov_cfg cur sig_bad = StateEmergency"
  by (simp_all add: target_of_def validateSignals_def sig_low_def sig_bad_def zero_f_def one_f_def f64_lt_def f64_gt_def
      dimension_states_def evalFloat64_def evalUint64_def Let_def demo_gov_cfg_def f64_ge_def demo_exact)

lemma gov_Evaluate_state:
  "currentState (fst (gov_Evaluate now s g)) =
     (let t = target_of (gov_cfg g) (currentState g) s in
      if stateSeverity t > stateSeverity (currentState g) \<or>
         stateSeverity t < stateSeverity (currentState g) \<and> \<not> IsZero (recoveryStartTime g) \<and>
         RecoveryDuration (gov_cfg g) \<le> time_Sub now (recoveryStartTime g)
      then t else currentState g)"
  by (cases rule: gov_Evaluate_cases [of g s now]) (auto simp: Let_def low_def)

section \<open>Properties\<close>


text \<open>
  C23. The state goes down only after a sustained recovery: in any sequence of evaluations from a new
  governor, when the last one lowers the state, an earlier one lies at least the recovery duration
  back, and at that one and every one since the signals asked for less than the current state,
  which did not change in between.
\<close>

theorem gov_recovery_sustained:
  assumes "NewGovernor cfg = Inr g0"
    and "stateSeverity (currentState (gov_run (tr @ [(now, s)]) g0)) < stateSeverity (currentState (gov_run tr g0))"
  shows "\<exists>tr1 t0 s0 tr2. tr = tr1 @ (t0, s0) # tr2 \<and> RecoveryDuration cfg \<le> time_Sub now t0 \<and>
    currentState (gov_run tr1 g0) = currentState (gov_run tr g0) \<and>
    (\<forall>x \<in> set ((t0, s0) # tr2 @ [(now, s)]).
       stateSeverity (target_of cfg (currentState (gov_run tr g0)) (snd x)) < stateSeverity (currentState (gov_run tr g0)))"
proof -
  let ?g = "gov_run tr g0"
  have g0: "IsZero (recoveryStartTime g0)" "gov_cfg g0 = cfg"
    using assms(1) by (auto simp: NewGovernor_def IsZero_def split: option.splits)
  have drop: "stateSeverity (currentState (fst (gov_Evaluate now s ?g))) < stateSeverity (currentState ?g)"
    using assms(2) by (simp add: gov_run_append)
  show ?thesis
  proof (cases rule: gov_Evaluate_cases [of ?g s now])
    case recovered
    with gov_run_timer [OF g0(1), of tr] obtain tr1 s0 tr2 where
      "tr = tr1 @ (recoveryStartTime ?g, s0) # tr2" "currentState (gov_run tr1 g0) = currentState ?g"
      "\<forall>x \<in> set ((recoveryStartTime ?g, s0) # tr2). low cfg (currentState ?g) (snd x)"
      by (auto simp: timer_since_def g0(2))
    with recovered show ?thesis
      by (intro exI [of _ tr1] exI [of _ "recoveryStartTime ?g"] exI [of _ s0] exI [of _ tr2])
         (auto simp: low_def g0(2))
  qed (use drop in simp_all)
qed

theorem gov_recovery_sustained_witness:
  "\<exists>tr1 t0 s0 tr2. [(1, sig_bad), (10 * second, sig_low)] = tr1 @ (t0, s0) # tr2 \<and>
    RecoveryDuration demo_gov_cfg \<le> time_Sub (50 * second) t0"
proof -
  let ?tr = "[(1, sig_bad), (10 * second, sig_low)]"
  have g1: "fst (gov_Evaluate 1 sig_bad demo_gov) = demo_gov\<lparr>currentState := StateEmergency\<rparr>"
    by (cases rule: gov_Evaluate_cases [of demo_gov sig_bad 1])
       (simp_all add: demo_gov_def demo_target low_def)
  have g2: "fst (gov_Evaluate (10 * second) sig_low (demo_gov\<lparr>currentState := StateEmergency\<rparr>)) =
      demo_gov\<lparr>currentState := StateEmergency, recoveryStartTime := 10 * second\<rparr>"
    by (cases rule: gov_Evaluate_cases [of "demo_gov\<lparr>currentState := StateEmergency\<rparr>" sig_low "10 * second"])
       (simp_all add: demo_gov_def demo_target low_def IsZero_def)
  let ?g = "demo_gov\<lparr>currentState := StateEmergency, recoveryStartTime := 10 * second\<rparr>"
  have run: "gov_run ?tr demo_gov = ?g" by (simp only: gov_run.simps g1 g2)
  have "RecoveryDuration demo_gov_cfg \<le> time_Sub (50 * second) (10 * second)"
    by (simp add: demo_gov_cfg_def second_def time_Sub_def max_int64_def min_int64_def)
  moreover have "\<not> IsZero (10 * second)" by (simp add: IsZero_def time_zero_def second_def)
  ultimately have "currentState (fst (gov_Evaluate (50 * second) sig_low ?g)) = StateNormal"
    by (simp add: gov_Evaluate_state demo_gov_def demo_target)
  then have "stateSeverity (currentState (gov_run (?tr @ [(50 * second, sig_low)]) demo_gov)) <
      stateSeverity (currentState (gov_run ?tr demo_gov))"
    unfolding gov_run_append run by simp
  from gov_recovery_sustained [OF demo_NewGovernor this] show ?thesis by blast
qed

text \<open>
  Hysteresis only ever delays recovery: with valid thresholds the same signals never ask for less
  in a more severe state.
\<close>

theorem gov_hysteresis_monotone:
  assumes "config_ok c" "stateSeverity cur \<le> stateSeverity cur'"
  shows "stateSeverity (target_of c cur s) \<le> stateSeverity (target_of c cur' s)"
  by (rule target_mono [OF assms])

theorem gov_hysteresis_monotone_witness:
  "stateSeverity (target_of demo_gov_cfg StateNormal sig_low) \<le> stateSeverity (target_of demo_gov_cfg StateEmergency sig_low)"
proof (rule gov_hysteresis_monotone)
  show "config_ok demo_gov_cfg"
    using f64_ok_of_rat [of 80] f64_ok_of_rat [of 90] f64_ok_of_rat [of "1 / 2"] f64_ok_of_rat [of "3 / 4"]
    unfolding demo_exact by (simp add: config_ok_def thresholds_ok_Fin demo_gov_cfg_def)
qed simp



text \<open>
  The connectivity of the network has no influence on the state of the host.
\<close>

theorem gov_ignores_network:
  "currentState (fst (gov_Evaluate now (s\<lparr>sig_NetworkState := n\<rparr>) g)) = currentState (fst (gov_Evaluate now s g))"
proof -
  have "target_of c cur (s\<lparr>sig_NetworkState := n\<rparr>) = target_of c cur s" for c cur
    by (simp add: target_of_def validateSignals_def dimension_states_def)
  moreover have "computeTargetState g (s\<lparr>sig_NetworkState := n\<rparr>) = computeTargetState g s"
    by (simp add: computeTargetState_def validateSignals_def dimension_states_def)
  ultimately show ?thesis by (simp add: gov_Evaluate_def gov_transition_def Let_def split: prod.split)
qed

text \<open>
  A threshold that is NaN passes the validation: every comparison with NaN is false, so a
  configuration with a NaN CPU saver threshold is accepted like one with a valid threshold.
\<close>

theorem validateConfig_accepts_NaN:
  assumes "validateConfig c = None"
  shows "validateConfig (c\<lparr>CPUSaverThreshold := NaN\<rparr>) = None"
proof -
  have t: "threshold_errors hundred_f (CPUSaverThreshold c) (CPUEmergencyThreshold c) (CPURecoveryMargin c)
      ''invalid CPUSaverThreshold'' ''invalid CPUEmergencyThreshold'' ''invalid CPURecoveryMargin'' = None"
    using assms by (simp add: validateConfig_def split: option.splits)
  from threshold_NaN [OF t] t assms show ?thesis
    by (simp add: validateConfig_def split: option.splits if_splits)
qed

theorem validateConfig_accepts_NaN_witness:
  "validateConfig (demo_gov_cfg\<lparr>CPUSaverThreshold := NaN\<rparr>) = None"
  using validateConfig_accepts_NaN [OF demo_valid] .

end
