(* ===== verification/Coordinator.thy ===== *)
theory Coordinator
  imports Governor
begin

text \<open>
  The metrics (\<open>src/agent/internal/governor/metrics.go\<close>), the coordinator (\<open>coordinator.go\<close>) that
  turns measurements into signals for the governor, the sampling loop (\<open>sampling.go\<close>) and the
  storage footprint of the SQLite files (\<open>sqlite_provider.go\<close>). What the operating system provider
  measured in one step is a record of values and errors.
\<close>

section \<open>Metrics\<close>

datatype EventPriority = PriorityP0 | PriorityP1 | PriorityP2 | PriorityP3 | PriorityP4

datatype DropReason = ReasonQueueFull | ReasonStorageLimit | ReasonEmergency

datatype EventSource = SourceNetworkCollector | SourceUSBCollector | SourceYaraScanner | SourceSystem

record EventCategory =
  cat_Priority :: EventPriority
  cat_Reason :: DropReason
  cat_Source :: EventSource

record GovernorMetrics =
  agentCPUPercent :: ValidFloat64
  agentRSSBytes :: ValidUint64
  queueDepthCount :: ValidUint64
  queueOldestEventAgeSec :: ValidFloat64
  queueSaturationPercent :: ValidFloat64
  queueCapacityCount :: ValidUint64
  diskStorageUsedBytes :: ValidUint64
  diskWritePressureBytesPerSec :: ValidFloat64
  eventsAggregatedTotal :: "EventCategory \<rightharpoonup> u64"
  eventsDroppedTotal :: "EventCategory \<rightharpoonup> u64"
  m_currentState :: HostResourceState
  totalStateTransitions :: u64
  currentEmergencyStart :: go_time
  lastTransitionTimestamp :: go_time

definition NewGovernorMetrics :: GovernorMetrics where
  "NewGovernorMetrics =
     \<lparr>agentCPUPercent = invalid_float, agentRSSBytes = invalid_uint, queueDepthCount = invalid_uint,
      queueOldestEventAgeSec = invalid_float, queueSaturationPercent = invalid_float,
      queueCapacityCount = invalid_uint, diskStorageUsedBytes = invalid_uint,
      diskWritePressureBytesPerSec = invalid_float, eventsAggregatedTotal = Map.empty,
      eventsDroppedTotal = Map.empty, m_currentState = StateNormal, totalStateTransitions = 0,
      currentEmergencyStart = time_zero, lastTransitionTimestamp = time_zero\<rparr>"

definition UpdateCPU :: "ValidFloat64 \<Rightarrow> GovernorMetrics \<Rightarrow> GovernorMetrics \<times> go_error option" where
  "UpdateCPU v m =
     (if vf_Valid v \<and> (f64_IsNaN (vf_Value v) \<or> f64_lt (vf_Value v) zero_f \<or> f64_gt (vf_Value v) hundred_f)
      then (m, Some (errors_New ''invalid CPU measurement''))
      else (m\<lparr>agentCPUPercent := v\<rparr>, None))"

definition UpdateMemory :: "ValidUint64 \<Rightarrow> GovernorMetrics \<Rightarrow> GovernorMetrics" where
  "UpdateMemory v m = m\<lparr>agentRSSBytes := v\<rparr>"

definition UpdateQueue ::
    "ValidUint64 \<Rightarrow> ValidUint64 \<Rightarrow> ValidFloat64 \<Rightarrow> GovernorMetrics \<Rightarrow> GovernorMetrics \<times> go_error option" where
  "UpdateQueue depth capacity oldestAge m =
     (if vu_Valid depth \<and> vu_Valid capacity \<and> vu_Value depth > vu_Value capacity
      then (m, Some (errors_New ''depth cannot exceed capacity''))
      else if vu_Valid capacity \<and> vu_Value capacity = 0
      then (m, Some (errors_New ''capacity must be > 0 for saturation calculation''))
      else if vf_Valid oldestAge \<and> (f64_IsNaN (vf_Value oldestAge) \<or> f64_lt (vf_Value oldestAge) zero_f)
      then (m, Some (errors_New ''invalid oldest age''))
      else
        (m\<lparr>queueDepthCount := depth, queueCapacityCount := capacity, queueOldestEventAgeSec := oldestAge,
           queueSaturationPercent :=
             (if vu_Valid depth \<and> vu_Valid capacity
              then \<lparr>vf_Value = f64_div (f64_of_u64 (vu_Value depth)) (f64_of_u64 (vu_Value capacity)), vf_Valid = True\<rparr>
              else invalid_float)\<rparr>, None))"

definition UpdateDisk :: "ValidUint64 \<Rightarrow> ValidFloat64 \<Rightarrow> GovernorMetrics \<Rightarrow> GovernorMetrics \<times> go_error option" where
  "UpdateDisk used writePressure m =
     (if vf_Valid writePressure \<and> (f64_IsNaN (vf_Value writePressure) \<or> f64_lt (vf_Value writePressure) zero_f)
      then (m, Some (errors_New ''invalid disk write pressure''))
      else (m\<lparr>diskStorageUsedBytes := used, diskWritePressureBytesPerSec := writePressure\<rparr>, None))"

definition RecordTransition :: "Transition \<Rightarrow> GovernorMetrics \<Rightarrow> GovernorMetrics" where
  "RecordTransition tr m =
     m\<lparr>m_currentState := NewState tr, totalStateTransitions := totalStateTransitions m + 1,
       lastTransitionTimestamp := ObservedAt tr,
       currentEmergencyStart :=
         (if NewState tr = StateEmergency
          then if IsZero (currentEmergencyStart m) then ObservedAt tr else currentEmergencyStart m
          else time_zero)\<rparr>"

text \<open>\<open>m[cat]++\<close>: a missing key counts as 0, the counter wraps at 64 bits.\<close>

definition map_inc :: "(EventCategory \<rightharpoonup> u64) \<Rightarrow> EventCategory \<Rightarrow> (EventCategory \<rightharpoonup> u64)" where
  "map_inc m cat = m(cat \<mapsto> (case m cat of None \<Rightarrow> 0 | Some n \<Rightarrow> n) + 1)"

definition IncrementAggregated :: "EventCategory \<Rightarrow> GovernorMetrics \<Rightarrow> GovernorMetrics" where
  "IncrementAggregated cat m = m\<lparr>eventsAggregatedTotal := map_inc (eventsAggregatedTotal m) cat\<rparr>"

definition IncrementDropped :: "EventCategory \<Rightarrow> GovernorMetrics \<Rightarrow> GovernorMetrics" where
  "IncrementDropped cat m = m\<lparr>eventsDroppedTotal := map_inc (eventsDroppedTotal m) cat\<rparr>"

text \<open>\<open>time.Duration.Seconds\<close>: whole seconds plus the fraction.\<close>

fun f64_add :: "f64 \<Rightarrow> f64 \<Rightarrow> f64" where
  "f64_add (Fin a) (Fin b) = f64_of_rat (a + b)"
| "f64_add NaN _ = NaN"
| "f64_add _ NaN = NaN"
| "f64_add PosInf NegInf = NaN"
| "f64_add NegInf PosInf = NaN"
| "f64_add PosInf _ = PosInf"
| "f64_add _ PosInf = PosInf"
| "f64_add NegInf _ = NegInf"
| "f64_add _ NegInf = NegInf"

definition duration_Seconds :: "duration \<Rightarrow> f64" where
  "duration_Seconds d =
     f64_add (f64_of_int (go_div d second)) (f64_div (f64_of_int (go_mod d second)) (f64_of_int 1000000000))"

record MetricsSnapshot =
  ms_metrics :: GovernorMetrics
  GovernorState :: HostResourceState
  TotalStateTransitions :: u64
  TimeInEmergencyModeSeconds :: f64
  ms_LastTransitionTimestamp :: go_time

text \<open>\<open>Snapshot\<close>: the measurements and counters are copied (here the record itself).\<close>

definition Snapshot :: "go_time \<Rightarrow> GovernorMetrics \<Rightarrow> MetricsSnapshot" where
  "Snapshot now m =
     \<lparr>ms_metrics = m, GovernorState = m_currentState m, TotalStateTransitions = totalStateTransitions m,
      TimeInEmergencyModeSeconds =
        (if \<not> IsZero (currentEmergencyStart m) \<and> m_currentState m = StateEmergency
         then duration_Seconds (time_Sub now (currentEmergencyStart m)) else Fin 0),
      ms_LastTransitionTimestamp = lastTransitionTimestamp m\<rparr>"

section \<open>The coordinator\<close>

definition sentinel_err :: "sentinel \<Rightarrow> string \<Rightarrow> go_error" where
  "sentinel_err s t = GoError [s] t"

abbreviation err_missing_budget :: go_error where
  "err_missing_budget \<equiv> sentinel_err ErrMissingStorageBudget ''storage budget is unconfigured or unresolved''"

abbreviation err_queue_capacity :: go_error where
  "err_queue_capacity \<equiv> sentinel_err ErrInvalidQueueCapacity ''queue capacity must be greater than zero''"

abbreviation err_queue_depth :: go_error where
  "err_queue_depth \<equiv> sentinel_err ErrQueueDepthExceedsCap ''queue depth cannot exceed capacity''"

abbreviation err_unavailable_rss :: go_error where
  "err_unavailable_rss \<equiv> sentinel_err ErrUnavailableRSS ''process memory RSS measurement unavailable''"

record RuntimeSignals =
  QueueDepth :: ValidUint64
  QueueCapacity :: ValidUint64
  QueueOldestAgeSec :: ValidFloat64
  rt_NetworkState :: NetworkState

record StepResult =
  Ready :: bool
  Evaluated :: bool
  sr_Signals :: "ResourceSignals option"
  sr_GovernorState :: "HostResourceState option"
  StorageBlocked :: bool
  sr_Error :: "go_error option"

record coordinator =
  co_governor :: "governor option"
  co_metrics :: "GovernorMetrics option"
  StorageBudgetBytes :: u64
  cpuInitDone :: bool

text \<open>What the provider measured.\<close>

record provider_sample =
  ps_CPU :: ValidFloat64
  ps_cpuErr :: "go_error option"
  ps_Mem :: ValidUint64
  ps_memErr :: "go_error option"
  ps_Used :: ValidUint64
  ps_Write :: ValidFloat64
  ps_storageErr :: "go_error option"

definition NewCoordinator :: "bool \<Rightarrow> governor option \<Rightarrow> GovernorMetrics option \<Rightarrow> u64 \<Rightarrow> go_error + coordinator" where
  "NewCoordinator provider_nil gov metrics budget =
     (if provider_nil then Inl (errors_New ''provider must not be nil'')
      else Inr \<lparr>co_governor = gov, co_metrics = metrics, StorageBudgetBytes = budget, cpuInitDone = False\<rparr>)"

definition CalculateStoragePressure :: "ValidUint64 \<Rightarrow> u64 \<Rightarrow> ValidFloat64 \<times> go_error option" where
  "CalculateStoragePressure usedBytes budget =
     (if budget = 0 then (invalid_float, Some err_missing_budget)
      else if \<not> vu_Valid usedBytes then (invalid_float, None)
      else
        let ratio = f64_div (f64_of_u64 (vu_Value usedBytes)) (f64_of_u64 budget) in
        (\<lparr>vf_Value = (if f64_gt ratio one_f then one_f else ratio), vf_Valid = True\<rparr>, None))"

definition CalculateQueueSaturation :: "ValidUint64 \<Rightarrow> ValidUint64 \<Rightarrow> ValidFloat64 \<times> go_error option" where
  "CalculateQueueSaturation depth capacity =
     (if \<not> vu_Valid capacity \<or> vu_Value capacity = 0 then (invalid_float, Some err_queue_capacity)
      else if \<not> vu_Valid depth then (invalid_float, None)
      else if vu_Value depth > vu_Value capacity then (invalid_float, Some err_queue_depth)
      else (\<lparr>vf_Value = f64_div (f64_of_u64 (vu_Value depth)) (f64_of_u64 (vu_Value capacity)), vf_Valid = True\<rparr>, None))"

definition join_opt :: "go_error option \<Rightarrow> go_error option \<Rightarrow> go_error option" where
  "join_opt acc e = (case e of None \<Rightarrow> acc | Some x \<Rightarrow> errors_Join acc x)"

text \<open>Step 2: the CPU metric, the value for the governor, the warm-up flag and \<open>cpuInitDone\<close>.\<close>

definition resolve_cpu :: "bool \<Rightarrow> provider_sample \<Rightarrow> ValidFloat64 \<times> f64 \<times> bool \<times> bool" where
  "resolve_cpu initDone ps =
     (if ps_cpuErr ps \<noteq> None then (invalid_float, NaN, False, initDone)
      else if \<not> initDone then
        (if \<not> vf_Valid (ps_CPU ps) then (invalid_float, NaN, True, True)
         else (ps_CPU ps, vf_Value (ps_CPU ps), False, True))
      else
        (if vf_Valid (ps_CPU ps) then (ps_CPU ps, vf_Value (ps_CPU ps), False, True)
         else (invalid_float, NaN, False, True)))"

text \<open>Step 3: the memory metric, its value, whether it is invalid, and the error.\<close>

definition resolve_mem :: "provider_sample \<Rightarrow> ValidUint64 \<times> u64 \<times> bool \<times> go_error option" where
  "resolve_mem ps =
     (case ps_memErr ps of
        Some e \<Rightarrow> (invalid_uint, 0, True, Some e)
      | None \<Rightarrow>
        if \<not> vu_Valid (ps_Mem ps) then (invalid_uint, 0, True, Some err_unavailable_rss)
        else (ps_Mem ps, vu_Value (ps_Mem ps), False, None))"

definition resolve_storage :: "provider_sample \<Rightarrow> ValidUint64 \<times> ValidFloat64" where
  "resolve_storage ps =
     (if ps_storageErr ps \<noteq> None then (invalid_uint, invalid_float) else (ps_Used ps, ps_Write ps))"

text \<open>A ratio for the governor: NaN when there is an error or no measurement.\<close>

definition ratio_value :: "ValidFloat64 \<times> go_error option \<Rightarrow> f64" where
  "ratio_value r = (if snd r \<noteq> None then NaN else if vf_Valid (fst r) then vf_Value (fst r) else NaN)"

text \<open>Step 6: the four updates of the metrics and their errors.\<close>

definition feed_metrics ::
    "ValidFloat64 \<Rightarrow> ValidUint64 \<Rightarrow> ValidUint64 \<Rightarrow> ValidFloat64 \<Rightarrow> RuntimeSignals \<Rightarrow>
     GovernorMetrics \<Rightarrow> go_error option \<Rightarrow> GovernorMetrics \<times> go_error option" where
  "feed_metrics cpu mem used write rt m err =
     (let (m, e1) = UpdateCPU cpu m; err = join_opt err e1;
          m = UpdateMemory mem m;
          (m, e2) = UpdateDisk used write m; err = join_opt err e2;
          (m, e3) = UpdateQueue (QueueDepth rt) (QueueCapacity rt) (QueueOldestAgeSec rt) m
      in (m, join_opt err e3))"

text \<open>\<open>Step\<close>; the last component lists the transitions reported to \<open>onTransition\<close>.\<close>

definition Step ::
    "go_error option \<Rightarrow> go_time \<Rightarrow> provider_sample \<Rightarrow> RuntimeSignals \<Rightarrow> coordinator \<Rightarrow>
     coordinator \<times> StepResult \<times> go_error option \<times> Transition list" where
  "Step ctxErr now ps rt c =
     (if ctxErr \<noteq> None
      then (c, \<lparr>Ready = False, Evaluated = False, sr_Signals = None, sr_GovernorState = None,
               StorageBlocked = False, sr_Error = None\<rparr>, ctxErr, [])
      else
      let (cpuMetric, cpuVal, cpuWarmup, initDone) = resolve_cpu (cpuInitDone c) ps;
          c = c\<lparr>cpuInitDone := initDone\<rparr>;
          stepErr = join_opt None (ps_cpuErr ps);
          (memMetric, memVal, memInvalid, memErr) = resolve_mem ps;
          stepErr = join_opt stepErr memErr;
          (usedMetric, writeMetric) = resolve_storage ps;
          stepErr = join_opt stepErr (ps_storageErr ps);
          sp = CalculateStoragePressure usedMetric (StorageBudgetBytes c);
          blocked = (snd sp \<noteq> None);
          stepErr = join_opt stepErr (snd sp);
          qs = CalculateQueueSaturation (QueueDepth rt) (QueueCapacity rt);
          stepErr = join_opt stepErr (snd qs);
          (metrics, stepErr) =
            (case co_metrics c of
               None \<Rightarrow> (None, stepErr)
             | Some m \<Rightarrow>
               let (m, stepErr) = feed_metrics cpuMetric memMetric usedMetric writeMetric rt m stepErr
               in (Some m, stepErr));
          c = c\<lparr>co_metrics := metrics\<rparr>;
          signals = \<lparr>CPUUtilizationPercent = cpuVal, MemoryRSSBytes = memVal,
            StoragePressure = ratio_value sp, QueueSaturation = ratio_value qs,
            sig_NetworkState = (if rt_NetworkState rt = NetworkNone then NetworkUnknown else rt_NetworkState rt)\<rparr>;
          result = \<lparr>Ready = False, Evaluated = False, sr_Signals = Some signals,
            sr_GovernorState = map_option CurrentState (co_governor c), StorageBlocked = blocked, sr_Error = stepErr\<rparr>
      in
      if cpuWarmup \<or> \<not> cpuInitDone c \<or> memInvalid then (c, result, stepErr, [])
      else if blocked then (c, result\<lparr>Ready := True\<rparr>, stepErr, [])
      else
      case co_governor c of
        None \<Rightarrow> (c, result\<lparr>Ready := True\<rparr>, stepErr, [])
      | Some g \<Rightarrow>
        let (g1, trs) = gov_Evaluate now signals g in
        (c\<lparr>co_governor := Some g1\<rparr>,
         result\<lparr>Ready := True, Evaluated := True, sr_GovernorState := Some (CurrentState g1)\<rparr>, stepErr, trs))"

section \<open>Sampling\<close>

text \<open>\<open>RunSampling\<close>: an immediate step, then one per tick; a tick that finds the context done, or a
  closed channel, ends it. A tick holds whether the context is done when it arrives, what \<open>Step\<close> then
  sees of the context, and the measurements. The results go to \<open>onStep\<close>.\<close>

type_synonym sample = "go_error option \<times> go_time \<times> provider_sample \<times> RuntimeSignals"

definition sampling_step :: "sample \<Rightarrow> coordinator \<Rightarrow> coordinator \<times> StepResult \<times> go_error option" where
  "sampling_step x c =
     (case x of (ctxErr, now, ps, rt) \<Rightarrow> case Step ctxErr now ps rt c of (c1, r, err, trs) \<Rightarrow> (c1, r, err))"

fun sampling_ticks :: "(bool \<times> sample) list \<Rightarrow> coordinator \<Rightarrow> coordinator \<times> (StepResult \<times> go_error option) list" where
  "sampling_ticks [] c = (c, [])"
| "sampling_ticks ((done_now, x) # ts) c =
     (if done_now then (c, [])
      else case sampling_step x c of (c1, r) \<Rightarrow>
        case sampling_ticks ts c1 of (c2, rs) \<Rightarrow> (c2, r # rs))"

definition RunSampling ::
    "bool \<Rightarrow> bool \<Rightarrow> sample \<Rightarrow> (bool \<times> sample) list \<Rightarrow> coordinator \<Rightarrow>
     (coordinator \<times> (StepResult \<times> go_error option) list) \<times> go_error option" where
  "RunSampling nil_arg ctx_done x ts c =
     (if nil_arg then ((c, []), Some (errors_New ''resource sampling requires a coordinator, signal source, and ticks''))
      else if ctx_done then ((c, []), None)
      else (case sampling_step x c of (c1, r) \<Rightarrow>
        case sampling_ticks ts c1 of (c2, rs) \<Rightarrow> (c2, r # rs), None))"

text \<open>The callback of \<open>cmd/endpoint/main.go\<close>: a transition is recorded in the metrics the coordinator holds.\<close>

definition endpoint_step :: "sample \<Rightarrow> coordinator \<Rightarrow> coordinator" where
  "endpoint_step x c =
     (case x of (ctxErr, now, ps, rt) \<Rightarrow> case Step ctxErr now ps rt c of (c1, r, err, trs) \<Rightarrow>
        c1\<lparr>co_metrics := map_option (fold RecordTransition trs) (co_metrics c1)\<rparr>)"

section \<open>Storage footprint\<close>

text \<open>The answer of \<open>os.Stat\<close> for a sidecar file: missing, an error, or its size if it is a regular file.\<close>

datatype sidecar_stat = SideMissing | SideErr go_error | SideNotRegular | SideFile int

fun add_sidecars ::
    "(string \<Rightarrow> go_error option) \<Rightarrow> (string \<Rightarrow> sidecar_stat) \<Rightarrow> string \<Rightarrow> string list \<Rightarrow> u64 \<Rightarrow> go_error + u64" where
  "add_sidecars ctxErr st db [] used = Inr used"
| "add_sidecars ctxErr st db (suffix # rest) used =
     (case ctxErr suffix of
        Some e \<Rightarrow> Inl e
      | None \<Rightarrow>
      (case st (db @ suffix) of
         SideMissing \<Rightarrow> add_sidecars ctxErr st db rest used
       | SideErr e \<Rightarrow> Inl (wrap_err (''stat SQLite sidecar '' @ db @ suffix @ '': '') e)
       | SideNotRegular \<Rightarrow> Inl (errors_New (''SQLite sidecar '' @ db @ suffix @ '' is not a regular file''))
       | SideFile sz \<Rightarrow>
           if sz < 0 then Inl (errors_New (''SQLite sidecar '' @ db @ suffix @ '' is not a regular file''))
           else if word_of_int sz > - 1 - used then Inl (errors_New ''SQLite footprint exceeds uint64'')
           else add_sidecars ctxErr st db rest (used + word_of_int sz)))"

definition sqlite_SampleStorage ::
    "(string \<Rightarrow> go_error option) \<Rightarrow> (string \<Rightarrow> sidecar_stat) \<Rightarrow> string \<Rightarrow>
     ValidUint64 \<times> ValidFloat64 \<times> go_time \<times> go_error option \<Rightarrow> ValidUint64 \<times> ValidFloat64 \<times> go_time \<times> go_error option" where
  "sqlite_SampleStorage ctxErr st db base =
     (case base of (used, writeRate, sampledAt, err) \<Rightarrow>
      if err \<noteq> None \<or> \<not> vu_Valid used then base
      else case add_sidecars ctxErr st db [''-wal'', ''-shm''] (vu_Value used) of
        Inl e \<Rightarrow> (invalid_uint, invalid_float, sampledAt, Some e)
      | Inr n \<Rightarrow> (used\<lparr>vu_Value := n\<rparr>, writeRate, sampledAt, None))"

section \<open>Lemmas\<close>

definition unit_ratio :: "f64 \<Rightarrow> bool" where
  "unit_ratio v \<longleftrightarrow> (\<exists>r. v = Fin r \<and> 0 \<le> r \<and> r \<le> 1)"

lemma unit_ratio_valid: "unit_ratio v \<Longrightarrow> \<not> f64_IsNaN v \<and> \<not> f64_lt v zero_f \<and> \<not> f64_gt v one_f"
  by (auto simp: unit_ratio_def f64_lt_def f64_gt_def zero_f_def one_f_def)

lemma storage_pressure_unit:
  assumes "CalculateStoragePressure u budget = (v, None)" "vf_Valid v"
  shows "unit_ratio (vf_Value v)"
proof -
  let ?r = "f64_div (f64_of_u64 (vu_Value u)) (f64_of_u64 budget)"
  have b: "budget \<noteq> 0" and v: "vf_Value v = (if f64_gt ?r one_f then one_f else ?r)"
    using assms by (auto simp: CalculateStoragePressure_def invalid_float_def Let_def split: if_splits)
  have pos: "0 < round_rat (of_int (int (unat budget)))"
    using round_u64_pos [OF b] by simp
  let ?q = "round_rat (of_int (int (unat (vu_Value u)))) / round_rat (of_int (int (unat budget)))"
  have r: "?r = f64_of_rat ?q" using pos by (simp add: f64_of_u64_finite)
  have "0 \<le> round_rat (of_int (int (unat (vu_Value u))))"
    by (rule round_rat_nonneg) (simp only: of_int_0_le_iff of_nat_0_le_iff)
  then have "0 \<le> ?q" using pos by (rule divide_nonneg_pos)
  then have "0 \<le> round_rat ?q" by (rule round_rat_nonneg)
  then have "?r = PosInf \<or> (\<exists>x. ?r = Fin x \<and> 0 \<le> x)"
    unfolding r by (auto simp: f64_of_rat_def Let_def f64_top_def)
  then show ?thesis
    unfolding v by (auto simp: unit_ratio_def f64_gt_def f64_lt_def one_f_def)
qed

lemma queue_saturation_unit:
  assumes "CalculateQueueSaturation d cap = (v, None)" "vf_Valid v"
  shows "unit_ratio (vf_Value v)"
  using assms f64_ratio_unit [of "vu_Value d" "vu_Value cap"]
  by (auto simp: CalculateQueueSaturation_def invalid_float_def unit_ratio_def split: if_splits)

lemma ratio_value_pressure:
  "ratio_value (CalculateStoragePressure u b) = NaN \<or> unit_ratio (ratio_value (CalculateStoragePressure u b))"
  using storage_pressure_unit [of u b] by (cases "CalculateStoragePressure u b") (auto simp: ratio_value_def)

lemma ratio_value_saturation:
  "ratio_value (CalculateQueueSaturation d c) = NaN \<or> unit_ratio (ratio_value (CalculateQueueSaturation d c))"
  using queue_saturation_unit [of d c] by (cases "CalculateQueueSaturation d c") (auto simp: ratio_value_def)

text \<open>The signals of a step, and the metrics it leaves before an evaluation.\<close>

definition step_signals :: "provider_sample \<Rightarrow> RuntimeSignals \<Rightarrow> coordinator \<Rightarrow> ResourceSignals" where
  "step_signals ps rt c =
     \<lparr>CPUUtilizationPercent = fst (snd (resolve_cpu (cpuInitDone c) ps)), MemoryRSSBytes = fst (snd (resolve_mem ps)),
      StoragePressure = ratio_value (CalculateStoragePressure (fst (resolve_storage ps)) (StorageBudgetBytes c)),
      QueueSaturation = ratio_value (CalculateQueueSaturation (QueueDepth rt) (QueueCapacity rt)),
      sig_NetworkState = (if rt_NetworkState rt = NetworkNone then NetworkUnknown else rt_NetworkState rt)\<rparr>"

definition step_metrics :: "provider_sample \<Rightarrow> RuntimeSignals \<Rightarrow> coordinator \<Rightarrow> GovernorMetrics option" where
  "step_metrics ps rt c =
     map_option (\<lambda>m. fst (feed_metrics (fst (resolve_cpu (cpuInitDone c) ps)) (fst (resolve_mem ps))
       (fst (resolve_storage ps)) (snd (resolve_storage ps)) rt m None)) (co_metrics c)"

text \<open>When the governor is consulted.\<close>

definition step_ready :: "provider_sample \<Rightarrow> coordinator \<Rightarrow> bool" where
  "step_ready ps c \<longleftrightarrow>
     (cpuInitDone c \<or> ps_cpuErr ps = None \<and> vf_Valid (ps_CPU ps)) \<and>
     ps_memErr ps = None \<and> vu_Valid (ps_Mem ps)"

lemma feed_metrics_err: "fst (feed_metrics a b u w rt m e) = fst (feed_metrics a b u w rt m None)"
  by (simp add: feed_metrics_def split: prod.split)

lemma pressure_blocked: "(snd (CalculateStoragePressure u b) \<noteq> None) = (b = 0)"
  by (simp add: CalculateStoragePressure_def Let_def)

lemma pressure_blocked_iff: "(\<exists>e. snd (CalculateStoragePressure u b) = Some e) = (b = 0)"
  using pressure_blocked [of u b] by auto

lemma resolve_mem_ok: "fst (snd (snd (resolve_mem ps))) = (\<not> (ps_memErr ps = None \<and> vu_Valid (ps_Mem ps)))"
  by (simp add: resolve_mem_def split: option.split)

lemma resolve_cpu_ok:
  "(fst (snd (snd (resolve_cpu d ps))) \<or> \<not> snd (snd (snd (resolve_cpu d ps)))) =
   (\<not> (d \<or> ps_cpuErr ps = None \<and> vf_Valid (ps_CPU ps)))"
  by (simp add: resolve_cpu_def)

lemma Step_cancelled: "Step (Some e) now ps rt c = (c', r, e', trs) \<Longrightarrow> c' = c \<and> \<not> Evaluated r \<and> trs = []"
  by (auto simp: Step_def)

lemma Step_result:
  assumes "Step None now ps rt c = (c', r, e, trs)"
  shows "Evaluated r \<longleftrightarrow> step_ready ps c \<and> StorageBudgetBytes c \<noteq> 0 \<and> co_governor c \<noteq> None"
    and "co_metrics c' = step_metrics ps rt c"
    and "StorageBudgetBytes c' = StorageBudgetBytes c"
    and "\<not> Evaluated r \<Longrightarrow> co_governor c' = co_governor c \<and> trs = []"
    and "Evaluated r \<Longrightarrow> co_governor c = Some g \<Longrightarrow>
      (co_governor c', trs) = apfst Some (gov_Evaluate now (step_signals ps rt c) g)"
    and "sr_Signals r = Some (step_signals ps rt c)"
proof -
  obtain cm cv cw cd where cpu: "resolve_cpu (cpuInitDone c) ps = (cm, cv, cw, cd)" by (metis surj_pair)
  obtain mm mv mi me where mem: "resolve_mem ps = (mm, mv, mi, me)" by (metis surj_pair)
  obtain su sw where st: "resolve_storage ps = (su, sw)" by (metis surj_pair)
  have ready: "step_ready ps c \<longleftrightarrow> \<not> (cw \<or> \<not> cd \<or> mi)"
    using resolve_cpu_ok [of "cpuInitDone c" ps] resolve_mem_ok [of ps] by (auto simp: step_ready_def cpu mem)
  have m: "fst (feed_metrics cm mm su sw rt m e) = fst (feed_metrics cm mm su sw rt m None)" for m e
    by (rule feed_metrics_err)
  have sig: "step_signals ps rt c = \<lparr>CPUUtilizationPercent = cv, MemoryRSSBytes = mv,
      StoragePressure = ratio_value (CalculateStoragePressure su (StorageBudgetBytes c)),
      QueueSaturation = ratio_value (CalculateQueueSaturation (QueueDepth rt) (QueueCapacity rt)),
      sig_NetworkState = (if rt_NetworkState rt = NetworkNone then NetworkUnknown else rt_NetworkState rt)\<rparr>"
    by (simp add: step_signals_def cpu mem st)
  note S = assms [unfolded Step_def cpu mem st Let_def, simplified]
  note splits = if_splits option.splits prod.splits
  show "Evaluated r \<longleftrightarrow> step_ready ps c \<and> StorageBudgetBytes c \<noteq> 0 \<and> co_governor c \<noteq> None"
    using S by (auto simp: ready pressure_blocked_iff split: splits)
  show "co_metrics c' = step_metrics ps rt c"
    using S by (auto simp: step_metrics_def cpu mem st fst_conv [symmetric] split: splits) (metis fst_conv m)+
  show "StorageBudgetBytes c' = StorageBudgetBytes c" using S by (auto split: splits)
  show "\<not> Evaluated r \<Longrightarrow> co_governor c' = co_governor c \<and> trs = []" using S by (auto split: splits)
  show "Evaluated r \<Longrightarrow> co_governor c = Some g \<Longrightarrow>
      (co_governor c', trs) = apfst Some (gov_Evaluate now (step_signals ps rt c) g)"
    using S by (auto simp: sig split: splits)
  show "sr_Signals r = Some (step_signals ps rt c)" using S by (auto simp: sig split: splits)
qed


text \<open>What the metrics hold is within the bounds of their units.\<close>

definition metrics_inv :: "GovernorMetrics \<Rightarrow> bool" where
  "metrics_inv m \<longleftrightarrow>
     (vf_Valid (agentCPUPercent m) \<longrightarrow>
        (\<exists>r. vf_Value (agentCPUPercent m) = Fin r \<and> 0 \<le> r \<and> r \<le> 100)) \<and>
     (vu_Valid (queueDepthCount m) \<and> vu_Valid (queueCapacityCount m) \<longrightarrow>
        vu_Value (queueDepthCount m) \<le> vu_Value (queueCapacityCount m) \<and> vf_Valid (queueSaturationPercent m)) \<and>
     (vf_Valid (queueSaturationPercent m) \<longrightarrow> unit_ratio (vf_Value (queueSaturationPercent m))) \<and>
     (vf_Valid (diskWritePressureBytesPerSec m) \<longrightarrow> f64_ge (vf_Value (diskWritePressureBytesPerSec m)) zero_f) \<and>
     (vf_Valid (queueOldestEventAgeSec m) \<longrightarrow> f64_ge (vf_Value (queueOldestEventAgeSec m)) zero_f) \<and>
     (m_currentState m = StateEmergency \<or> IsZero (currentEmergencyStart m))"

lemma f64_nonneg: "\<not> f64_IsNaN x \<Longrightarrow> \<not> f64_lt x zero_f \<Longrightarrow> f64_ge x zero_f"
  by (cases x) (auto simp: f64_lt_def f64_ge_def zero_f_def)

lemma f64_percent:
  "\<not> f64_IsNaN x \<Longrightarrow> \<not> f64_lt x zero_f \<Longrightarrow> \<not> f64_gt x hundred_f \<Longrightarrow> \<exists>r. x = Fin r \<and> 0 \<le> r \<and> r \<le> 100"
  by (cases x) (auto simp: f64_lt_def f64_gt_def zero_f_def hundred_f_def)

lemma NewGovernorMetrics_inv: "metrics_inv NewGovernorMetrics"
  by (simp add: metrics_inv_def NewGovernorMetrics_def invalid_float_def invalid_uint_def IsZero_def)

lemma new_metrics_state: "m_currentState NewGovernorMetrics = StateNormal"
  by (simp add: NewGovernorMetrics_def)

lemma UpdateCPU_inv: "metrics_inv m \<Longrightarrow> metrics_inv (fst (UpdateCPU v m))"
  using f64_percent by (simp add: metrics_inv_def UpdateCPU_def)

lemma UpdateMemory_inv: "metrics_inv m \<Longrightarrow> metrics_inv (UpdateMemory v m)"
  by (simp add: metrics_inv_def UpdateMemory_def)

lemma UpdateDisk_inv: "metrics_inv m \<Longrightarrow> metrics_inv (fst (UpdateDisk u w m))"
  using f64_nonneg by (simp add: metrics_inv_def UpdateDisk_def)

lemma UpdateQueue_inv: "metrics_inv m \<Longrightarrow> metrics_inv (fst (UpdateQueue d c a m))"
  using f64_nonneg f64_ratio_unit [of "vu_Value d" "vu_Value c"]
  by (auto simp: metrics_inv_def UpdateQueue_def invalid_float_def unit_ratio_def)

lemma RecordTransition_inv: "metrics_inv m \<Longrightarrow> metrics_inv (RecordTransition tr m)"
  by (simp add: metrics_inv_def RecordTransition_def IsZero_def)

lemma RecordTransition_state [simp]: "m_currentState (RecordTransition tr m) = NewState tr"
  by (simp add: RecordTransition_def)

lemma feed_metrics_fst:
  "fst (feed_metrics a b u w rt m e) =
     fst (UpdateQueue (QueueDepth rt) (QueueCapacity rt) (QueueOldestAgeSec rt)
       (fst (UpdateDisk u w (UpdateMemory b (fst (UpdateCPU a m))))))"
  by (simp add: feed_metrics_def Let_def split_def)

lemma feed_metrics_inv: "metrics_inv m \<Longrightarrow> metrics_inv (fst (feed_metrics a b u w rt m e))"
  by (simp add: feed_metrics_fst UpdateCPU_inv UpdateMemory_inv UpdateDisk_inv UpdateQueue_inv)

lemma feed_metrics_state: "m_currentState (fst (feed_metrics a b u w rt m e)) = m_currentState m"
  by (simp add: feed_metrics_fst UpdateCPU_def UpdateMemory_def UpdateDisk_def UpdateQueue_def)

lemma gov_Evaluate_transitions:
  "snd (gov_Evaluate now s g) = [] \<and> currentState (fst (gov_Evaluate now s g)) = currentState g \<or>
   (\<exists>tr. snd (gov_Evaluate now s g) = [tr] \<and> NewState tr = currentState (fst (gov_Evaluate now s g)) \<and>
      PreviousState tr = currentState g \<and> ObservedAt tr = now)"
  by (simp add: gov_Evaluate_def gov_transition_def split: prod.split)

text \<open>The metrics are in their bounds and show the state of the governor.\<close>

definition coordinator_inv :: "coordinator \<Rightarrow> bool" where
  "coordinator_inv c \<longleftrightarrow>
     (\<forall>m. co_metrics c = Some m \<longrightarrow> metrics_inv m \<and>
        (\<forall>g. co_governor c = Some g \<longrightarrow> m_currentState m = CurrentState g))"

lemma endpoint_step_inv:
  assumes "coordinator_inv c"
  shows "coordinator_inv (endpoint_step x c)"
proof -
  obtain ce now ps rt where x: "x = (ce, now, ps, rt)" by (metis surj_pair)
  obtain c1 r err trs where S: "Step ce now ps rt c = (c1, r, err, trs)" by (metis surj_pair)
  have e: "endpoint_step x c = c1\<lparr>co_metrics := map_option (fold RecordTransition trs) (co_metrics c1)\<rparr>"
    by (simp add: endpoint_step_def x S)
  show ?thesis
  proof (cases ce)
    case (Some a)
    with Step_cancelled S have "c1 = c" "trs = []" by blast+
    with assms show ?thesis by (simp add: e option.map_id0 [unfolded id_def, simplified] coordinator_inv_def)
  next
    case None
    note R = Step_result [OF S [unfolded None]]
    have m: "metrics_inv m1 \<and> (\<forall>g. co_governor c = Some g \<longrightarrow> m_currentState m1 = CurrentState g)"
      if "co_metrics c1 = Some m1" for m1
      using that assms by (auto simp: R(2) step_metrics_def coordinator_inv_def feed_metrics_inv feed_metrics_state)
    show ?thesis
    proof (cases "Evaluated r")
      case False
      with R(4) m show ?thesis by (auto simp: e coordinator_inv_def)
    next
      case True
      with R(1) obtain g where g: "co_governor c = Some g" by auto
      from R(5) [OF True g] have c1: "co_governor c1 = Some (fst (gov_Evaluate now (step_signals ps rt c) g))"
        "trs = snd (gov_Evaluate now (step_signals ps rt c) g)"
        by (metis apfst_conv fst_conv prod.exhaust_sel, metis apfst_conv snd_conv prod.exhaust_sel)
      have "metrics_inv (fold RecordTransition trs m1) \<and>
          m_currentState (fold RecordTransition trs m1) = currentState (fst (gov_Evaluate now (step_signals ps rt c) g))"
        if "co_metrics c1 = Some m1" for m1
        using gov_Evaluate_transitions [of now "step_signals ps rt c" g] m [OF that] g RecordTransition_inv
        by (auto simp: c1(2) CurrentState_def)
      then show ?thesis by (auto simp: e coordinator_inv_def c1(1) CurrentState_def)
    qed
  qed
qed


fun side_size :: "sidecar_stat \<Rightarrow> int" where
  "side_size (SideFile sz) = sz"
| "side_size _ = 0"

lemma u64_add_exact:
  assumes "0 \<le> sz" "sz \<le> max_int64" "\<not> word_of_int sz > - 1 - (used :: u64)"
  shows "uint (used + word_of_int sz) = uint used + sz"
proof -
  have sz: "uint (word_of_int sz :: u64) = sz"
    using assms(1,2) by (simp add: word_of_int_inverse max_int64_def)
  have "uint (- 1 - used) = 2 ^ 64 - 1 - uint used"
    using word_n1_ge [of used] uint_sub_lem [of used "- 1 :: u64"] by (simp add: word_le_def unsigned_minus_1_eq_mask mask_eq_exp_minus_1)
  with assms(3) sz have "uint used + sz < 2 ^ 64" by (simp add: word_less_def not_less word_le_def)
  with sz show ?thesis using uint_add_lem [of used "word_of_int sz"] by simp
qed

lemma add_sidecars_sum:
  assumes "\<And>f sz. st f = SideFile sz \<Longrightarrow> sz \<le> max_int64"
  shows "add_sidecars ce st db sfx used = Inr n \<Longrightarrow>
    uint n = uint used + sum_list (map (\<lambda>s. side_size (st (db @ s))) sfx)"
proof (induction sfx arbitrary: used)
  case (Cons s rest)
  then show ?case
    by (auto simp: u64_add_exact assms split: option.splits sidecar_stat.splits if_splits)
qed simp

section \<open>Properties\<close>

text \<open>Measurements and a coordinator for the witnesses.\<close>

definition demo_ps :: provider_sample where
  "demo_ps = \<lparr>ps_CPU = \<lparr>vf_Value = Fin 0, vf_Valid = False\<rparr>, ps_cpuErr = None,
     ps_Mem = \<lparr>vu_Value = 100, vu_Valid = True\<rparr>, ps_memErr = None,
     ps_Used = \<lparr>vu_Value = 0, vu_Valid = True\<rparr>, ps_Write = invalid_float, ps_storageErr = None\<rparr>"

definition demo_rt :: RuntimeSignals where
  "demo_rt = \<lparr>QueueDepth = \<lparr>vu_Value = 0, vu_Valid = True\<rparr>, QueueCapacity = \<lparr>vu_Value = 200, vu_Valid = True\<rparr>,
     QueueOldestAgeSec = invalid_float, rt_NetworkState = NetworkOnline\<rparr>"

definition demo_coord :: coordinator where
  "demo_coord = \<lparr>co_governor = Some demo_gov, co_metrics = Some NewGovernorMetrics, StorageBudgetBytes = 1000,
     cpuInitDone = True\<rparr>"

text \<open>
  C25. A step consults the governor exactly when the CPU baseline is established, the memory was
  measured, a storage budget is configured and there is a governor; in every other case, a cancelled
  context included, the governor keeps its state and no transition is reported.
\<close>

theorem Step_evaluates_iff:
  assumes "Step ctxErr now ps rt c = (c', r, e, trs)"
  shows "(Evaluated r \<longleftrightarrow> ctxErr = None \<and> step_ready ps c \<and> StorageBudgetBytes c \<noteq> 0 \<and> co_governor c \<noteq> None) \<and>
    (Evaluated r \<or> co_governor c' = co_governor c \<and> trs = [])"
  using assms Step_cancelled [of _ now ps rt c c' r e trs] Step_result(1,4) [of now ps rt c c' r e trs]
  by (cases ctxErr) auto

theorem Step_evaluates_iff_witness:
  "\<exists>c' r e trs. Step None 1 demo_ps demo_rt demo_coord = (c', r, e, trs) \<and> Evaluated r"
proof -
  obtain c' r e trs where S: "Step None 1 demo_ps demo_rt demo_coord = (c', r, e, trs)" by (metis surj_pair)
  from Step_evaluates_iff [OF S] have "Evaluated r"
    by (simp add: step_ready_def demo_ps_def demo_coord_def)
  with S show ?thesis by blast
qed

text \<open>
  C26. Missing measurements fail safe: when the governor is consulted although the CPU, the storage
  or the queue could not be measured, it is in EMERGENCY afterwards.
\<close>

theorem Step_fail_safe:
  assumes "Step None now ps rt c = (c', r, e, trs)" "Evaluated r"
    and "ps_cpuErr ps \<noteq> None \<or> \<not> vf_Valid (ps_CPU ps) \<or> ps_storageErr ps \<noteq> None \<or> \<not> vu_Valid (ps_Used ps) \<or>
      snd (CalculateQueueSaturation (QueueDepth rt) (QueueCapacity rt)) \<noteq> None \<or> \<not> vu_Valid (QueueDepth rt)"
  shows "map_option CurrentState (co_governor c') = Some StateEmergency"
proof -
  note R = Step_result [OF assms(1)]
  from R(1) assms(2) obtain g where g: "co_governor c = Some g" and ready: "step_ready ps c" by auto
  let ?s = "step_signals ps rt c"
  from R(5) [OF assms(2) g] have c': "co_governor c' = Some (fst (gov_Evaluate now ?s g))"
    by (metis apfst_conv fst_conv prod.exhaust_sel)
  have "CPUUtilizationPercent ?s = NaN \<or> StoragePressure ?s = NaN \<or> QueueSaturation ?s = NaN"
    using assms(3) ready
    by (auto simp: step_signals_def step_ready_def resolve_cpu_def resolve_storage_def ratio_value_def
        CalculateStoragePressure_def CalculateQueueSaturation_def invalid_float_def invalid_uint_def)
  then have "validateSignals ?s \<noteq> None" by (auto simp: validateSignals_def)
  then have "target_of (gov_cfg g) (currentState g) ?s = StateEmergency"
    by (auto simp: target_of_def)
  with gov_Evaluate_target [of g ?s now] stateSeverity_le2(1) [of "currentState (fst (gov_Evaluate now ?s g))"]
  have "currentState (fst (gov_Evaluate now ?s g)) = StateEmergency"
    by (intro stateSeverity_inj) simp
  then show ?thesis by (simp add: c' CurrentState_def)
qed

theorem Step_fail_safe_witness:
  "\<exists>c' r e trs. Step None 1 demo_ps demo_rt demo_coord = (c', r, e, trs) \<and>
    map_option CurrentState (co_governor c') = Some StateEmergency"
proof -
  obtain c' r e trs where S: "Step None 1 demo_ps demo_rt demo_coord = (c', r, e, trs)" by (metis surj_pair)
  have "Evaluated r" using Step_result(1) [OF S] by (simp add: step_ready_def demo_ps_def demo_coord_def)
  from Step_fail_safe [OF S this] S show ?thesis by (auto simp: demo_ps_def)
qed

text \<open>
  The metrics stay within their units (CPU in 0 to 100, queue depth at most the capacity,
  saturation in 0 to 1, no negative or NaN rates) and show the governor's state, in every
  sequence of steps of the endpoint, whatever the measurements are.
\<close>

theorem endpoint_metrics_in_sync:
  assumes "NewGovernor cfg = Inr g"
    and "NewCoordinator False (Some g) (Some NewGovernorMetrics) budget = Inr c"
  shows "coordinator_inv (fold endpoint_step xs c)"
proof -
  have "coordinator_inv c"
    using assms NewGovernorMetrics_inv
    by (auto simp: NewCoordinator_def NewGovernor_def coordinator_inv_def CurrentState_def new_metrics_state
        split: option.splits)
  then show ?thesis by (induction xs arbitrary: c) (simp_all add: endpoint_step_inv)
qed

theorem endpoint_metrics_in_sync_witness:
  "coordinator_inv (fold endpoint_step [(None, 1, demo_ps, demo_rt)] (demo_coord\<lparr>cpuInitDone := False\<rparr>))"
  by (rule endpoint_metrics_in_sync [OF demo_NewGovernor, of 1000]) (simp add: NewCoordinator_def demo_coord_def)

text \<open>
  The pressure signals are ratios: whatever the sizes are, the storage pressure and the queue
  saturation of a step are NaN (not measured) or lie in 0 to 1, so a validation error of the governor
  always means a missing measurement.
\<close>

theorem step_ratios_unit:
  assumes "Step None now ps rt c = (c', r, e, trs)" "sr_Signals r = Some s"
  shows "(StoragePressure s = NaN \<or> unit_ratio (StoragePressure s)) \<and>
    (QueueSaturation s = NaN \<or> unit_ratio (QueueSaturation s))"
  using Step_result(6) [OF assms(1)] assms(2) ratio_value_pressure ratio_value_saturation
  by (auto simp: step_signals_def)

theorem step_ratios_unit_witness:
  "\<exists>s :: ResourceSignals. (StoragePressure s = NaN \<or> unit_ratio (StoragePressure s)) \<and> MemoryRSSBytes s = 100"
proof -
  obtain c' r e trs where S: "Step None 1 demo_ps demo_rt demo_coord = (c', r, e, trs)" by (metis surj_pair)
  moreover have "MemoryRSSBytes (step_signals demo_ps demo_rt demo_coord) = 100"
    by (simp add: step_signals_def resolve_mem_def demo_ps_def)
  ultimately show ?thesis using step_ratios_unit [OF S Step_result(6) [OF S]] by blast
qed

text \<open>
  The storage footprint is exact: when \<open>SampleStorage\<close> reports a size, it is the size of the
  database file plus those of the write-ahead log and the shared memory file, without wrap-around
  (a sum beyond 64 bits is an error).
\<close>

theorem sqlite_footprint_exact:
  assumes "\<And>f sz. st f = SideFile sz \<Longrightarrow> sz \<le> max_int64"
    and "sqlite_SampleStorage ce st db (used, rate, ts, None) = (used', rate', ts', None)" "vu_Valid used"
  shows "uint (vu_Value used') = uint (vu_Value used) + side_size (st (db @ ''-wal'')) + side_size (st (db @ ''-shm''))"
  using assms(2,3) add_sidecars_sum [OF assms(1), where sfx = "[''-wal'', ''-shm'']"]
  by (auto simp: sqlite_SampleStorage_def split: sum.splits)

theorem sqlite_footprint_exact_witness:
  "\<exists>used'. sqlite_SampleStorage (\<lambda>_. None) (\<lambda>f. if f = ''a-wal'' then SideFile 40 else SideMissing) ''a''
      (\<lparr>vu_Value = 2, vu_Valid = True\<rparr>, invalid_float, 1, None) = (used', invalid_float, 1, None) \<and>
    uint (vu_Value used') = 42"
proof -
  let ?st = "\<lambda>f. if f = ''a-wal'' then SideFile 40 else SideMissing" and ?u = "\<lparr>vu_Value = 2, vu_Valid = True\<rparr>"
  have r: "sqlite_SampleStorage (\<lambda>_. None) ?st ''a'' (?u, invalid_float, 1, None) =
      (\<lparr>vu_Value = 42, vu_Valid = True\<rparr>, invalid_float, 1, None)"
    by (simp add: sqlite_SampleStorage_def word_less_def)
  have "sz \<le> max_int64" if "?st f = SideFile sz" for f sz
    using that by (auto simp: max_int64_def split: if_splits)
  from sqlite_footprint_exact [OF this r] r show ?thesis by auto
qed

end
