(* ===== verification/Go_Strings.thy ===== *)
theory Go_Strings
  imports Go_Prelude
begin

text \<open>
  The parts of \<open>strings\<close>, \<open>bytes\<close> and \<open>strconv\<close> the agent parses operating system text with. A
  string is its bytes. \<open>Fields\<close> and \<open>TrimSpace\<close> know the white space of Unicode in its UTF-8 form;
  the numbers come back with Go's syntax and range errors. The lemmas give the round trips: printing
  a number and parsing it, and joining fields with spaces and splitting them again.
\<close>

section \<open>White space\<close>

text \<open>The number of bytes of the white space character a string starts with, 0 if it starts with none.
  No white space character contains a byte another one starts with, so scanning by bytes
  finds the same characters as scanning by runes.\<close>

definition space_len :: "string \<Rightarrow> nat" where
  "space_len s =
     (case s of [] \<Rightarrow> 0 | c # cs \<Rightarrow>
      if code c \<in> {9, 10, 11, 12, 13, 32} then 1
      else if code c = 0xC2 then
        (case cs of d # _ \<Rightarrow> if code d \<in> {0x85, 0xA0} then 2 else 0 | _ \<Rightarrow> 0)
      else case cs of
        d # e # _ \<Rightarrow>
          if (code c, code d, code e) \<in> {(0xE1, 0x9A, 0x80), (0xE2, 0x80, 0xA8), (0xE2, 0x80, 0xA9),
               (0xE2, 0x80, 0xAF), (0xE2, 0x81, 0x9F), (0xE3, 0x80, 0x80)} \<or>
             code c = 0xE2 \<and> code d = 0x80 \<and> 0x80 \<le> code e \<and> code e \<le> 0x8A
          then 3 else 0
      | _ \<Rightarrow> 0)"

text \<open>The string cut into white space characters and other bytes.\<close>

function chunks :: "string \<Rightarrow> (bool \<times> string) list" where
  "chunks [] = []"
| "chunks (c # cs) =
     (let n = space_len (c # cs) in
      if n = 0 then (False, [c]) # chunks cs else (True, take n (c # cs)) # chunks (drop n (c # cs)))"
  by pat_completeness auto
termination
  by (relation "measure length") auto

fun fields_of :: "(bool \<times> string) list \<Rightarrow> string \<Rightarrow> string list" where
  "fields_of [] acc = (if acc = [] then [] else [acc])"
| "fields_of ((white, s) # r) acc =
     (if white then (if acc = [] then fields_of r [] else acc # fields_of r []) else fields_of r (acc @ s))"

definition Fields :: "string \<Rightarrow> string list" where
  "Fields s = fields_of (chunks s) []"

definition TrimSpace :: "string \<Rightarrow> string" where
  "TrimSpace s = concat (map snd (rev (dropWhile fst (rev (dropWhile fst (chunks s))))))"

section \<open>Search and split\<close>

fun split_byte :: "'a \<Rightarrow> 'a list \<Rightarrow> 'a list list" where
  "split_byte c [] = [[]]"
| "split_byte c (x # xs) =
     (if x = c then [] # split_byte c xs
      else case split_byte c xs of [] \<Rightarrow> [[x]] | y # ys \<Rightarrow> (x # y) # ys)"

text \<open>The index of the first and of the last occurrence; \<^term>\<open>None\<close> is the -1 of Go.\<close>

fun IndexByte :: "'a list \<Rightarrow> 'a \<Rightarrow> nat option" where
  "IndexByte [] c = None"
| "IndexByte (x # xs) c = (if x = c then Some 0 else map_option Suc (IndexByte xs c))"

fun LastIndexByte :: "'a list \<Rightarrow> 'a \<Rightarrow> nat option" where
  "LastIndexByte [] c = None"
| "LastIndexByte (x # xs) c =
     (case LastIndexByte xs c of Some i \<Rightarrow> Some (Suc i) | None \<Rightarrow> if x = c then Some 0 else None)"

definition HasPrefix :: "'a list \<Rightarrow> 'a list \<Rightarrow> bool" where
  "HasPrefix s p \<longleftrightarrow> take (length p) s = p"

section \<open>Numbers\<close>

definition err_syntax :: "string \<Rightarrow> go_error" where
  "err_syntax s = errors_New (s @ '': invalid syntax'')"

definition err_range :: "string \<Rightarrow> go_error" where
  "err_range s = errors_New (s @ '': value out of range'')"

definition digit_of :: "nat \<Rightarrow> char \<Rightarrow> nat option" where
  "digit_of base c =
     (let n = code c;
          d = (if 48 \<le> n \<and> n \<le> 57 then n - 48
               else if 97 \<le> n \<and> n \<le> 122 then n - 87
               else if 65 \<le> n \<and> n \<le> 90 then n - 55
               else base)
      in if d < base then Some d else None)"

fun parse_loop :: "string \<Rightarrow> nat \<Rightarrow> nat \<Rightarrow> string \<Rightarrow> nat \<Rightarrow> nat \<times> go_error option" where
  "parse_loop s0 base maxVal [] n = (n, None)"
| "parse_loop s0 base maxVal (c # cs) n =
     (case digit_of base c of
        None \<Rightarrow> (0, Some (err_syntax s0))
      | Some d \<Rightarrow>
        if n * base + d > maxVal then (maxVal, Some (err_range s0))
        else parse_loop s0 base maxVal cs (n * base + d))"

definition ParseUint :: "string \<Rightarrow> nat \<Rightarrow> nat \<Rightarrow> nat \<times> go_error option" where
  "ParseUint s base bits =
     (if s = [] then (0, Some (err_syntax s)) else parse_loop s base (2 ^ bits - 1) s 0)"

text \<open>\<open>ParseInt\<close> and \<open>Atoi\<close> for 64 bits, base 10.\<close>

definition ParseInt :: "string \<Rightarrow> int \<times> go_error option" where
  "ParseInt s =
     (if s = [] then (0, Some (err_syntax s))
      else
        let neg = (hd s = CHR ''-'');
            s' = (if hd s = CHR ''-'' \<or> hd s = CHR ''+'' then tl s else s);
            (un, err) = ParseUint s' 10 64
        in
        if err \<noteq> None \<and> un = 0 then (0, Some (err_syntax s))
        else if \<not> neg \<and> un \<ge> 2 ^ 63 then (max_int64, Some (err_range s))
        else if neg \<and> un > 2 ^ 63 then (min_int64, Some (err_range s))
        else (if neg then - int un else int un, None))"

abbreviation Atoi :: "string \<Rightarrow> int \<times> go_error option" where
  "Atoi \<equiv> ParseInt"

section \<open>Lemmas\<close>

definition token :: "string \<Rightarrow> bool" where
  "token t \<longleftrightarrow> t \<noteq> [] \<and> (\<forall>c \<in> set t. code c < 128 \<and> code c \<notin> {9, 10, 11, 12, 13, 32})"

lemma space_len_ascii: "code c < 128 \<Longrightarrow> code c \<notin> {9, 10, 11, 12, 13, 32} \<Longrightarrow> space_len (c # s) = 0"
  by (simp add: space_len_def split: list.split)

lemma space_len_blank: "code c \<in> {9, 10, 11, 12, 13, 32} \<Longrightarrow> space_len (c # s) = 1"
  by (simp add: space_len_def)

lemma chunks_token:
  "(\<forall>c \<in> set t. code c < 128 \<and> code c \<notin> {9, 10, 11, 12, 13, 32}) \<Longrightarrow> chunks (t @ s) = map (\<lambda>c. (False, [c])) t @ chunks s"
  by (induction t) (simp_all add: space_len_ascii)

lemma chunks_blank: "code c \<in> {9, 10, 11, 12, 13, 32} \<Longrightarrow> chunks (c # s) = (True, [c]) # chunks s"
  by (simp only: chunks.simps space_len_blank Let_def) simp

lemma fields_of_word: "fields_of (map (\<lambda>c. (False, [c])) t @ r) acc = fields_of r (acc @ t)"
  by (induction t arbitrary: acc) simp_all

lemma Fields_cons:
  assumes "token t" "code c \<in> {9, 10, 11, 12, 13, 32}"
  shows "Fields (t @ c # s) = t # Fields s"
  using assms chunks_token [of t "c # s"] chunks_blank [of c s]
  by (simp add: Fields_def token_def fields_of_word del: chunks.simps)

lemma Fields_single: "token t \<Longrightarrow> Fields t = [t]"
  using chunks_token [of t "[]"] fields_of_word [of t "[]" "[]"] by (simp add: Fields_def token_def)

lemma Fields_Nil [simp]: "Fields [] = []"
  by (simp add: Fields_def)

lemma Fields_lines:
  "\<forall>t \<in> set ts. token t \<Longrightarrow> code c \<in> {9, 10, 11, 12, 13, 32} \<Longrightarrow> Fields (concat (map (\<lambda>t. t @ [c]) ts)) = ts"
proof (induction ts)
  case (Cons t ts)
  then show ?case using Fields_cons [of t c "concat (map (\<lambda>t. t @ [c]) ts)"] by simp
qed simp

lemma digit_of_digit: "n < 10 \<Longrightarrow> digit_of 10 (digit n) = Some n"
  by (simp add: digit_of_def digit_def code_def Let_def of_char_of)

lemma parse_loop_append:
  "parse_loop s0 b m xs n = (k, None) \<Longrightarrow> parse_loop s0 b m (xs @ ys) n = parse_loop s0 b m ys k"
  by (induction s0 b m xs n rule: parse_loop.induct) (auto split: option.splits if_splits)

lemma parse_loop_dec: "n \<le> m \<Longrightarrow> parse_loop s0 10 m (dec_nat n) 0 = (n, None)"
proof (induction n rule: dec_nat.induct)
  case (1 n)
  show ?case
  proof (cases "n < 10")
    case True
    with "1.prems" show ?thesis by (simp add: dec_nat.simps [of n] digit_of_digit)
  next
    case False
    with 1 have "parse_loop s0 10 m (dec_nat (n div 10)) 0 = (n div 10, None)"
      by (meson div_le_dividend order_trans)
    from parse_loop_append [OF this] False "1.prems" show ?thesis
      by (simp add: dec_nat.simps [of n] digit_of_digit div_mult_mod_eq)
  qed
qed

lemma ParseUint_dec: "n < 2 ^ bits \<Longrightarrow> ParseUint (dec_nat n) 10 bits = (n, None)"
  using parse_loop_dec [of n "2 ^ bits - 1"] by (simp add: ParseUint_def dec_nat_nonempty)

lemma parse_loop_le: "n \<le> m \<Longrightarrow> fst (parse_loop s0 b m xs n) \<le> m"
  by (induction xs arbitrary: n) (simp_all split: option.split)

lemma ParseUint_bound: "fst (ParseUint s b bits) < 2 ^ bits"
proof -
  have "fst (ParseUint s b bits) \<le> 2 ^ bits - 1"
    using parse_loop_le [of 0 "2 ^ bits - 1" s b s, OF le0] by (simp add: ParseUint_def)
  moreover have "0 < (2 :: nat) ^ bits" by simp
  ultimately show ?thesis by linarith
qed

lemma code_digit: "n < 10 \<Longrightarrow> code (digit n) = 48 + n"
  by (simp add: code_def digit_def)

lemma dec_nat_digits: "c \<in> set (dec_nat n) \<Longrightarrow> 48 \<le> code c \<and> code c \<le> 57"
proof (induction n rule: dec_nat.induct)
  case (1 n)
  then show ?case by (cases "n < 10") (auto simp: dec_nat.simps [of n] code_digit)
qed

lemma code_signs: "code (CHR ''-'') = 45" "code (CHR ''+'') = 43"
  by (simp_all add: code_def)

lemma hd_dec_nat: "hd (dec_nat n) \<noteq> CHR ''-'' \<and> hd (dec_nat n) \<noteq> CHR ''+''"
  using dec_nat_digits [of "hd (dec_nat n)" n] dec_nat_nonempty [of n] code_signs by force

lemma ParseInt_dec:
  assumes "is_int64 i"
  shows "ParseInt (dec_int i) = (i, None)"
proof (cases "i < 0")
  case True
  then have "ParseUint (dec_nat (nat (- i))) 10 64 = (nat (- i), None)"
    using assms by (intro ParseUint_dec) (auto simp: is_int64_def min_int64_def)
  with True assms show ?thesis by (auto simp: ParseInt_def dec_int_def is_int64_def min_int64_def)
next
  case False
  then have "ParseUint (dec_nat (nat i)) 10 64 = (nat i, None)"
    using assms by (intro ParseUint_dec) (auto simp: is_int64_def max_int64_def)
  with False assms hd_dec_nat [of "nat i"] dec_nat_nonempty [of "nat i"] show ?thesis
    by (auto simp: ParseInt_def dec_int_def is_int64_def max_int64_def)
qed

lemma token_dec_int: "token (dec_int i)"
  using dec_nat_digits dec_nat_nonempty
  by (fastforce simp: token_def dec_int_def code_signs)

lemma IndexByte_less: "IndexByte s c = Some i \<Longrightarrow> i < length s"
  by (induction s arbitrary: i) (auto split: if_splits)

lemma LastIndexByte_less: "LastIndexByte s c = Some i \<Longrightarrow> i < length s"
  by (induction s arbitrary: i) (auto split: if_splits option.splits)

lemma IndexByte_first: "c \<notin> set a \<Longrightarrow> IndexByte (a @ c # b) c = Some (length a)"
  by (induction a) auto

lemma LastIndexByte_None: "c \<notin> set s \<Longrightarrow> LastIndexByte s c = None"
  by (induction s) auto

lemma LastIndexByte_last: "c \<notin> set b \<Longrightarrow> LastIndexByte (a @ c # b) c = Some (length a)"
  by (induction a) (auto simp: LastIndexByte_None)

end
