(* ===== verification/Provider.thy ===== *)
theory Provider
  imports Coordinator Go_Strings
begin

text \<open>
  The providers of operating system measurements: \<open>src/agent/internal/governor/provider.go\<close> with the
  contract of \<open>OSResourceProvider\<close>, and its implementations for Linux (\<open>provider_linux.go\<close>) and
  Windows (\<open>provider_windows.go\<close>). What the kernel answers (resource usage, \<open>/proc\<close> texts, file
  sizes, process counters) is an argument of each sample. The contract is the locale
  \<open>resource_provider\<close>; both implementations satisfy it, and so the metrics accept what they report.
\<close>

section \<open>Shared steps\<close>

text \<open>The answer of \<open>os.Stat\<close> for a configured path.\<close>

datatype path_stat = PathErr go_error | PathDir | PathOther | PathRegular int

definition accumulateStorageSize :: "u64 \<Rightarrow> int \<Rightarrow> go_error + u64" where
  "accumulateStorageSize totalUsed fileSize =
     (if fileSize < 0 then Inl (errors_New (''negative file size: '' @ dec_int fileSize))
      else
        let fileSizeBytes = word_of_int fileSize in
        if fileSizeBytes > - 1 - totalUsed
        then Inl (errors_New (''storage size addition overflow: '' @ dec_nat (unat totalUsed) @ '' + '' @
               dec_nat (unat fileSizeBytes) @ '' exceeds math.MaxUint64''))
        else Inr (totalUsed + fileSizeBytes))"

fun storage_total :: "(string \<Rightarrow> path_stat) \<Rightarrow> string list \<Rightarrow> u64 \<Rightarrow> go_error + u64" where
  "storage_total st [] totalUsed = Inr totalUsed"
| "storage_total st (path # paths) totalUsed =
     (case st path of
        PathErr e \<Rightarrow> Inl e
      | PathDir \<Rightarrow> Inl (errors_New (''storage path '' @ path @ '' is a directory, which is prohibited''))
      | PathOther \<Rightarrow> Inl (errors_New (''storage path '' @ path @ '' is not a regular file, which is prohibited''))
      | PathRegular sz \<Rightarrow>
        (case accumulateStorageSize totalUsed sz of
           Inl e \<Rightarrow> Inl (wrap_err (''storage path '' @ path @ '': '') e)
         | Inr n \<Rightarrow> storage_total st paths n))"

text \<open>The normalised CPU usage; \<open>unit\<close> is the length of a unit of process time in nanoseconds.\<close>

definition normalize_cpu :: "int \<Rightarrow> int \<Rightarrow> int \<Rightarrow> int \<Rightarrow> f64 \<times> bool" where
  "normalize_cpu unit_ns elapsedProc elapsedWallNs numCPU =
     (if elapsedWallNs \<le> 0 \<or> elapsedProc < 0 \<or> numCPU \<le> 0 \<or> elapsedProc > go_div max_int64 unit_ns then (Fin 0, False)
      else
        let elapsedProcNs = wrap64 (elapsedProc * unit_ns);
            cpuFraction = f64_div (f64_of_int elapsedProcNs) (f64_of_int elapsedWallNs);
            cpuPercent = f64_mul (f64_div cpuFraction (f64_of_int numCPU)) hundred_f
        in (if f64_gt cpuPercent hundred_f then hundred_f else cpuPercent, True))"

definition normalizeCPULinux :: "int \<Rightarrow> int \<Rightarrow> int \<Rightarrow> f64 \<times> bool" where
  "normalizeCPULinux = normalize_cpu 1000"

definition normalizeCPU :: "int \<Rightarrow> int \<Rightarrow> int \<Rightarrow> f64 \<times> bool" where
  "normalizeCPU = normalize_cpu 100"

text \<open>The write rate since the last sample; invalid on the first one, after a counter went
  back, or when no time has passed.\<close>

definition write_rate :: "go_time \<Rightarrow> u64 \<Rightarrow> go_time \<Rightarrow> u64 \<Rightarrow> ValidFloat64" where
  "write_rate sampledAt writeBytes lastTime lastBytes =
     (if IsZero lastTime then \<lparr>vf_Value = Fin 0, vf_Valid = False\<rparr>
      else
        let elapsedSec = duration_Seconds (time_Sub sampledAt lastTime) in
        if f64_gt elapsedSec zero_f \<and> writeBytes \<ge> lastBytes
        then \<lparr>vf_Value = f64_div (f64_of_u64 (writeBytes - lastBytes)) elapsedSec, vf_Valid = True\<rparr>
        else \<lparr>vf_Value = Fin 0, vf_Valid = False\<rparr>)"

section \<open>Linux\<close>

record linuxProvider =
  lx_storagePaths :: "string list"
  lx_numCPU :: int
  lx_pageSize :: int
  lx_lastCPUSampleTime :: go_time
  lx_lastProcessTime :: int
  lx_lastStorageSampleTime :: go_time
  lx_lastWriteBytes :: u64

definition NewLinuxProvider :: "int \<Rightarrow> int \<Rightarrow> string list \<Rightarrow> linuxProvider" where
  "NewLinuxProvider numCPU pageSize paths =
     \<lparr>lx_storagePaths = paths, lx_numCPU = numCPU, lx_pageSize = pageSize, lx_lastCPUSampleTime = time_zero,
      lx_lastProcessTime = 0, lx_lastStorageSampleTime = time_zero, lx_lastWriteBytes = 0\<rparr>"

text \<open>User and system time, each in seconds and microseconds.\<close>

definition defaultGetrusage :: "go_error + (int \<times> int) \<times> (int \<times> int) \<Rightarrow> go_error + int" where
  "defaultGetrusage usage =
     (case usage of
        Inl e \<Rightarrow> Inl e
      | Inr ((us, uu), (ss, su)) \<Rightarrow> Inr (wrap64 (wrap64 (us + ss) * 1000000 + wrap64 (uu + su))))"

definition linux_SampleCPU ::
    "go_error option \<Rightarrow> go_time \<Rightarrow> go_error + int \<Rightarrow> linuxProvider \<Rightarrow>
     linuxProvider \<times> ValidFloat64 \<times> go_time \<times> go_error option" where
  "linux_SampleCPU ctxErr sampledAt rusage p =
     (if ctxErr \<noteq> None then (p, invalid_float, time_zero, ctxErr)
      else case rusage of
        Inl e \<Rightarrow> (p, invalid_float, sampledAt, Some e)
      | Inr totalUs \<Rightarrow>
        let p1 = p\<lparr>lx_lastCPUSampleTime := sampledAt, lx_lastProcessTime := totalUs\<rparr> in
        if IsZero (lx_lastCPUSampleTime p) then (p1, \<lparr>vf_Value = Fin 0, vf_Valid = False\<rparr>, sampledAt, None)
        else
          let elapsedWallNs = time_Sub sampledAt (lx_lastCPUSampleTime p);
              elapsedProcUs = wrap64 (totalUs - lx_lastProcessTime p);
              (cpuPercent, valid) = normalizeCPULinux elapsedProcUs elapsedWallNs (lx_numCPU p)
          in (p1, \<lparr>vf_Value = cpuPercent, vf_Valid = valid\<rparr>, sampledAt, None))"

definition linux_SampleMemory ::
    "go_error option \<Rightarrow> go_time \<Rightarrow> go_error + string \<Rightarrow> linuxProvider \<Rightarrow> ValidUint64 \<times> go_time \<times> go_error option" where
  "linux_SampleMemory ctxErr sampledAt statm p =
     (if ctxErr \<noteq> None then (invalid_uint, time_zero, ctxErr)
      else case statm of
        Inl e \<Rightarrow> (invalid_uint, sampledAt, Some e)
      | Inr data \<Rightarrow>
        let fields = Fields data in
        if length fields < 2 then (invalid_uint, sampledAt, Some (errors_New ''invalid statm format''))
        else case ParseUint (fields ! 1) 10 64 of
          (_, Some e) \<Rightarrow> (invalid_uint, sampledAt, Some (wrap_err ''failed to parse rss from statm: '' e))
        | (rssPages, None) \<Rightarrow>
          if lx_pageSize p \<le> 0
          then (invalid_uint, sampledAt, Some (errors_New (''invalid page size: '' @ dec_int (lx_pageSize p))))
          else if int rssPages > (2 ^ 64 - 1) div lx_pageSize p
          then (invalid_uint, sampledAt, Some (errors_New (''rss byte conversion overflow: pages='' @ dec_nat rssPages @
                  '', pageSize='' @ dec_int (lx_pageSize p))))
          else (\<lparr>vu_Value = of_nat rssPages * word_of_int (lx_pageSize p), vu_Valid = True\<rparr>, sampledAt, None))"

text \<open>The line \<open>write_bytes:\<close> of \<open>/proc/self/io\<close>; the first line with that prefix decides.\<close>

fun find_write_bytes :: "string list \<Rightarrow> u64 option" where
  "find_write_bytes [] = None"
| "find_write_bytes (line # lines) =
     (if HasPrefix line ''write_bytes:''
      then
        let parts = Fields line in
        if length parts = 2
        then case ParseUint (parts ! 1) 10 64 of (val, None) \<Rightarrow> Some (of_nat val) | _ \<Rightarrow> None
        else None
      else find_write_bytes lines)"

definition linux_SampleStorage ::
    "go_error option \<Rightarrow> go_time \<Rightarrow> (string \<Rightarrow> path_stat) \<Rightarrow> go_error + string \<Rightarrow> linuxProvider \<Rightarrow>
     linuxProvider \<times> ValidUint64 \<times> ValidFloat64 \<times> go_time \<times> go_error option" where
  "linux_SampleStorage ctxErr sampledAt st io p =
     (if ctxErr \<noteq> None then (p, invalid_uint, invalid_float, time_zero, ctxErr)
      else if lx_storagePaths p = [] then
        (p, invalid_uint, invalid_float, sampledAt, Some (errors_New
          ''storage paths configuration is empty: at least one regular file path must be configured''))
      else case storage_total st (lx_storagePaths p) 0 of
        Inl e \<Rightarrow> (p, invalid_uint, invalid_float, sampledAt, Some e)
      | Inr totalUsed \<Rightarrow>
      (case io of
        Inl e \<Rightarrow> (p, invalid_uint, invalid_float, sampledAt, Some e)
      | Inr ioData \<Rightarrow>
      (case find_write_bytes (split_byte (CHR 0x0A) ioData) of
        None \<Rightarrow> (p, invalid_uint, invalid_float, sampledAt, Some (errors_New ''write_bytes not found in /proc/self/io''))
      | Some writeBytes \<Rightarrow>
          (p\<lparr>lx_lastStorageSampleTime := sampledAt, lx_lastWriteBytes := writeBytes\<rparr>,
           \<lparr>vu_Value = totalUsed, vu_Valid = True\<rparr>,
           write_rate sampledAt writeBytes (lx_lastStorageSampleTime p) (lx_lastWriteBytes p), sampledAt, None))))"

section \<open>Windows\<close>

record windowsProvider =
  wn_storagePaths :: "string list"
  wn_numCPU :: int
  wn_lastCPUSampleTime :: go_time
  wn_lastProcessTime :: int
  wn_lastStorageSampleTime :: go_time
  wn_lastWriteBytes :: u64

definition NewWindowsProvider :: "int \<Rightarrow> go_error option \<Rightarrow> string list \<Rightarrow> go_error + windowsProvider" where
  "NewWindowsProvider numCPU procErr paths =
     (case procErr of
        Some e \<Rightarrow> Inl e
      | None \<Rightarrow> Inr \<lparr>wn_storagePaths = paths, wn_numCPU = numCPU, wn_lastCPUSampleTime = time_zero,
          wn_lastProcessTime = 0, wn_lastStorageSampleTime = time_zero, wn_lastWriteBytes = 0\<rparr>)"

text \<open>A \<open>FILETIME\<close> is two 32 bit halves; the halves do not overlap, so the disjunction is a sum.\<close>

definition filetime64 :: "u32 \<times> u32 \<Rightarrow> int" where
  "filetime64 ft = wrap64 (uint (fst ft) * 2 ^ 32 + uint (snd ft))"

definition win_SampleCPU ::
    "go_error option \<Rightarrow> go_time \<Rightarrow> go_error + (u32 \<times> u32) \<times> (u32 \<times> u32) \<Rightarrow> windowsProvider \<Rightarrow>
     windowsProvider \<times> ValidFloat64 \<times> go_time \<times> go_error option" where
  "win_SampleCPU ctxErr sampledAt procTimes p =
     (if ctxErr \<noteq> None then (p, invalid_float, time_zero, ctxErr)
      else case procTimes of
        Inl e \<Rightarrow> (p, invalid_float, sampledAt, Some e)
      | Inr (kernelTime, userTime) \<Rightarrow>
        let totalTime = wrap64 (filetime64 kernelTime + filetime64 userTime);
            p1 = p\<lparr>wn_lastCPUSampleTime := sampledAt, wn_lastProcessTime := totalTime\<rparr> in
        if IsZero (wn_lastCPUSampleTime p) then (p1, \<lparr>vf_Value = Fin 0, vf_Valid = False\<rparr>, sampledAt, None)
        else
          let elapsedWallNs = time_Sub sampledAt (wn_lastCPUSampleTime p);
              elapsedProcUnits = wrap64 (totalTime - wn_lastProcessTime p);
              (cpuPercent, valid) = normalizeCPU elapsedProcUnits elapsedWallNs (wn_numCPU p)
          in (p1, \<lparr>vf_Value = cpuPercent, vf_Valid = valid\<rparr>, sampledAt, None))"

text \<open>A call of a system procedure: the counters it filled in when its result is not 0, otherwise the
  error it reported, where an error number 0 or no error is no report.\<close>

datatype errno = ErrnoNil | ErrnoZero | Errno go_error

definition call_failure :: "string \<Rightarrow> errno \<Rightarrow> go_error" where
  "call_failure name err =
     (case err of Errno e \<Rightarrow> e | _ \<Rightarrow> errors_New (name @ '' failed without reporting a Windows error code''))"

definition win_SampleMemory :: "go_error option \<Rightarrow> go_time \<Rightarrow> errno + u64 \<Rightarrow> ValidUint64 \<times> go_time \<times> go_error option" where
  "win_SampleMemory ctxErr sampledAt info =
     (if ctxErr \<noteq> None then (invalid_uint, time_zero, ctxErr)
      else case info of
        Inl err \<Rightarrow> (invalid_uint, sampledAt, Some (call_failure ''GetProcessMemoryInfo'' err))
      | Inr workingSetSize \<Rightarrow> (\<lparr>vu_Value = workingSetSize, vu_Valid = True\<rparr>, sampledAt, None))"

definition win_SampleStorage ::
    "go_error option \<Rightarrow> go_time \<Rightarrow> (string \<Rightarrow> path_stat) \<Rightarrow> errno + u64 \<Rightarrow> windowsProvider \<Rightarrow>
     windowsProvider \<times> ValidUint64 \<times> ValidFloat64 \<times> go_time \<times> go_error option" where
  "win_SampleStorage ctxErr sampledAt st counters p =
     (if ctxErr \<noteq> None then (p, invalid_uint, invalid_float, time_zero, ctxErr)
      else if wn_storagePaths p = [] then
        (p, invalid_uint, invalid_float, sampledAt, Some (errors_New
          ''storage paths configuration is empty: at least one regular file path must be configured''))
      else case storage_total st (wn_storagePaths p) 0 of
        Inl e \<Rightarrow> (p, invalid_uint, invalid_float, sampledAt, Some e)
      | Inr totalUsed \<Rightarrow>
      (case counters of
        Inl err \<Rightarrow> (p, invalid_uint, invalid_float, sampledAt, Some (call_failure ''GetProcessIoCounters'' err))
      | Inr writeBytes \<Rightarrow>
          (p\<lparr>wn_lastStorageSampleTime := sampledAt, wn_lastWriteBytes := writeBytes\<rparr>,
           \<lparr>vu_Value = totalUsed, vu_Valid = True\<rparr>,
           write_rate sampledAt writeBytes (wn_lastStorageSampleTime p) (wn_lastWriteBytes p), sampledAt, None)))"

section \<open>The contract\<close>

text \<open>A non-negative float: a number at least 0, or positive infinity.\<close>

definition nonneg_f :: "f64 \<Rightarrow> bool" where
  "nonneg_f x \<longleftrightarrow> x = PosInf \<or> (\<exists>r. x = Fin r \<and> 0 \<le> r)"

lemma nonneg_f_simps [simp]:
  "nonneg_f PosInf" "nonneg_f (Fin r) \<longleftrightarrow> 0 \<le> r" "\<not> nonneg_f NaN" "\<not> nonneg_f NegInf"
  by (simp_all add: nonneg_f_def)

definition percent_f :: "f64 \<Rightarrow> bool" where
  "percent_f x \<longleftrightarrow> (\<exists>r. x = Fin r \<and> 0 \<le> r \<and> r \<le> 100)"

text \<open>
  What \<open>OSResourceProvider\<close> promises of one sample: a measurement with an error is not valid, a valid
  CPU usage is a percentage, a valid write rate is not negative, and the first CPU sample only sets
  the baseline.
\<close>

locale resource_provider =
  fixes cpu :: "'c \<Rightarrow> go_time \<Rightarrow> 'p \<Rightarrow> 'p \<times> ValidFloat64 \<times> go_time \<times> go_error option"
    and storage :: "'s \<Rightarrow> go_time \<Rightarrow> 'p \<Rightarrow> 'p \<times> ValidUint64 \<times> ValidFloat64 \<times> go_time \<times> go_error option"
    and fresh :: "'p \<Rightarrow> bool"
  assumes cpu_percent: "cpu x t p = (p', v, t', e) \<Longrightarrow> vf_Valid v \<Longrightarrow> percent_f (vf_Value v) \<and> e = None"
    and cpu_baseline: "fresh p \<Longrightarrow> cpu x t p = (p', v, t', e) \<Longrightarrow> \<not> vf_Valid v"
    and storage_rate: "storage y t p = (p', u, w, t', e) \<Longrightarrow> vf_Valid w \<Longrightarrow> nonneg_f (vf_Value w) \<and> e = None"
    and storage_error: "storage y t p = (p', u, w, t', Some err) \<Longrightarrow> \<not> vu_Valid u"
begin

lemma cpu_accepted: "cpu x t p = (p', v, t', e) \<Longrightarrow> snd (UpdateCPU v m) = None"
  using cpu_percent [of x t p p' v t' e]
  by (auto simp: UpdateCPU_def percent_f_def f64_lt_def f64_gt_def zero_f_def hundred_f_def)

lemma storage_accepted: "storage y t p = (p', u, w, t', e) \<Longrightarrow> snd (UpdateDisk u' w m) = None"
  using storage_rate [of y t p p' u w t' e]
  by (auto simp: UpdateDisk_def nonneg_f_def f64_lt_def zero_f_def)

text \<open>The measurements of one step of the coordinator are accepted by the metrics.\<close>

lemma sample_accepted:
  assumes "cpu x t p = (p1, v, t1, ce)" "storage y t p1 = (p2, u, w, t2, se)"
  shows "snd (UpdateCPU (fst (resolve_cpu d \<lparr>ps_CPU = v, ps_cpuErr = ce, ps_Mem = mem, ps_memErr = me, ps_Used = u, ps_Write = w, ps_storageErr = se\<rparr>)) m) = None"
    and "snd (UpdateDisk u' (snd (resolve_storage \<lparr>ps_CPU = v, ps_cpuErr = ce, ps_Mem = mem, ps_memErr = me, ps_Used = u, ps_Write = w, ps_storageErr = se\<rparr>)) m) = None"
proof -
  have i: "snd (UpdateCPU invalid_float m) = None" "snd (UpdateDisk u' invalid_float m) = None"
    by (simp_all add: UpdateCPU_def UpdateDisk_def invalid_float_def)
  show "snd (UpdateCPU (fst (resolve_cpu d \<lparr>ps_CPU = v, ps_cpuErr = ce, ps_Mem = mem, ps_memErr = me, ps_Used = u, ps_Write = w, ps_storageErr = se\<rparr>)) m) = None"
    using cpu_accepted [OF assms(1), of m] i by (simp add: resolve_cpu_def)
  show "snd (UpdateDisk u' (snd (resolve_storage \<lparr>ps_CPU = v, ps_cpuErr = ce, ps_Mem = mem, ps_memErr = me, ps_Used = u, ps_Write = w, ps_storageErr = se\<rparr>)) m) = None"
    using storage_accepted [OF assms(2), of u' m] i by (simp add: resolve_storage_def)
qed

end

subsection \<open>Arithmetic\<close>

lemma f64_of_rat_nonneg: "0 \<le> q \<Longrightarrow> nonneg_f (f64_of_rat q)"
proof -
  assume "0 \<le> q"
  then have "0 \<le> round_rat q" by (rule round_rat_nonneg)
  then show ?thesis by (auto simp: nonneg_f_def f64_of_rat_def Let_def f64_top_def)
qed

lemma f64_of_int_nonneg: "0 \<le> i \<Longrightarrow> nonneg_f (f64_of_int i)"
  by (simp add: f64_of_int_def f64_of_rat_nonneg)

lemma f64_of_int_pos:
  assumes "0 < i" "i \<le> 2 ^ 64"
  shows "\<exists>r. f64_of_int i = Fin r \<and> 1 \<le> r"
proof -
  have "round_rat (of_int 1) \<le> round_rat (of_int i)"
    using assms(1) by (intro round_rat_mono) simp
  then have "1 \<le> round_rat (of_int i)" using round_rat_int [of 1] by simp
  moreover have "f64_of_int i = Fin (round_rat (of_int i))"
    using assms by (intro f64_of_int_finite) simp
  ultimately show ?thesis by force
qed

lemma f64_of_int_pos_cases:
  assumes "0 < i"
  shows "f64_of_int i = PosInf \<or> (\<exists>r. f64_of_int i = Fin r \<and> 0 < r)"
proof -
  have "round_rat (of_int 1) \<le> round_rat (of_int i)"
    using assms by (intro round_rat_mono) simp
  then have "1 \<le> round_rat (of_int i)" using round_rat_int [of 1] by simp
  then have "\<not> round_rat (of_int i) \<le> - f64_top" "0 < round_rat (of_int i)" by (simp_all add: f64_top_def)
  then show ?thesis by (simp add: f64_of_int_def f64_of_rat_def Let_def)
qed

text \<open>A quotient of 64 bit integers is finite.\<close>

lemma f64_div_int_finite:
  assumes "0 \<le> i" "i \<le> 2 ^ 64" "1 \<le> b"
  shows "\<exists>r. f64_div (f64_of_int i) (Fin b) = Fin r \<and> 0 \<le> r"
proof -
  have g: "round_rat (of_int (2 ^ 64)) = of_int (2 ^ 64)" using round_rat_grid [of 1 64] by simp
  have i: "f64_of_int i = Fin (round_rat (of_int i))" using assms by (intro f64_of_int_finite) simp
  have "0 \<le> round_rat (of_int i)" using assms(1) by (intro round_rat_nonneg) simp
  moreover have "round_rat (of_int i) \<le> of_int (2 ^ 64)"
    using round_rat_mono [of "of_int i" "of_int (2 ^ 64)"] assms(2) unfolding g by (simp only: of_int_le_iff)
  ultimately have "0 \<le> round_rat (of_int i) / b" "round_rat (of_int i) / b \<le> of_int (2 ^ 64)"
    using assms(3) by (auto simp: divide_le_eq intro: order_trans mult_left_le)
  with g f64_of_rat_between [of 0 "of_int (2 ^ 64)" "round_rat (of_int i) / b"] small_lt_max [of "of_int (2 ^ 64)"] small_lt_max [of 0]
  show ?thesis using assms(3) i by auto
qed

lemma f64_div_nonneg: "nonneg_f x \<Longrightarrow> 0 < b \<Longrightarrow> nonneg_f (f64_div x (Fin b))"
  by (cases x) (simp_all add: inf_of_sign_def f64_of_rat_nonneg)

lemma f64_div_nonneg_gt: "nonneg_f x \<Longrightarrow> x \<noteq> PosInf \<Longrightarrow> f64_gt y zero_f \<Longrightarrow> nonneg_f (f64_div x y)"
  by (cases x; cases y) (simp_all add: f64_gt_def f64_lt_def zero_f_def f64_of_rat_nonneg)

lemma f64_mul_nonneg: "nonneg_f x \<Longrightarrow> 0 < b \<Longrightarrow> nonneg_f (f64_mul x (Fin b))"
  by (cases x) (simp_all add: inf_of_sign_def f64_of_rat_nonneg)

lemma clamp_percent: "nonneg_f x \<Longrightarrow> percent_f (if f64_gt x hundred_f then hundred_f else x)"
  by (auto simp: nonneg_f_def percent_f_def f64_gt_def f64_lt_def hundred_f_def)

lemma normalize_cpu_percent:
  assumes "normalize_cpu k proc wall n = (v, True)" "0 < k" "wall \<le> max_int64"
  shows "percent_f v"
proof -
  have g: "0 < wall" "0 \<le> proc" "0 < n" "proc \<le> go_div max_int64 k"
    using assms(1) by (auto simp: normalize_cpu_def split: if_splits)
  have pk: "0 \<le> proc * k" "proc * k \<le> max_int64"
  proof -
    have "proc \<le> max_int64 div k" using g(4) assms(2) by (simp add: go_div_nonneg max_int64_def)
    then have "proc * k \<le> max_int64 div k * k" using assms(2) by (simp add: mult_right_mono)
    also have "\<dots> \<le> max_int64" using assms(2) by (simp add: minus_mod_eq_div_mult [symmetric])
    finally show "proc * k \<le> max_int64" .
  qed (use g assms(2) in simp)
  then have w: "wrap64 (proc * k) = proc * k"
    by (simp add: wrap64_id is_int64_def min_int64_def)
  obtain a where a: "f64_of_int wall = Fin a" "1 \<le> a"
    using f64_of_int_pos [of wall] g assms(3) by (auto simp: max_int64_def)
  obtain q where q: "f64_div (f64_of_int (proc * k)) (Fin a) = Fin q" "0 \<le> q"
    using f64_div_int_finite [OF pk(1) _ a(2)] pk(2) by (auto simp: max_int64_def)
  have "nonneg_f (f64_div (Fin q) (f64_of_int n))"
    using f64_of_int_pos_cases [OF g(3)] q(2) f64_div_nonneg [of "Fin q"] by auto
  then have "nonneg_f (f64_mul (f64_div (Fin q) (f64_of_int n)) hundred_f)"
    using f64_mul_nonneg [of _ 100] by (simp add: hundred_f_def)
  from clamp_percent [OF this] show ?thesis
    using assms(1) by (simp add: normalize_cpu_def w a q Let_def split: if_splits)
qed

lemma write_rate_nonneg: "vf_Valid (write_rate t w t0 w0) \<Longrightarrow> nonneg_f (vf_Value (write_rate t w t0 w0))"
proof -
  have "nonneg_f (f64_of_u64 x)" for x by (simp add: f64_of_u64_def f64_of_int_nonneg)
  moreover have "f64_of_u64 x \<noteq> PosInf" for x by (simp add: f64_of_u64_finite)
  ultimately show "vf_Valid (write_rate t w t0 w0) \<Longrightarrow> nonneg_f (vf_Value (write_rate t w t0 w0))"
    by (auto simp: write_rate_def Let_def f64_div_nonneg_gt split: if_splits)
qed

lemma time_Sub_le: "time_Sub t u \<le> max_int64"
  by (simp add: time_Sub_def max_int64_def min_int64_def)

interpretation linux: resource_provider
  "\<lambda>x t p. linux_SampleCPU (fst x) t (snd x) p"
  "\<lambda>y t p. linux_SampleStorage (fst y) t (fst (snd y)) (snd (snd y)) p"
  "\<lambda>p. IsZero (lx_lastCPUSampleTime p)"
proof unfold_locales
  note splits = if_splits sum.splits prod.splits option.splits
  show "percent_f (vf_Value v) \<and> e = None"
    if "linux_SampleCPU (fst x) t (snd x) p = (p', v, t', e)" "vf_Valid v" for x t p p' v t' e
    using that time_Sub_le normalize_cpu_percent [of 1000]
    by (auto simp: linux_SampleCPU_def normalizeCPULinux_def invalid_float_def Let_def split: splits)
  show "\<not> vf_Valid v"
    if "IsZero (lx_lastCPUSampleTime p)"
      "linux_SampleCPU (fst x) t (snd x) p = (p', v, t', e)" for p x t p' v t' e
    using that by (auto simp: linux_SampleCPU_def invalid_float_def Let_def split: splits)
  show "nonneg_f (vf_Value w) \<and> e = None"
    if "linux_SampleStorage (fst y) t (fst (snd y)) (snd (snd y)) p = (p', u, w, t', e)" "vf_Valid w" for y t p p' u w t' e
    using that write_rate_nonneg by (auto simp: linux_SampleStorage_def invalid_float_def split: splits)
  show "\<not> vu_Valid u"
    if "linux_SampleStorage (fst y) t (fst (snd y)) (snd (snd y)) p = (p', u, w, t', Some e)" for y t p p' u w t' e
    using that by (auto simp: linux_SampleStorage_def invalid_uint_def split: splits)
qed


interpretation win: resource_provider
  "\<lambda>x t p. win_SampleCPU (fst x) t (snd x) p"
  "\<lambda>y t p. win_SampleStorage (fst y) t (fst (snd y)) (snd (snd y)) p"
  "\<lambda>p. IsZero (wn_lastCPUSampleTime p)"
proof unfold_locales
  note splits = if_splits sum.splits prod.splits option.splits
  show "percent_f (vf_Value v) \<and> e = None"
    if "win_SampleCPU (fst x) t (snd x) p = (p', v, t', e)" "vf_Valid v" for x t p p' v t' e
    using that time_Sub_le normalize_cpu_percent [of 100]
    by (auto simp: win_SampleCPU_def normalizeCPU_def invalid_float_def Let_def split: splits)
  show "\<not> vf_Valid v"
    if "IsZero (wn_lastCPUSampleTime p)"
      "win_SampleCPU (fst x) t (snd x) p = (p', v, t', e)" for p x t p' v t' e
    using that by (auto simp: win_SampleCPU_def invalid_float_def Let_def split: splits)
  show "nonneg_f (vf_Value w) \<and> e = None"
    if "win_SampleStorage (fst y) t (fst (snd y)) (snd (snd y)) p = (p', u, w, t', e)" "vf_Valid w" for y t p p' u w t' e
    using that write_rate_nonneg by (auto simp: win_SampleStorage_def invalid_float_def split: splits)
  show "\<not> vu_Valid u"
    if "win_SampleStorage (fst y) t (fst (snd y)) (snd (snd y)) p = (p', u, w, t', Some e)" for y t p p' u w t' e
    using that by (auto simp: win_SampleStorage_def invalid_uint_def split: splits)
qed


section \<open>Properties\<close>

text \<open>
  C27. Neither provider reports more than 100 percent or an invalid rate: a valid CPU sample is a
  number in 0 to 100 without error, whatever the counters, the clocks and the number of processors
  are, and the metrics accept every CPU and storage sample.
\<close>

theorem provider_samples_accepted:
  assumes "linux_SampleCPU ce t ru p = (p1, v, t1, e1)" "linux_SampleStorage ce' t st io p1 = (p2, u, w, t2, e2)"
    and "win_SampleCPU ce t pt q = (q1, v', t1', e1')" "win_SampleStorage ce' t st counters q1 = (q2, u', w', t2', e2')"
  shows "(vf_Valid v \<longrightarrow> percent_f (vf_Value v) \<and> e1 = None) \<and> (vf_Valid v' \<longrightarrow> percent_f (vf_Value v') \<and> e1' = None) \<and>
    snd (UpdateCPU v m) = None \<and> snd (UpdateDisk u w m) = None \<and>
    snd (UpdateCPU v' m) = None \<and> snd (UpdateDisk u' w' m) = None"
  using linux.cpu_percent [of "(ce, ru)" t p p1 v t1 e1] linux.cpu_accepted [of "(ce, ru)" t p p1 v t1 e1 m]
    linux.storage_accepted [of "(ce', st, io)" t p1 p2 u w t2 e2 u m]
    win.cpu_percent [of "(ce, pt)" t q q1 v' t1' e1'] win.cpu_accepted [of "(ce, pt)" t q q1 v' t1' e1' m]
    win.storage_accepted [of "(ce', st, counters)" t q1 q2 u' w' t2' e2' u' m] assms
  by simp

definition demo_lx :: linuxProvider where
  "demo_lx = (NewLinuxProvider 4 4096 [''agent.db''])\<lparr>lx_lastCPUSampleTime := 1\<rparr>"

definition demo_wn :: windowsProvider where
  "demo_wn = \<lparr>wn_storagePaths = [''agent.db''], wn_numCPU = 4, wn_lastCPUSampleTime = 1, wn_lastProcessTime = 0,
     wn_lastStorageSampleTime = time_zero, wn_lastWriteBytes = 0\<rparr>"

lemma demo_lx_cpu:
  "\<exists>p1 v t1. linux_SampleCPU None 1000000001 (Inr 8000000) demo_lx = (p1, v, t1, None) \<and> vf_Valid v"
  by (simp add: linux_SampleCPU_def demo_lx_def NewLinuxProvider_def normalizeCPULinux_def normalize_cpu_def
      IsZero_def time_zero_def time_Sub_def max_int64_def min_int64_def wrap64_def go_div_def Let_def)

theorem provider_samples_accepted_witness:
  "\<exists>p1 v t1. linux_SampleCPU None 1000000001 (Inr 8000000) demo_lx = (p1, v, t1, None) \<and>
    percent_f (vf_Value v) \<and> snd (UpdateCPU v NewGovernorMetrics) = None"
proof -
  obtain p1 v t1 where L: "linux_SampleCPU None 1000000001 (Inr 8000000) demo_lx = (p1, v, t1, None)" "vf_Valid v"
    using demo_lx_cpu by blast
  obtain p2 u w t2 e2 where S: "linux_SampleStorage None 1000000001 (\<lambda>_. PathRegular 7) (Inr ''write_bytes: 12'') p1 = (p2, u, w, t2, e2)"
    by (metis surj_pair)
  obtain q1 v' t1' e1' where W: "win_SampleCPU None 1000000001 (Inr ((0, 1), (0, 1))) demo_wn = (q1, v', t1', e1')"
    by (metis surj_pair)
  obtain q2 u' w' t2' e2' where T: "win_SampleStorage None 1000000001 (\<lambda>_. PathRegular 7) (Inr 12) q1 = (q2, u', w', t2', e2')"
    by (metis surj_pair)
  from provider_samples_accepted [OF L(1) S W T, of NewGovernorMetrics] L show ?thesis by blast
qed

text \<open>
  The resident memory is exact: a valid memory sample is the number of pages of \<open>/proc/self/statm\<close>
  times the page size as a natural number; a product beyond 64 bits is an error and never a
  wrapped value.
\<close>

theorem linux_memory_exact:
  assumes "linux_SampleMemory None t (Inr statm) p = (v, t', e)" "vu_Valid v"
  shows "e = None \<and> (\<exists>pages. ParseUint (Fields statm ! 1) 10 64 = (pages, None) \<and>
    uint (vu_Value v) = int pages * lx_pageSize p)"
proof -
  obtain pages where p: "ParseUint (Fields statm ! 1) 10 64 = (pages, None)" "0 < lx_pageSize p"
    "int pages \<le> (2 ^ 64 - 1) div lx_pageSize p" "e = None" "vu_Value v = of_nat pages * word_of_int (lx_pageSize p)"
    using assms by (auto simp: linux_SampleMemory_def invalid_uint_def Let_def split: if_splits prod.splits option.splits)
  from p(2,3) have "int pages * lx_pageSize p \<le> (2 ^ 64 - 1) div lx_pageSize p * lx_pageSize p"
    by (simp add: mult_right_mono)
  also have "\<dots> \<le> 2 ^ 64 - 1" using p(2) by (simp add: minus_mod_eq_div_mult [symmetric])
  finally have "uint (word_of_int (int pages * lx_pageSize p) :: u64) = int pages * lx_pageSize p"
    using p(2) by (intro word_of_int_inverse) simp_all
  with p show ?thesis by simp
qed

theorem linux_memory_exact_witness:
  "\<exists>v. linux_SampleMemory None 5 (Inr ''9 3 1 '') demo_lx = (v, 5, None) \<and> uint (vu_Value v) = 12288"
proof -
  have f: "Fields ''9 3 1 '' = [''9'', ''3'', ''1'']"
    using Fields_lines [of "[''9'', ''3'', ''1'']" "CHR '' ''"] by (simp add: token_def code_def)
  have n: "ParseUint ''3'' 10 64 = (3, None)"
    by (simp add: ParseUint_def digit_of_def code_def)
  have r: "linux_SampleMemory None 5 (Inr ''9 3 1 '') demo_lx = (\<lparr>vu_Value = 12288, vu_Valid = True\<rparr>, 5, None)"
    by (simp add: linux_SampleMemory_def f n demo_lx_def NewLinuxProvider_def)
  from linux_memory_exact [OF r] r f n show ?thesis by (auto simp: demo_lx_def NewLinuxProvider_def)
qed

section \<open>The provider of the endpoint\<close>

text \<open>\<open>NewSQLiteResourceProvider\<close>: the error, given the one of \<open>NewOSResourceProvider\<close>, which on other systems always
  fails.\<close>

definition ErrUnsupportedPlatform :: go_error where
  "ErrUnsupportedPlatform = errors_New ''os resource provider is not supported on this platform''"

definition other_NewOSResourceProvider :: "go_error option" where
  "other_NewOSResourceProvider = Some ErrUnsupportedPlatform"

definition NewSQLiteResourceProvider :: "string \<Rightarrow> go_error option \<Rightarrow> go_error option" where
  "NewSQLiteResourceProvider dbPath baseErr =
     (if dbPath = [] then Some (errors_New ''SQLite database path is required'') else baseErr)"

end
