(* ===== verification/Process.thy ===== *)
theory Process
  imports Events "HOL-Library.Product_Lexorder" "HOL-Library.Multiset"
begin

text \<open>
  The process collector, \<open>src/agent/internal/collectors/process\<close>: process instances and their identity
  (\<open>model.go\<close>), snapshots (\<open>reconcile.go\<close>), the lifecycle engine that turns snapshots and single
  observations into start and exit events (\<open>lifecycle.go\<close>), and the collector around it
  (\<open>collector.go\<close>). The map of known instances is an association list; the order in which Go iterates
  over it is an argument. The lemmas show that the engine refines the set of live processes:
  a start is only reported for a process that is not known, an exit only for one that is.
\<close>

section \<open>Instances\<close>

record Instance =
  PID :: int
  StartTime :: go_time
  inst_Name :: "string option"
  ParentPID :: "int option"
  ExecutablePath :: "string option"
  CommandLine :: "string option"
  inst_User :: "string option"

definition zero_instance :: "int \<Rightarrow> Instance" where
  "zero_instance pid =
     \<lparr>PID = pid, StartTime = time_zero, inst_Name = None, ParentPID = None, ExecutablePath = None,
      CommandLine = None, inst_User = None\<rparr>"

definition IdentityKey :: "Instance \<Rightarrow> string" where
  "IdentityKey i = dec_int (PID i) @ ''-'' @ dec_int (UnixNano (StartTime i))"

type_synonym snapshot = "Instance list"

section \<open>The lifecycle engine\<close>

datatype proc_action = ActionProcessStart | ActionProcessExit

fun action_text :: "proc_action \<Rightarrow> string" where
  "action_text ActionProcessStart = ''PROCESS_START''"
| "action_text ActionProcessExit = ''PROCESS_EXIT''"

text \<open>\<open>ready\<close> is closed when the baseline is established, together with \<open>initialized\<close>.\<close>

record LifecycleEngine =
  le_state :: "(string \<times> Instance) list"
  initialized :: bool

definition NewLifecycleEngine :: LifecycleEngine where
  "NewLifecycleEngine = \<lparr>le_state = [], initialized = False\<rparr>"

text \<open>The first loop of \<open>Reconcile\<close>: the state, the observed keys, the process ids whose start time could not
  be read, and the instances to report as started.\<close>

fun observe ::
    "bool \<Rightarrow> snapshot \<Rightarrow> (string \<times> Instance) list \<Rightarrow> (string \<times> Instance) list \<times> string set \<times> int set \<times> Instance list" where
  "observe init [] st = (st, {}, {}, [])"
| "observe init (inst # insts) st =
     (if IsZero (StartTime inst)
      then case observe init insts st of (st', observed, unobservable, starts) \<Rightarrow>
        (st', observed, insert (PID inst) unobservable, starts)
      else
        let key = IdentityKey inst;
            new = (map_of st key = None);
            st1 = (if new then (key, inst) # st else st)
        in case observe init insts st1 of (st', observed, unobservable, starts) \<Rightarrow>
          (st', insert key observed, unobservable, if new \<and> init then inst # starts else starts))"

definition exited :: "string set \<Rightarrow> int set \<Rightarrow> string \<times> Instance \<Rightarrow> bool" where
  "exited observed unobservable ki \<longleftrightarrow> fst ki \<notin> observed \<and> PID (snd ki) \<notin> unobservable"

definition by_pid :: "Instance list \<Rightarrow> Instance list" where
  "by_pid = sort_key (\<lambda>i. (PID i, StartTime i))"

type_synonym emission = "Instance \<times> proc_action"

text \<open>\<open>Reconcile\<close>; \<open>ord\<close> is the order in which the map of instances is iterated over. The result lists the
  calls of \<open>emit\<close> in their order.\<close>

definition le_Reconcile ::
    "((string \<times> Instance) list \<Rightarrow> (string \<times> Instance) list) \<Rightarrow> snapshot \<Rightarrow> LifecycleEngine \<Rightarrow>
     LifecycleEngine \<times> emission list" where
  "le_Reconcile ord snap le =
     (case observe (initialized le) snap (le_state le) of (st, observed, unobservable, starts) \<Rightarrow>
      if initialized le then
        (le\<lparr>le_state := filter (\<lambda>ki. \<not> exited observed unobservable ki) st\<rparr>,
         map (\<lambda>i. (i, ActionProcessExit)) (by_pid (map snd (filter (exited observed unobservable) (ord st)))) @
         map (\<lambda>i. (i, ActionProcessStart)) (by_pid starts))
      else (le\<lparr>le_state := st, initialized := True\<rparr>, map (\<lambda>i. (i, ActionProcessStart)) (by_pid starts)))"

definition le_HandleEvent :: "Instance \<Rightarrow> bool \<Rightarrow> LifecycleEngine \<Rightarrow> LifecycleEngine \<times> emission list" where
  "le_HandleEvent inst isStart le =
     (if IsZero (StartTime inst) then (le, [])
      else
        let key = IdentityKey inst in
        if isStart then
          (case map_of (le_state le) key of
             None \<Rightarrow> (le\<lparr>le_state := (key, inst) # le_state le\<rparr>,
                      if initialized le then [(inst, ActionProcessStart)] else [])
           | Some _ \<Rightarrow> (le, []))
        else
          (case map_of (le_state le) key of
             None \<Rightarrow> (le, [])
           | Some knownInst \<Rightarrow>
               (le\<lparr>le_state := filter (\<lambda>ki. fst ki \<noteq> key) (le_state le)\<rparr>, [(knownInst, ActionProcessExit)])))"

text \<open>\<open>WaitReady\<close>: the error of the context, or success once the baseline is established; \<^term>\<open>None\<close>
  while it blocks. When both hold, Go chooses.\<close>

definition le_WaitReady :: "bool \<Rightarrow> go_error option \<Rightarrow> LifecycleEngine \<Rightarrow> go_error option option" where
  "le_WaitReady ctx_first ctxErr le =
     (if ctxErr \<noteq> None \<and> (ctx_first \<or> \<not> initialized le) then Some ctxErr
      else if initialized le then Some None else None)"

text \<open>One call of \<open>emit\<close>: the random UUID, the two readings of the clock, the rendering of a time in the zone
  of the host and in UTC, and whether the context was done before the channel took the event.\<close>

record emit_env =
  em_uuid :: string
  em_now_exit :: go_time
  em_now :: go_time
  em_format :: "go_time \<Rightarrow> string"
  em_format_utc :: "go_time \<Rightarrow> string"
  em_done :: bool

definition put_opt :: "string \<Rightarrow> ('a \<Rightarrow> gval) \<Rightarrow> 'a option \<Rightarrow> metadata \<Rightarrow> metadata" where
  "put_opt key f v m = (case v of None \<Rightarrow> m | Some x \<Rightarrow> m(key \<mapsto> f x))"

definition emit_event :: "emit_env \<Rightarrow> emission \<Rightarrow> canonical_event" where
  "emit_event env e =
     (case e of (inst, action) \<Rightarrow>
      let m0 = [''pid'' \<mapsto> GNum (PID inst), ''start_time'' \<mapsto> GStr (em_format env (StartTime inst))];
          m1 = put_opt ''process_name'' GStr (inst_Name inst) m0;
          m2 = put_opt ''parent_pid'' GNum (ParentPID inst) m1;
          m3 = put_opt ''executable_path'' GStr (ExecutablePath inst) m2;
          m4 = put_opt ''command_line'' GStr (CommandLine inst) m3;
          m5 = put_opt ''user'' GStr (inst_User inst) m4;
          m6 = (if action = ActionProcessExit then m5(''exit_time'' \<mapsto> GStr (em_format_utc env (em_now_exit env))) else m5)
      in zero_event\<lparr>EventID := em_uuid env, OccurredAt := em_now env, Source := ''agent'', Category := ''process'',
           Action := action_text action, Severity := ''INFO'', Metadata := Some m6,
           SchemaVersion := CurrentSchemaVersion\<rparr>)"

definition emit :: "emit_env \<Rightarrow> emission \<Rightarrow> canonical_event option" where
  "emit env e = (if em_done env then None else Some (emit_event env e))"

section \<open>The collector\<close>

record ProcessCollector =
  pc_engine :: "LifecycleEngine option"
  pc_running :: bool
  pc_started :: bool
  pc_stopped :: bool

definition pc_NewCollector :: ProcessCollector where
  "pc_NewCollector = \<lparr>pc_engine = None, pc_running = False, pc_started = False, pc_stopped = False\<rparr>"

text \<open>\<open>pc_running\<close> says that \<open>cancel\<close> is set: the goroutine of the adapter runs until \<open>Stop\<close>.\<close>

definition pc_Start :: "ProcessCollector \<Rightarrow> ProcessCollector \<times> go_error option" where
  "pc_Start c =
     (if pc_stopped c then (c, Some (errors_New ''collector cannot be restarted''))
      else if pc_started c then (c, Some (errors_New ''collector already started''))
      else (c\<lparr>pc_started := True, pc_engine := Some NewLifecycleEngine, pc_running := True\<rparr>, None))"

definition pc_Stop :: "ProcessCollector \<Rightarrow> ProcessCollector" where
  "pc_Stop c = c\<lparr>pc_running := False, pc_stopped := True\<rparr>"

definition pc_Reconcile ::
    "((string \<times> Instance) list \<Rightarrow> (string \<times> Instance) list) \<Rightarrow> snapshot \<Rightarrow> ProcessCollector \<Rightarrow>
     ProcessCollector \<times> emission list" where
  "pc_Reconcile ord snap c =
     (case pc_engine c of
        None \<Rightarrow> (c, [])
      | Some le \<Rightarrow> case le_Reconcile ord snap le of (le', em) \<Rightarrow> (c\<lparr>pc_engine := Some le'\<rparr>, em))"

definition pc_HandleEvent :: "Instance \<Rightarrow> bool \<Rightarrow> ProcessCollector \<Rightarrow> ProcessCollector \<times> emission list" where
  "pc_HandleEvent inst isStart c =
     (case pc_engine c of
        None \<Rightarrow> (c, [])
      | Some le \<Rightarrow> case le_HandleEvent inst isStart le of (le', em) \<Rightarrow> (c\<lparr>pc_engine := Some le'\<rparr>, em))"

definition pc_WaitReady :: "bool \<Rightarrow> go_error option \<Rightarrow> ProcessCollector \<Rightarrow> go_error option option" where
  "pc_WaitReady ctx_first ctxErr c =
     (case pc_engine c of None \<Rightarrow> Some None | Some le \<Rightarrow> le_WaitReady ctx_first ctxErr le)"

section \<open>Identity\<close>

lemma append_first_eq:
  "x \<notin> set a \<Longrightarrow> x \<notin> set c \<Longrightarrow> a @ x # b = c @ x # d \<Longrightarrow> a = c \<and> b = d"
proof (induction a arbitrary: c)
  case (Cons y a)
  then show ?case by (cases c) auto
qed (metis append_self_conv2 hd_append2 list.inject list.sel(1) list.set_sel(1))

lemma dec_nat_minus: "dec_nat n @ x \<noteq> CHR ''-'' # y"
  using minus_notin_dec_nat [of n] dec_nat_nonempty [of n] by (cases "dec_nat n") auto

lemma dec_int_split:
  assumes "dec_int i @ CHR ''-'' # s = dec_int j @ CHR ''-'' # t"
  shows "i = j \<and> s = t"
proof -
  note split = append_first_eq [OF minus_notin_dec_nat minus_notin_dec_nat]
  have "dec_int i = dec_int j \<and> s = t"
  proof (cases "i < 0"; cases "j < 0")
    assume "i < 0" "j < 0"
    with assms split show ?thesis by (simp add: dec_int_def)
  next
    assume "\<not> i < 0" "\<not> j < 0"
    with assms split show ?thesis by (simp add: dec_int_def)
  next
    assume "i < 0" "\<not> j < 0"
    with assms dec_nat_minus [THEN not_sym] show ?thesis by (simp add: dec_int_def)
  next
    assume "\<not> i < 0" "j < 0"
    with assms dec_nat_minus show ?thesis by (simp add: dec_int_def)
  qed
  then show ?thesis using dec_int_inj by blast
qed

lemma IdentityKey_eq:
  assumes "is_int64 (StartTime i - unix_epoch)" "is_int64 (StartTime j - unix_epoch)"
    and "IdentityKey i = IdentityKey j"
  shows "PID i = PID j \<and> StartTime i = StartTime j"
proof -
  have "PID i = PID j \<and> dec_int (UnixNano (StartTime i)) = dec_int (UnixNano (StartTime j))"
    using assms(3) by (intro dec_int_split) (simp add: IdentityKey_def)
  with dec_int_inj UnixNano_inj [OF assms(1,2)] show ?thesis by blast
qed

section \<open>The invariant\<close>

definition state_ok :: "(string \<times> Instance) list \<Rightarrow> bool" where
  "state_ok st \<longleftrightarrow> distinct (map fst st) \<and> (\<forall>(k, i) \<in> set st. k = IdentityKey i \<and> \<not> IsZero (StartTime i))"

abbreviation keys :: "(string \<times> Instance) list \<Rightarrow> string set" where
  "keys st \<equiv> fst ` set st"

definition observed_keys :: "snapshot \<Rightarrow> string set" where
  "observed_keys snap = IdentityKey ` {i \<in> set snap. \<not> IsZero (StartTime i)}"

definition unreadable :: "snapshot \<Rightarrow> int set" where
  "unreadable snap = PID ` {i \<in> set snap. IsZero (StartTime i)}"

lemma observed_keys_Cons [simp]:
  "observed_keys (i # snap) = (if IsZero (StartTime i) then observed_keys snap else insert (IdentityKey i) (observed_keys snap))"
  by (auto simp: observed_keys_def)

lemma unreadable_Cons [simp]:
  "unreadable (i # snap) = (if IsZero (StartTime i) then insert (PID i) (unreadable snap) else unreadable snap)"
  by (auto simp: unreadable_def)

lemma observe_sets:
  assumes "observe init snap st = (st', obs, un, starts)"
  shows "obs = observed_keys snap" and "un = unreadable snap"
  using assms
  by (induction init snap st arbitrary: st' obs un starts rule: observe.induct)
     (auto simp: observed_keys_def [of "[]"] unreadable_def [of "[]"] Let_def split: if_splits prod.splits)

lemma map_of_None_keys: "map_of st k = None \<longleftrightarrow> k \<notin> keys st"
  by (simp add: map_of_eq_None_iff)

lemma state_ok_Cons: "state_ok ((k, i) # st) \<longleftrightarrow> k \<notin> keys st \<and> k = IdentityKey i \<and> \<not> IsZero (StartTime i) \<and> state_ok st"
  by (auto simp: state_ok_def)

lemma state_okD: "state_ok st \<Longrightarrow> (k, i) \<in> set st \<Longrightarrow> k = IdentityKey i \<and> \<not> IsZero (StartTime i)"
  by (auto simp: state_ok_def)

lemma state_ok_unique: "state_ok st \<Longrightarrow> (k, i) \<in> set st \<Longrightarrow> (k, j) \<in> set st \<Longrightarrow> i = j"
  unfolding state_ok_def by (meson eq_key_imp_eq_value)

lemma state_ok_filter: "state_ok st \<Longrightarrow> state_ok (filter P st)"
  by (auto simp: state_ok_def distinct_map_filter)

lemma observe_ok:
  assumes "observe init snap st = (st', obs, un, starts)" "state_ok st"
  shows "state_ok st' \<and> keys st' = keys st \<union> observed_keys snap \<and> set st \<subseteq> set st' \<and>
    (if init then distinct (map IdentityKey starts) \<and> IdentityKey ` set starts = observed_keys snap - keys st \<and>
        set starts \<subseteq> set snap else starts = [])"
  using assms
proof (induction init snap st arbitrary: st' obs un starts rule: observe.induct)
  case (2 init inst insts st)
  show ?case
  proof (cases "IsZero (StartTime inst)")
    case True
    then obtain un' where "observe init insts st = (st', obs, un', starts)"
      using "2.prems"(1) by (auto split: prod.splits)
    with "2.IH"(1) [OF True] "2.prems"(2) True show ?thesis by (auto split: if_splits)
  next
    case False
    let ?k = "IdentityKey inst" and ?new = "map_of st (IdentityKey inst) = None"
    let ?st1 = "if ?new then (?k, inst) # st else st"
    from False "2.prems"(1) obtain obs' starts' where
      o: "observe init insts ?st1 = (st', obs', un, starts')"
        "starts = (if ?new \<and> init then inst # starts' else starts')"
      by (auto simp: Let_def split: prod.splits if_splits)
    have ok: "state_ok ?st1" using "2.prems"(2) False by (simp add: state_ok_Cons map_of_None_keys)
    from "2.IH"(2) [OF False refl refl refl o(1) ok] o(2) False map_of_None_keys [of st ?k]
    show ?thesis by (cases "?k \<in> keys st") (auto simp: image_iff split: if_splits)
  qed
qed (auto simp: observed_keys_def)

text \<open>Every operation keeps the invariant.\<close>

lemma le_Reconcile_ok: "state_ok (le_state le) \<Longrightarrow> state_ok (le_state (fst (le_Reconcile ord snap le)))"
  using observe_ok [of "initialized le" snap "le_state le"]
  by (auto simp: le_Reconcile_def state_ok_filter split: prod.split)

lemma le_HandleEvent_ok: "state_ok (le_state le) \<Longrightarrow> state_ok (le_state (fst (le_HandleEvent inst b le)))"
  by (auto simp: le_HandleEvent_def Let_def state_ok_Cons state_ok_filter map_of_None_keys split: option.split)

section \<open>Refinement of the set of live processes\<close>

text \<open>The specification: a start adds a process that is not live, an exit removes one that is.\<close>

inductive live_run :: "string set \<Rightarrow> (string \<times> proc_action) list \<Rightarrow> string set \<Rightarrow> bool" where
  live_nil: "live_run S [] S"
| live_start: "k \<notin> S \<Longrightarrow> live_run (insert k S) tr S' \<Longrightarrow> live_run S ((k, ActionProcessStart) # tr) S'"
| live_exit: "k \<in> S \<Longrightarrow> live_run (S - {k}) tr S' \<Longrightarrow> live_run S ((k, ActionProcessExit) # tr) S'"

inductive_cases live_run_NilE [elim!]: "live_run S [] S'"
inductive_cases live_run_ConsE [elim!]: "live_run S (x # tr) S'"

lemma live_run_append: "live_run S tr S' \<Longrightarrow> live_run S' tr' S'' \<Longrightarrow> live_run S (tr @ tr') S''"
  by (induction rule: live_run.induct) (auto intro: live_run.intros)

lemma live_exits:
  "distinct ks \<Longrightarrow> set ks \<subseteq> S \<Longrightarrow> live_run S (map (\<lambda>k. (k, ActionProcessExit)) ks) (S - set ks)"
proof (induction ks arbitrary: S)
  case (Cons k ks)
  then have "live_run (S - {k}) (map (\<lambda>k. (k, ActionProcessExit)) ks) (S - {k} - set ks)"
    by (intro Cons.IH) auto
  with Cons.prems show ?case by (auto intro!: live_exit simp: Diff_insert2 [symmetric])
qed (simp add: live_nil)

lemma live_starts:
  "distinct ks \<Longrightarrow> set ks \<inter> S = {} \<Longrightarrow> live_run S (map (\<lambda>k. (k, ActionProcessStart)) ks) (S \<union> set ks)"
proof (induction ks arbitrary: S)
  case (Cons k ks)
  then have "live_run (insert k S) (map (\<lambda>k. (k, ActionProcessStart)) ks) (insert k S \<union> set ks)"
    by (intro Cons.IH) auto
  with Cons.prems show ?case by (auto intro!: live_start)
qed (simp add: live_nil)

definition trace :: "emission list \<Rightarrow> (string \<times> proc_action) list" where
  "trace em = map (\<lambda>(i, a). (IdentityKey i, a)) em"

lemma trace_append [simp]: "trace (xs @ ys) = trace xs @ trace ys"
  by (simp add: trace_def)

lemma trace_map: "trace (map (\<lambda>i. (i, a)) is) = map (\<lambda>k. (k, a)) (map IdentityKey is)"
  by (simp add: trace_def)

lemma distinct_keys_by_pid: "distinct (map IdentityKey (by_pid xs)) \<longleftrightarrow> distinct (map IdentityKey xs)"
  unfolding by_pid_def by (metis mset_map mset_sort mset_eq_imp_distinct_iff)

lemma set_by_pid [simp]: "set (by_pid xs) = set xs"
  by (simp add: by_pid_def)

lemma state_ok_keys: "state_ok st \<Longrightarrow> map IdentityKey (map snd (filter P st)) = map fst (filter P st)"
  by (auto simp: state_ok_def)

definition iteration :: "((string \<times> Instance) list \<Rightarrow> (string \<times> Instance) list) \<Rightarrow> bool" where
  "iteration ord \<longleftrightarrow> (\<forall>xs. mset (ord xs) = mset xs)"

lemma exits_mset: "iteration ord \<Longrightarrow> mset (filter P (ord st)) = mset (filter P st)"
  by (simp add: iteration_def)

lemma le_Reconcile_refines:
  assumes "initialized le" "state_ok (le_state le)" "iteration ord" "le_Reconcile ord snap le = (le', em)"
  shows "live_run (keys (le_state le)) (trace em) (keys (le_state le')) \<and> initialized le'"
proof -
  obtain st obs un starts where o: "observe True snap (le_state le) = (st, obs, un, starts)" by (metis surj_pair)
  note ok = observe_ok [OF o assms(2)] and sets = observe_sets [OF o]
  let ?ex = "filter (exited obs un) st"
  let ?exits = "by_pid (map snd (filter (exited obs un) (ord st)))"
  have m: "mset (map IdentityKey ?exits) = mset (map fst ?ex)"
  proof -
    have "mset (map IdentityKey ?exits) = image_mset IdentityKey (mset (map snd (filter (exited obs un) (ord st))))"
      by (simp add: by_pid_def)
    also have "\<dots> = mset (map IdentityKey (map snd ?ex))"
      by (simp only: exits_mset [OF assms(3)] mset_map)
    also have "\<dots> = mset (map fst ?ex)" using ok by (simp only: state_ok_keys)
    finally show ?thesis .
  qed
  have le': "le_state le' = filter (\<lambda>ki. \<not> exited obs un ki) st" "initialized le'"
    and em: "em = map (\<lambda>i. (i, ActionProcessExit)) ?exits @ map (\<lambda>i. (i, ActionProcessStart)) (by_pid starts)"
    using assms(1,4) o by (auto simp: le_Reconcile_def)
  have d: "distinct (map IdentityKey ?exits)" "set (map IdentityKey ?exits) = fst ` set ?ex"
  proof -
    show "distinct (map IdentityKey ?exits)"
      using mset_eq_imp_distinct_iff [OF m] ok by (simp add: state_ok_def distinct_map_filter)
    show "set (map IdentityKey ?exits) = fst ` set ?ex"
      using mset_eq_setD [OF m] by (simp only: set_map)
  qed
  have ex: "fst ` set ?ex \<subseteq> keys (le_state le)" using ok sets by (auto simp: exited_def)
  have "live_run (keys (le_state le)) (trace (map (\<lambda>i. (i, ActionProcessExit)) ?exits)) (keys (le_state le) - fst ` set ?ex)"
    using live_exits [OF d(1)] d(2) ex by (simp add: trace_map del: map_map)
  moreover have "live_run (keys (le_state le) - fst ` set ?ex) (trace (map (\<lambda>i. (i, ActionProcessStart)) (by_pid starts)))
      (keys (le_state le) - fst ` set ?ex \<union> IdentityKey ` set starts)"
    using live_starts [of "map IdentityKey (by_pid starts)" "keys (le_state le) - fst ` set ?ex"] ok
    by (auto simp: trace_map distinct_keys_by_pid simp del: map_map)
  moreover have "keys (le_state le) - fst ` set ?ex \<union> IdentityKey ` set starts = keys (le_state le')"
  proof -
    have inj: "inj_on fst (set st)" using ok by (simp add: state_ok_def distinct_map)
    have "keys (filter (\<lambda>ki. \<not> exited obs un ki) st) = keys st - fst ` set ?ex"
      using inj by (auto simp: inj_on_def)
    moreover have "fst ` set ?ex \<inter> IdentityKey ` set starts = {}" using ok sets by (auto simp: exited_def)
    ultimately show ?thesis using ok le'(1) by auto
  qed
  ultimately show ?thesis using le'(2) live_run_append by (simp only: em trace_append)
qed


lemma map_of_state_ok: "state_ok st \<Longrightarrow> map_of st k = Some i \<Longrightarrow> IdentityKey i = k \<and> k \<in> keys st"
  by (auto simp: state_ok_def dest!: map_of_SomeD intro: rev_image_eqI)

lemma live_single_start: "k \<notin> S \<Longrightarrow> live_run S [(k, ActionProcessStart)] (insert k S)"
  by (rule live_start) (simp_all add: live_nil)

lemma live_single_exit: "k \<in> S \<Longrightarrow> live_run S [(k, ActionProcessExit)] (S - {k})"
  by (rule live_exit) (simp_all add: live_nil)

lemma keys_remove: "keys (filter (\<lambda>ki. fst ki \<noteq> k) st) = keys st - {k}"
  by auto

lemma le_HandleEvent_refines:
  assumes "initialized le" "state_ok (le_state le)" "le_HandleEvent inst b le = (le', em)"
  shows "live_run (keys (le_state le)) (trace em) (keys (le_state le')) \<and> initialized le'"
proof (cases "IsZero (StartTime inst)")
  case True
  with assms show ?thesis by (auto simp: le_HandleEvent_def trace_def live_nil)
next
  case False
  let ?k = "IdentityKey inst"
  show ?thesis
  proof (cases "map_of (le_state le) ?k")
    case None
    with map_of_None_keys have k: "?k \<notin> keys (le_state le)" by metis
    show ?thesis
    proof (cases b)
      case True
      with None False assms have "le_state le' = (?k, inst) # le_state le" "em = [(inst, ActionProcessStart)]" "initialized le'"
        by (auto simp: le_HandleEvent_def)
      with live_single_start [OF k] show ?thesis by (simp add: trace_def)
    next
      case notb: False
      with None False assms have "le' = le" "em = []" by (simp_all add: le_HandleEvent_def)
      with assms(1) show ?thesis by (simp add: trace_def live_nil)
    qed
  next
    case (Some i)
    from map_of_state_ok [OF assms(2) Some] have k: "IdentityKey i = ?k" "?k \<in> keys (le_state le)" by simp_all
    show ?thesis
    proof (cases b)
      case True
      with Some False assms have "le' = le" "em = []" by (simp_all add: le_HandleEvent_def)
      with assms(1) show ?thesis by (simp add: trace_def live_nil)
    next
      case notb: False
      with Some False assms have "le_state le' = filter (\<lambda>ki. fst ki \<noteq> ?k) (le_state le)"
        "em = [(i, ActionProcessExit)]" "initialized le'"
        by (auto simp: le_HandleEvent_def)
      with live_single_exit [OF k(2)] k(1) show ?thesis by (simp add: trace_def keys_remove del: set_filter)
    qed
  qed
qed

text \<open>A sequence of operations on the engine.\<close>

datatype lc_op =
    OpReconcile "(string \<times> Instance) list \<Rightarrow> (string \<times> Instance) list" snapshot
  | OpEvent Instance bool

fun op_ok :: "lc_op \<Rightarrow> bool" where
  "op_ok (OpReconcile ord _) \<longleftrightarrow> iteration ord"
| "op_ok (OpEvent _ _) \<longleftrightarrow> True"

fun lc_step :: "lc_op \<Rightarrow> LifecycleEngine \<Rightarrow> LifecycleEngine \<times> emission list" where
  "lc_step (OpReconcile ord snap) le = le_Reconcile ord snap le"
| "lc_step (OpEvent inst b) le = le_HandleEvent inst b le"

fun lc_run :: "lc_op list \<Rightarrow> LifecycleEngine \<Rightarrow> LifecycleEngine \<times> emission list" where
  "lc_run [] le = (le, [])"
| "lc_run (op # ops) le =
     (case lc_step op le of (le1, em1) \<Rightarrow> case lc_run ops le1 of (le2, em2) \<Rightarrow> (le2, em1 @ em2))"

lemma lc_step_refines:
  assumes "initialized le" "state_ok (le_state le)" "op_ok op" "lc_step op le = (le', em)"
  shows "live_run (keys (le_state le)) (trace em) (keys (le_state le')) \<and> initialized le' \<and> state_ok (le_state le')"
proof (cases op)
  case (OpReconcile ord snap)
  with assms le_Reconcile_ok [OF assms(2), of ord snap] show ?thesis
    using le_Reconcile_refines [OF assms(1,2), of ord snap le' em] by simp
next
  case (OpEvent inst b)
  with assms le_HandleEvent_ok [OF assms(2), of inst b] show ?thesis
    using le_HandleEvent_refines [OF assms(1,2), of inst b le' em] by simp
qed

lemma lc_run_refines:
  assumes "initialized le" "state_ok (le_state le)" "\<forall>op \<in> set ops. op_ok op" "lc_run ops le = (le', em)"
  shows "live_run (keys (le_state le)) (trace em) (keys (le_state le'))"
  using assms
proof (induction ops arbitrary: le em)
  case (Cons op ops)
  obtain le1 em1 where 1: "lc_step op le = (le1, em1)" by (metis surj_pair)
  obtain em2 where 2: "lc_run ops le1 = (le', em2)" "em = em1 @ em2"
    using Cons.prems(4) 1 by (auto split: prod.splits)
  have r: "live_run (keys (le_state le)) (trace em1) (keys (le_state le1)) \<and> initialized le1 \<and> state_ok (le_state le1)"
    using Cons.prems by (intro lc_step_refines [OF _ _ _ 1]) simp_all
  then have "live_run (keys (le_state le1)) (trace em2) (keys (le_state le'))"
    using Cons.prems(3) 2(1) by (intro Cons.IH) simp_all
  with r have "live_run (keys (le_state le)) (trace em1 @ trace em2) (keys (le_state le'))"
    by (blast intro: live_run_append)
  then show ?case by (simp only: 2(2) trace_append)
qed (simp add: live_nil trace_def)

lemma NewLifecycleEngine_ok: "state_ok (le_state NewLifecycleEngine)"
  by (simp add: NewLifecycleEngine_def state_ok_def)

lemma baseline:
  assumes "le_Reconcile ord snap NewLifecycleEngine = (le, em)"
  shows "em = [] \<and> initialized le \<and> state_ok (le_state le) \<and> keys (le_state le) = observed_keys snap"
proof -
  obtain st obs un starts where o: "observe False snap [] = (st, obs, un, starts)" by (metis surj_pair)
  from observe_ok [OF o] show ?thesis
    using assms o by (simp add: le_Reconcile_def NewLifecycleEngine_def by_pid_def state_ok_def) force
qed

text \<open>Instances that differ in process id and start time sort in one way only.\<close>

lemma filter_key_replicate:
  "inj_on f (set zs) \<Longrightarrow> k \<in> set zs \<Longrightarrow> filter (\<lambda>x. f k = f x) zs = replicate (count (mset zs) k) k"
proof -
  assume "inj_on f (set zs)" "k \<in> set zs"
  then have "filter (\<lambda>x. f k = f x) zs = filter (\<lambda>x. x = k) zs"
    by (intro filter_cong) (auto simp: inj_on_def)
  also have "\<dots> = replicate (count (mset zs) k) k" by (induction zs) auto
  finally show ?thesis .
qed

lemma sort_key_unique:
  assumes "mset xs = mset ys" "inj_on f (set xs)"
  shows "sort_key f xs = sort_key f ys"
proof (rule properties_for_sort_key)
  show "mset (sort_key f ys) = mset xs" using assms(1) by simp
  fix k
  assume "k \<in> set (sort_key f ys)"
  then have k: "k \<in> set ys" by simp
  have "set xs = set ys" using assms(1) by (rule mset_eq_setD)
  then show "filter (\<lambda>x. f k = f x) (sort_key f ys) = filter (\<lambda>x. f k = f x) xs"
    using k assms filter_key_replicate [of f "sort_key f ys" k] filter_key_replicate [of f xs k] by simp
qed simp

lemma state_ok_inj:
  assumes "state_ok st"
  shows "inj_on (\<lambda>i. (PID i, StartTime i)) (snd ` set st)"
proof (rule inj_onI)
  fix i j
  assume "i \<in> snd ` set st" "j \<in> snd ` set st" and e: "(PID i, StartTime i) = (PID j, StartTime j)"
  then obtain k l where "(k, i) \<in> set st" "(l, j) \<in> set st" by auto
  moreover from this e have "k = l" using state_okD [OF assms] by (metis IdentityKey_def Pair_inject)
  ultimately show "i = j" using state_ok_unique [OF assms] by blast
qed

lemma le_Reconcile_order:
  assumes "state_ok (le_state le)" "iteration ord" "iteration ord'"
  shows "le_Reconcile ord snap le = le_Reconcile ord' snap le"
proof -
  obtain st obs un starts where o: "observe (initialized le) snap (le_state le) = (st, obs, un, starts)" by (metis surj_pair)
  have inj: "inj_on (\<lambda>i. (PID i, StartTime i)) (snd ` set st)"
    using observe_ok [OF o assms(1)] state_ok_inj by blast
  have m: "mset (map snd (filter P (ord st))) = mset (map snd (filter P (ord' st)))" for P
    using exits_mset [OF assms(2)] exits_mset [OF assms(3)] by (simp only: mset_map)
  have "set (ord st) = set st" using assms(2) mset_eq_setD by (auto simp: iteration_def)
  then have "set (map snd (filter P (ord st))) \<subseteq> snd ` set st" for P by auto
  then have "inj_on (\<lambda>i. (PID i, StartTime i)) (set (map snd (filter P (ord st))))" for P
    by (rule inj_on_subset [OF inj])
  then have "by_pid (map snd (filter P (ord st))) = by_pid (map snd (filter P (ord' st)))" for P
    unfolding by_pid_def by (intro sort_key_unique m)
  then show ?thesis by (simp add: le_Reconcile_def o)
qed

lemma le_Reconcile_exit:
  assumes "state_ok (le_state le)" "iteration ord" "le_Reconcile ord snap le = (le', em)" "(i, ActionProcessExit) \<in> set em"
  shows "(IdentityKey i, i) \<in> set (le_state le) \<and> IdentityKey i \<notin> observed_keys snap \<and> PID i \<notin> unreadable snap"
proof -
  obtain st obs un starts where o: "observe (initialized le) snap (le_state le) = (st, obs, un, starts)" by (metis surj_pair)
  note ok = observe_ok [OF o assms(1)] and sets = observe_sets [OF o]
  have "set (ord st) = set st" using assms(2) mset_eq_setD by (auto simp: iteration_def)
  with assms(3,4) o obtain k where k: "(k, i) \<in> set st" "exited obs un (k, i)"
    by (auto simp: le_Reconcile_def split: if_splits)
  have "k = IdentityKey i" using state_okD [of st] ok k(1) by blast
  moreover have "k \<in> keys (le_state le)"
  proof -
    have "k \<in> keys st" using k(1) by (metis fst_conv imageI)
    then show ?thesis using ok k(2) sets(1) by (simp add: exited_def)
  qed
  moreover from this obtain j where "(k, j) \<in> set (le_state le)" by auto
  moreover from this ok k(1) have "j = i" using state_ok_unique [of st k j i] by blast
  ultimately show ?thesis using k(2) sets by (auto simp: exited_def)
qed

lemma exit_not_observed:
  assumes "state_ok (le_state le)" "iteration ord" "le_Reconcile ord snap le = (le', em)" "(i, ActionProcessExit) \<in> set em"
  shows "IdentityKey i \<notin> observed_keys snap \<and> PID i \<notin> unreadable snap"
  using le_Reconcile_exit [OF assms] by blast

section \<open>Properties\<close>

text \<open>Three instances for the witnesses; the second reuses the process id of the first.\<close>

definition demo_inst :: "int \<Rightarrow> go_time \<Rightarrow> Instance" where
  "demo_inst pid start = (zero_instance pid)\<lparr>StartTime := start\<rparr>"

definition demo_base :: "LifecycleEngine" where
  "demo_base = fst (le_Reconcile id [demo_inst 7 (unix_epoch + 5)] NewLifecycleEngine)"

lemma demo_base_ok: "initialized demo_base" "state_ok (le_state demo_base)"
  "keys (le_state demo_base) = {IdentityKey (demo_inst 7 (unix_epoch + 5))}"
proof -
  have "\<not> IsZero (StartTime (demo_inst 7 (unix_epoch + 5)))"
    by (simp add: demo_inst_def zero_instance_def IsZero_def time_zero_def unix_epoch_def)
  with baseline [of id "[demo_inst 7 (unix_epoch + 5)]" demo_base "[]"]
    baseline [of id "[demo_inst 7 (unix_epoch + 5)]" demo_base "snd (le_Reconcile id [demo_inst 7 (unix_epoch + 5)] NewLifecycleEngine)"]
  show "initialized demo_base" "state_ok (le_state demo_base)"
    "keys (le_state demo_base) = {IdentityKey (demo_inst 7 (unix_epoch + 5))}"
    by (simp_all add: demo_base_def observed_keys_def [of "[]"])
qed

lemma id_iteration: "iteration id" "iteration rev"
  by (simp_all add: iteration_def)

text \<open>
  C28. The lifecycle engine refines the set of live processes: after the baseline, in every sequence of
  snapshots and single observations, whatever they contain, a start is reported only for a process
  that is not live and an exit only for one that is, so starts and exits of one
  process alternate, and the keys the engine holds are exactly the live processes.
\<close>

theorem lifecycle_refines_live_set:
  assumes "le_Reconcile ord snap NewLifecycleEngine = (le0, em0)" "lc_run ops le0 = (le, em)"
    and "\<forall>op \<in> set ops. op_ok op"
  shows "em0 = [] \<and> live_run (observed_keys snap) (trace em) (keys (le_state le))"
  using baseline [OF assms(1)] lc_run_refines [OF _ _ assms(3,2)] by auto

theorem lifecycle_refines_live_set_witness:
  "\<exists>le em. lc_run [OpReconcile rev [demo_inst 7 (unix_epoch + 9)]] demo_base = (le, em) \<and>
    live_run {IdentityKey (demo_inst 7 (unix_epoch + 5))} (trace em) (keys (le_state le))"
proof -
  let ?snap = "[demo_inst 7 (unix_epoch + 5)]" and ?ops = "[OpReconcile rev [demo_inst 7 (unix_epoch + 9)]]"
  obtain em0 where 0: "le_Reconcile id ?snap NewLifecycleEngine = (demo_base, em0)"
    by (metis demo_base_def prod.collapse)
  obtain le em where 1: "lc_run ?ops demo_base = (le, em)" by (metis surj_pair)
  have "observed_keys ?snap = {IdentityKey (demo_inst 7 (unix_epoch + 5))}"
    using baseline [OF 0] demo_base_ok(3) by simp
  with lifecycle_refines_live_set [OF 0 1] id_iteration(2) 1 show ?thesis by auto
qed

text \<open>
  The events do not depend on the iteration order of Go's map: whatever order the known instances
  are visited in, \<open>Reconcile\<close> reports the same exits and starts in the same order.
\<close>

theorem Reconcile_order_free:
  assumes "state_ok (le_state le)" "iteration ord" "iteration ord'"
  shows "le_Reconcile ord snap le = le_Reconcile ord' snap le"
  by (rule le_Reconcile_order [OF assms])

theorem Reconcile_order_free_witness: "le_Reconcile id [] demo_base = le_Reconcile rev [] demo_base"
  by (rule Reconcile_order_free [OF demo_base_ok(2) id_iteration])

text \<open>
  No false exits: an exit is reported only for a process that the snapshot does not show and whose
  process id was not seen with an unreadable start time, and it reports the instance recorded
  at its start. A process that cannot be read for a moment stays live.
\<close>

theorem Reconcile_no_false_exit:
  assumes "state_ok (le_state le)" "iteration ord" "le_Reconcile ord snap le = (le', em)" "(i, ActionProcessExit) \<in> set em"
  shows "(IdentityKey i, i) \<in> set (le_state le) \<and> IdentityKey i \<notin> observed_keys snap \<and> PID i \<notin> unreadable snap"
  by (rule le_Reconcile_exit [OF assms])

theorem Reconcile_no_false_exit_witness:
  "\<forall>i. (i, ActionProcessExit) \<in> set (snd (le_Reconcile id [] demo_base)) \<longrightarrow> (IdentityKey i, i) \<in> set (le_state demo_base)"
  using Reconcile_no_false_exit [OF demo_base_ok(2) id_iteration(1), of "[]"] by (metis prod.collapse)

text \<open>
  A reused process id is a new process: two instances have the same key exactly when both the
  process id and the start time agree (for start times the nanosecond clock can hold).
\<close>

theorem IdentityKey_pid_reuse:
  assumes "is_int64 (StartTime i - unix_epoch)" "is_int64 (StartTime j - unix_epoch)"
  shows "IdentityKey i = IdentityKey j \<longleftrightarrow> PID i = PID j \<and> StartTime i = StartTime j"
  using IdentityKey_eq [OF assms] by (auto simp: IdentityKey_def)

theorem IdentityKey_pid_reuse_witness:
  "IdentityKey (demo_inst 7 (unix_epoch + 5)) \<noteq> IdentityKey (demo_inst 7 (unix_epoch + 9))"
  using IdentityKey_pid_reuse [of "demo_inst 7 (unix_epoch + 5)" "demo_inst 7 (unix_epoch + 9)"]
  by (simp add: demo_inst_def zero_instance_def is_int64_def min_int64_def max_int64_def)

end
