(* ===== verification/Process_Adapters.thy ===== *)
theory Process_Adapters
  imports Process Go_Strings
begin

text \<open>
  The operating system side of the process collector: the \<open>/proc\<close> scanner
  (\<open>src/agent/internal/collectors/process/adapter_linux.go\<close>) and the Windows adapter
  (\<open>adapter_windows.go\<close>). The file system, the user database, \<open>json.Marshal\<close> at string lists and the
  Windows API are arguments. A panic of the source (an index out of range, a division by zero) is
  \<^term>\<open>None\<close>. The lemmas show that the parser of \<open>/proc/<pid>/stat\<close> never panics, that it reads back
  every line the kernel can print, whatever the command name contains, and that no listed
  process is missing from a snapshot.
\<close>

section \<open>Linux\<close>

record proc_env =
  pe_ReadFile :: "string \<Rightarrow> go_error + string"
  pe_Readlink :: "string \<Rightarrow> go_error + string"
  pe_ReadDir :: "string \<Rightarrow> go_error + (string \<times> bool) list"
  pe_LookupId :: "string \<Rightarrow> go_error + string"
  pe_Marshal :: "string list \<Rightarrow> go_error + string"

record linuxAdapter =
  procPath :: string
  bootTime :: int
  userHz :: int
  uidCache :: "string \<rightharpoonup> string"

text \<open>\<open>filepath.Join\<close> of a clean directory and a name, \<open>time.Unix\<close>.\<close>

definition path_join :: "string \<Rightarrow> string \<Rightarrow> string" where
  "path_join dir name = dir @ ''/'' @ name"

definition time_Unix :: "int \<Rightarrow> int \<Rightarrow> go_time" where
  "time_Unix sec nsec = wrap64 (sec + nsec div 1000000000 + 62135596800) * 1000000000 + nsec mod 1000000000"

text \<open>\<open>parseStat\<close>: the outer option is a panic, the inner one the result \<open>(nil, false)\<close>.\<close>

definition parseStat :: "linuxAdapter \<Rightarrow> int \<Rightarrow> string \<Rightarrow> Instance option option" where
  "parseStat a pid statStr =
     (case (IndexByte statStr (CHR ''(''), LastIndexByte statStr (CHR '')'')) of
        (Some firstParen, Some lastParen) \<Rightarrow>
          if firstParen \<ge> lastParen then Some None
          else do {
            name \<leftarrow> slice statStr (firstParen + 1) lastParen;
            if lastParen + 2 \<ge> length statStr then Some None
            else do {
              rest \<leftarrow> slice_from statStr (lastParen + 2);
              let fields = Fields rest;
              if length fields < 20 then Some None
              else do {
                f1 \<leftarrow> byte_at fields 1;
                f19 \<leftarrow> byte_at fields 19;
                (case Atoi f1 of
                   (_, Some _) \<Rightarrow> Some None
                 | (ppid, None) \<Rightarrow>
                   (case ParseInt f19 of
                      (_, Some _) \<Rightarrow> Some None
                    | (startTimeTicks, None) \<Rightarrow>
                      if userHz a = 0 then None
                      else
                        let sec = wrap64 (bootTime a + go_div startTimeTicks (userHz a));
                            nsec = go_div (wrap64 (go_mod startTimeTicks (userHz a) * 1000000000)) (userHz a)
                        in Some (Some ((zero_instance pid)\<lparr>StartTime := time_Unix sec nsec, inst_Name := Some name,
                             ParentPID := (if ppid \<noteq> 0 then Some ppid else None)\<rparr>))))
              }
            }
          }
      | _ \<Rightarrow> Some None)"

fun extract_uid :: "string list \<Rightarrow> string option" where
  "extract_uid [] = None"
| "extract_uid (line # lines) =
     (if HasPrefix line ''Uid:'' \<and> length (Fields line) \<ge> 2 then Some (Fields line ! 1) else extract_uid lines)"

definition extractUidFromStatus :: "string \<Rightarrow> string option" where
  "extractUidFromStatus status = extract_uid (split_byte (CHR 0x0A) status)"

definition lx_resolveUser :: "proc_env \<Rightarrow> string \<Rightarrow> linuxAdapter \<Rightarrow> linuxAdapter \<times> string" where
  "lx_resolveUser env uid a =
     (case uidCache a uid of
        Some cached \<Rightarrow> (a, cached)
      | None \<Rightarrow>
        let username = (case pe_LookupId env uid of Inl _ \<Rightarrow> uid | Inr u \<Rightarrow> u)
        in (a\<lparr>uidCache := (uidCache a)(uid \<mapsto> username)\<rparr>, username))"

text \<open>The command line: a trailing NUL goes, the rest is split at the NULs and encoded.\<close>

definition command_line :: "proc_env \<Rightarrow> go_error + string \<Rightarrow> string option" where
  "command_line env r =
     (case r of
        Inl _ \<Rightarrow> None
      | Inr cmd \<Rightarrow>
        if cmd = [] then None
        else
          let cmd' = (if last cmd = CHR 0x00 then butlast cmd else cmd) in
          if cmd' = [] then None
          else (case pe_Marshal env (split_byte (CHR 0x00) cmd') of Inl _ \<Rightarrow> None | Inr s \<Rightarrow> Some s))"

definition parseProcess :: "proc_env \<Rightarrow> int \<Rightarrow> linuxAdapter \<Rightarrow> (linuxAdapter \<times> Instance option) option" where
  "parseProcess env pid a =
     (let pidDir = path_join (procPath a) (dec_int pid) in
      case pe_ReadFile env (path_join pidDir ''stat'') of
        Inl _ \<Rightarrow> Some (a, None)
      | Inr stat \<Rightarrow>
        (case parseStat a pid stat of
           None \<Rightarrow> None
         | Some None \<Rightarrow> Some (a, None)
         | Some (Some inst) \<Rightarrow>
           let inst1 = inst\<lparr>ExecutablePath := (case pe_Readlink env (path_join pidDir ''exe'') of Inl _ \<Rightarrow> None | Inr t \<Rightarrow> Some t)\<rparr>;
               inst2 = inst1\<lparr>CommandLine := command_line env (pe_ReadFile env (path_join pidDir ''cmdline''))\<rparr>
           in case pe_ReadFile env (path_join pidDir ''status'') of
                Inl _ \<Rightarrow> Some (a, Some inst2)
              | Inr status \<Rightarrow>
                (case extractUidFromStatus status of
                   None \<Rightarrow> Some (a, Some inst2)
                 | Some uid \<Rightarrow>
                   (case lx_resolveUser env uid a of (a', u) \<Rightarrow> Some (a', Some (inst2\<lparr>inst_User := Some u\<rparr>))))))"

fun lx_entries :: "proc_env \<Rightarrow> (string \<times> bool) list \<Rightarrow> linuxAdapter \<Rightarrow> (linuxAdapter \<times> snapshot) option" where
  "lx_entries env [] a = Some (a, [])"
| "lx_entries env ((name, isDir) # es) a =
     (if \<not> isDir then lx_entries env es a
      else case Atoi name of
        (_, Some _) \<Rightarrow> lx_entries env es a
      | (pid, None) \<Rightarrow> do {
          (a1, r) \<leftarrow> parseProcess env pid a;
          (a2, insts) \<leftarrow> lx_entries env es a1;
          Some (a2, (case r of Some inst \<Rightarrow> inst | None \<Rightarrow> zero_instance pid) # insts)
        })"

definition lx_captureSnapshot :: "proc_env \<Rightarrow> linuxAdapter \<Rightarrow> (linuxAdapter \<times> (go_error + snapshot)) option" where
  "lx_captureSnapshot env a =
     (let a0 = a\<lparr>uidCache := Map.empty\<rparr> in
      case pe_ReadDir env (procPath a) of
        Inl e \<Rightarrow> Some (a0, Inl (wrap_err (''failed to read '' @ procPath a @ '': '') e))
      | Inr es \<Rightarrow> map_option (\<lambda>(a', insts). (a', Inr insts)) (lx_entries env es a0))"

fun find_btime :: "string list \<Rightarrow> (int \<times> go_error option) option" where
  "find_btime [] = None"
| "find_btime (line # lines) =
     (if HasPrefix line ''btime '' \<and> length (Fields line) \<ge> 2 then Some (ParseInt (Fields line ! 1)) else find_btime lines)"

definition getBootTime :: "proc_env \<Rightarrow> string \<Rightarrow> int \<times> go_error option" where
  "getBootTime env proc =
     (let statPath = path_join proc ''stat'' in
      case pe_ReadFile env statPath of
        Inl e \<Rightarrow> (0, Some e)
      | Inr data \<Rightarrow>
        (case find_btime (split_byte (CHR 0x0A) data) of
           Some r \<Rightarrow> r
         | None \<Rightarrow> (0, Some (errors_New (''btime not found in '' @ statPath)))))"

text \<open>Little-endian words of the auxiliary vector.\<close>

definition le_val :: "string \<Rightarrow> nat" where
  "le_val s = foldr (\<lambda>c acc. code c + 256 * acc) s 0"

function clk_loop :: "nat \<Rightarrow> string \<Rightarrow> nat option" where
  "clk_loop ws data =
     (if ws = 0 \<or> length data < 2 * ws then None
      else
        let typ = le_val (take ws data); val = le_val (take ws (drop ws data)) in
        if typ = 17 then Some val
        else if typ = 0 then None
        else clk_loop ws (drop (2 * ws) data))"
  by pat_completeness auto
termination
  by (relation "measure (\<lambda>(ws, data). length data)") auto

declare clk_loop.simps [simp del]

definition getClkTick :: "proc_env \<Rightarrow> bool \<Rightarrow> string \<Rightarrow> go_error + int" where
  "getClkTick env int32 proc =
     (case pe_ReadFile env (path_join (path_join proc ''self'') ''auxv'') of
        Inl e \<Rightarrow> Inl (wrap_err ''failed to read auxv: '' e)
      | Inr data \<Rightarrow>
        (case clk_loop (if int32 then 4 else 8) data of
           Some val \<Rightarrow> Inr (wrap64 (int val))
         | None \<Rightarrow> Inl (errors_New ''AT_CLKTCK not found in auxv'')))"

definition newLinuxAdapter :: "proc_env \<Rightarrow> bool \<Rightarrow> string \<Rightarrow> go_error + linuxAdapter" where
  "newLinuxAdapter env int32 proc =
     (case getBootTime env proc of
        (_, Some e) \<Rightarrow> Inl (wrap_err ''could not determine boot time: '' e)
      | (bt, None) \<Rightarrow>
        (case getClkTick env int32 proc of
           Inl e \<Rightarrow> Inl (wrap_err ''could not determine clock ticks: '' e)
         | Inr hz \<Rightarrow> Inr \<lparr>procPath = proc, bootTime = bt, userHz = hz, uidCache = Map.empty\<rparr>))"

text \<open>The polling loop of \<open>startOSAdapter\<close>, on the file system as it is at each tick: a failed scan is
  skipped, the others are reconciled.\<close>

fun lx_poll ::
    "(proc_env \<times> ((string \<times> Instance) list \<Rightarrow> (string \<times> Instance) list)) list \<Rightarrow> linuxAdapter \<Rightarrow> ProcessCollector \<Rightarrow>
     (ProcessCollector \<times> emission list) option" where
  "lx_poll [] a c = Some (c, [])"
| "lx_poll ((env, ord) # ticks) a c =
     (case lx_captureSnapshot env a of
        None \<Rightarrow> None
      | Some (a', Inl _) \<Rightarrow> lx_poll ticks a' c
      | Some (a', Inr snap) \<Rightarrow>
        (case pc_Reconcile ord snap c of (c1, em) \<Rightarrow>
         case lx_poll ticks a' c1 of None \<Rightarrow> None | Some (c2, em2) \<Rightarrow> Some (c2, em @ em2)))"

definition poll_interval :: "(string \<Rightarrow> go_error + duration) \<Rightarrow> string option \<Rightarrow> duration" where
  "poll_interval ParseDuration cfg =
     (case cfg of
        None \<Rightarrow> 30 * second
      | Some s \<Rightarrow> if s = [] then 30 * second
                  else case ParseDuration s of Inr d \<Rightarrow> if d > 0 then d else 30 * second | Inl _ \<Rightarrow> 30 * second)"

definition lx_startOSAdapter ::
    "proc_env \<Rightarrow> bool \<Rightarrow> (proc_env \<times> ((string \<times> Instance) list \<Rightarrow> (string \<times> Instance) list)) list \<Rightarrow> ProcessCollector \<Rightarrow>
     (ProcessCollector \<times> emission list) option" where
  "lx_startOSAdapter env int32 ticks c =
     (case newLinuxAdapter env int32 ''/proc'' of
        Inl _ \<Rightarrow> Some (c, [])
      | Inr a \<Rightarrow> lx_poll ticks a c)"

section \<open>Windows\<close>

record ProcessEntry =
  pe_PID :: u32
  pe_PPID :: u32
  pe_Name :: string

record osAPI =
  api_Enumerate :: "go_error + ProcessEntry list"
  api_StartTime :: "u32 \<Rightarrow> go_error + go_time"
  api_ExecutablePath :: "u32 \<Rightarrow> go_error + string"
  api_UserSID :: "u32 \<Rightarrow> go_error + string"
  api_ResolveSID :: "string \<Rightarrow> go_error + string"

type_synonym user_cache = "string \<rightharpoonup> string"

definition wn_resolveUser :: "osAPI \<Rightarrow> string \<Rightarrow> user_cache \<Rightarrow> user_cache \<times> string option" where
  "wn_resolveUser api sid cache =
     (case cache sid of
        Some cached \<Rightarrow> (cache, if cached = [] then None else Some cached)
      | None \<Rightarrow>
        (case api_ResolveSID api sid of
           Inl _ \<Rightarrow> (cache(sid \<mapsto> []), None)
         | Inr username \<Rightarrow> (cache(sid \<mapsto> username), Some username)))"

definition wn_instance :: "osAPI \<Rightarrow> ProcessEntry \<Rightarrow> user_cache \<Rightarrow> user_cache \<times> Instance" where
  "wn_instance api e cache =
     (case api_StartTime api (pe_PID e) of
        Inl _ \<Rightarrow> (cache, zero_instance (uint (pe_PID e)))
      | Inr startTime \<Rightarrow>
        let inst = (zero_instance (uint (pe_PID e)))\<lparr>StartTime := startTime,
              inst_Name := (if pe_Name e \<noteq> [] then Some (pe_Name e) else None),
              ParentPID := (if pe_PPID e \<noteq> 0 then Some (uint (pe_PPID e)) else None),
              ExecutablePath := (case api_ExecutablePath api (pe_PID e) of Inl _ \<Rightarrow> None | Inr p \<Rightarrow> Some p)\<rparr>
        in case api_UserSID api (pe_PID e) of
             Inl _ \<Rightarrow> (cache, inst)
           | Inr sid \<Rightarrow> (case wn_resolveUser api sid cache of (cache', u) \<Rightarrow> (cache', inst\<lparr>inst_User := u\<rparr>)))"

fun wn_entries :: "osAPI \<Rightarrow> ProcessEntry list \<Rightarrow> user_cache \<Rightarrow> snapshot" where
  "wn_entries api [] cache = []"
| "wn_entries api (e # es) cache =
     (case wn_instance api e cache of (cache', inst) \<Rightarrow> inst # wn_entries api es cache')"

definition wn_captureSnapshot :: "osAPI \<Rightarrow> go_error + snapshot" where
  "wn_captureSnapshot api =
     (case api_Enumerate api of
        Inl e \<Rightarrow> Inl (wrap_err ''process enumeration failed: '' e)
      | Inr es \<Rightarrow> Inr (wn_entries api es Map.empty))"

text \<open>\<open>EnumerateProcesses\<close>: the first entry and the answers of \<open>Process32Next\<close>, where \<open>NoMoreFiles\<close> ends the
  loop, as does the end of the list.\<close>

datatype next_answer = NextEntry ProcessEntry | NoMoreFiles | NextErr go_error

fun next_entries :: "next_answer list \<Rightarrow> go_error + ProcessEntry list" where
  "next_entries [] = Inr []"
| "next_entries (NextEntry e # as) = map_sum id (\<lambda>es. e # es) (next_entries as)"
| "next_entries (NoMoreFiles # as) = Inr []"
| "next_entries (NextErr err # as) = Inl err"

definition EnumerateProcesses :: "go_error + unit \<Rightarrow> go_error + ProcessEntry \<Rightarrow> next_answer list \<Rightarrow> go_error + ProcessEntry list" where
  "EnumerateProcesses snap first as =
     (case snap of Inl e \<Rightarrow> Inl e
      | Inr _ \<Rightarrow> (case first of Inl e \<Rightarrow> Inl e | Inr e \<Rightarrow> map_sum id (\<lambda>es. e # es) (next_entries as)))"

text \<open>\<open>GetExecutablePath\<close>: the buffer is doubled as long as the system reports that it is too small.\<close>

datatype query_answer = QueryOk string | InsufficientBuffer | QueryErr go_error

partial_function (option) query_path :: "(nat \<Rightarrow> query_answer) \<Rightarrow> nat \<Rightarrow> (go_error + string) option" where
  "query_path q len =
     (case q len of
        QueryOk s \<Rightarrow> Some (Inr s)
      | InsufficientBuffer \<Rightarrow> query_path q (len * 2)
      | QueryErr e \<Rightarrow> Some (Inl e))"

definition GetExecutablePath :: "go_error option \<Rightarrow> (nat \<Rightarrow> query_answer) \<Rightarrow> (go_error + string) option" where
  "GetExecutablePath openErr q = (case openErr of Some e \<Rightarrow> Some (Inl e) | None \<Rightarrow> query_path q 260)"

definition GetProcessStartTime ::
    "(u32 \<times> u32 \<Rightarrow> int) \<Rightarrow> go_error option \<Rightarrow> go_error + u32 \<times> u32 \<Rightarrow> go_error + go_time" where
  "GetProcessStartTime nanos openErr r =
     (case openErr of Some e \<Rightarrow> Inl e
      | None \<Rightarrow> (case r of Inl e \<Rightarrow> Inl e
         | Inr ft \<Rightarrow> if fst ft = 0 \<and> snd ft = 0 then Inl (errors_New ''zero filetime'') else Inr (time_Unix 0 (nanos ft))))"

definition GetProcessUserSID :: "go_error option \<Rightarrow> go_error option \<Rightarrow> go_error + string \<Rightarrow> go_error + string" where
  "GetProcessUserSID openErr tokenErr tokenUser =
     (case openErr of Some e \<Rightarrow> Inl e | None \<Rightarrow> (case tokenErr of Some e \<Rightarrow> Inl e | None \<Rightarrow> tokenUser))"

definition ResolveSID :: "go_error + go_error + string \<times> string \<Rightarrow> go_error + string" where
  "ResolveSID r =
     (case r of Inl e \<Rightarrow> Inl e
      | Inr (Inl e) \<Rightarrow> Inl e
      | Inr (Inr (account, domain)) \<Rightarrow>
          Inr (if domain \<noteq> [] then domain @ [CHR 0x5C] @ account else account))"

fun wn_poll ::
    "(osAPI \<times> ((string \<times> Instance) list \<Rightarrow> (string \<times> Instance) list)) list \<Rightarrow> ProcessCollector \<Rightarrow>
     ProcessCollector \<times> emission list" where
  "wn_poll [] c = (c, [])"
| "wn_poll ((api, ord) # ticks) c =
     (case wn_captureSnapshot api of
        Inl _ \<Rightarrow> wn_poll ticks c
      | Inr snap \<Rightarrow>
        (case pc_Reconcile ord snap c of (c1, em) \<Rightarrow> case wn_poll ticks c1 of (c2, em2) \<Rightarrow> (c2, em @ em2)))"

section \<open>Lemmas\<close>

lemma parseStat_returns:
  assumes "userHz a \<noteq> 0"
  shows "\<exists>r. parseStat a pid s = Some r"
proof (cases "IndexByte s (CHR ''('')"; cases "LastIndexByte s (CHR '')'')")
  fix i j
  assume "IndexByte s (CHR ''('') = Some i" "LastIndexByte s (CHR '')'') = Some j"
  with IndexByte_less LastIndexByte_less have "i < length s" "j < length s" by metis+
  with \<open>IndexByte s _ = Some i\<close> \<open>LastIndexByte s _ = Some j\<close> assms show ?thesis
    by (auto simp: parseStat_def panic_free Let_def split: prod.split option.split)
qed (simp_all add: parseStat_def)

text \<open>A line of \<open>/proc/<pid>/stat\<close> as the kernel prints it: the command name in parentheses, the
  other fields separated by blanks.\<close>

definition stat_line :: "int \<Rightarrow> string \<Rightarrow> string list \<Rightarrow> string" where
  "stat_line pid comm flds = dec_int pid @ '' ('' @ comm @ '') '' @ concat (map (\<lambda>t. t @ '' '') flds)"

definition stat_fields :: "int \<Rightarrow> int \<Rightarrow> string list \<Rightarrow> bool" where
  "stat_fields ppid ticks flds \<longleftrightarrow>
     20 \<le> length flds \<and> (\<forall>t \<in> set flds. token t \<and> CHR '')'' \<notin> set t) \<and>
     flds ! 1 = dec_int ppid \<and> flds ! 19 = dec_int ticks"

lemma paren_notin_dec_int: "CHR ''('' \<notin> set (dec_int i)"
  using dec_nat_digits [of "CHR ''(''"] by (auto simp: dec_int_def code_def)

lemma parseStat_line:
  assumes "stat_fields ppid ticks flds" "is_int64 ppid" "is_int64 ticks" "userHz a \<noteq> 0"
  shows "parseStat a pid (stat_line pid comm flds) =
    Some (Some ((zero_instance pid)\<lparr>
      StartTime := time_Unix (wrap64 (bootTime a + go_div ticks (userHz a)))
        (go_div (wrap64 (go_mod ticks (userHz a) * 1000000000)) (userHz a)),
      inst_Name := Some comm, ParentPID := (if ppid \<noteq> 0 then Some ppid else None)\<rparr>))"
proof -
  let ?pre = "dec_int pid @ '' ''" and ?rest = "concat (map (\<lambda>t. t @ '' '') flds)"
  let ?s = "stat_line pid comm flds"
  let ?l = "length ?pre + 1 + length comm"
  have s1: "?s = ?pre @ CHR ''('' # comm @ '') '' @ ?rest" by (simp add: stat_line_def)
  have s2: "?s = (?pre @ CHR ''('' # comm) @ CHR '')'' # '' '' @ ?rest" by (simp add: stat_line_def)
  have f: "IndexByte ?s (CHR ''('') = Some (length ?pre)"
    unfolding s1 by (rule IndexByte_first) (simp add: paren_notin_dec_int)
  have "CHR '')'' \<notin> set ('' '' @ ?rest)" using assms(1) by (auto simp: stat_fields_def)
  then have l: "LastIndexByte ?s (CHR '')'') = Some ?l"
    unfolding s2 by (subst LastIndexByte_last) simp_all
  have flds: "Fields ?rest = flds"
    using assms(1) by (intro Fields_lines) (simp_all add: stat_fields_def code_def)
  have "flds \<noteq> []" using assms(1) by (auto simp: stat_fields_def)
  then have "?rest \<noteq> []" by (cases flds) auto
  then have len: "?l + 2 < length ?s" by (simp add: s2 del: concat_eq_Nil_conv)
  have name: "slice ?s (length ?pre + 1) ?l = Some comm"
    using len by (simp add: slice_Some) (simp add: s1)
  have s3: "?s = (?pre @ ''('' @ comm @ '') '') @ ?rest" by (simp add: stat_line_def)
  have "length (?pre @ ''('' @ comm @ '') '') = ?l + 2" by simp
  then have "drop (?l + 2) ?s = ?rest" by (metis s3 append_eq_conv_conj)
  with len have rest: "slice_from ?s (?l + 2) = Some ?rest" by (simp add: slice_from_Some)
  show ?thesis
    using assms f l len name rest flds ParseInt_dec [OF assms(2)] ParseInt_dec [OF assms(3)]
    by (simp add: parseStat_def stat_fields_def byte_at_Some Let_def)
qed


lemma time_Unix_exact:
  assumes "is_int64 (sec + 62135596800)" "0 \<le> nsec" "nsec < 1000000000"
  shows "time_Unix sec nsec = unix_epoch + sec * 1000000000 + nsec"
proof -
  have "time_Unix sec nsec = wrap64 (sec + 62135596800) * 1000000000 + nsec"
    using assms(2,3) by (simp add: time_Unix_def)
  then show ?thesis using wrap64_id [OF assms(1)] by (simp add: unix_epoch_def algebra_simps)
qed

lemma int_div_less_mult: "0 < k \<Longrightarrow> x < k * m \<Longrightarrow> x div k < (m :: int)"
  by (smt (verit) minus_mod_eq_mult_div mult_less_cancel_left_pos pos_mod_sign)

text \<open>The start time of ticks since boot, without rounding to seconds.\<close>

lemma start_time_exact:
  assumes "0 < hz" "hz \<le> 1000000000" "0 \<le> ticks" "0 \<le> bt" "bt + ticks div hz + 62135596800 \<le> max_int64"
  shows "time_Unix (wrap64 (bt + go_div ticks hz)) (go_div (wrap64 (go_mod ticks hz * 1000000000)) hz) =
    unix_epoch + bt * 1000000000 + ticks * 1000000000 div hz"
proof -
  let ?q = "ticks div hz" and ?r = "ticks mod hz"
  have r: "0 \<le> ?r" "?r < hz" using assms(1) by simp_all
  have "?r * 1000000000 \<le> max_int64" using r assms(2) by (simp add: max_int64_def)
  then have n: "wrap64 (?r * 1000000000) = ?r * 1000000000"
    using r by (simp add: wrap64_id is_int64_def min_int64_def)
  have q: "0 \<le> ?q" using assms(1,3) by (simp add: pos_imp_zdiv_nonneg_iff)
  then have s: "wrap64 (bt + ?q) = bt + ?q"
    using assms(4,5) by (simp add: wrap64_id is_int64_def min_int64_def)
  have ns: "0 \<le> ?r * 1000000000 div hz" using r assms(1) by (simp add: pos_imp_zdiv_nonneg_iff)
  have "?r * 1000000000 div hz < 1000000000"
    using r assms(1) by (intro int_div_less_mult) simp_all
  note ns = ns this
  have "ticks * 1000000000 = (?q * hz + ?r) * 1000000000" by (simp only: div_mult_mod_eq)
  also have "\<dots> = ?q * 1000000000 * hz + ?r * 1000000000" by (simp only: ring_distribs mult_ac)
  finally have "ticks * 1000000000 = ?q * 1000000000 * hz + ?r * 1000000000" .
  then have t: "ticks * 1000000000 div hz = ?q * 1000000000 + ?r * 1000000000 div hz"
    using assms(1) by simp
  have "time_Unix (bt + ?q) (?r * 1000000000 div hz) = unix_epoch + (bt + ?q) * 1000000000 + ?r * 1000000000 div hz"
    using ns q assms(4,5) by (intro time_Unix_exact) (simp_all add: is_int64_def min_int64_def)
  with n s t show ?thesis
    using assms(1,3) r by (simp add: go_div_nonneg go_mod_nonneg algebra_simps)
qed

lemma parseStat_PID: "parseStat a pid s = Some (Some inst) \<Longrightarrow> PID inst = pid"
  by (auto simp: parseStat_def Let_def zero_instance_def split: option.splits if_splits prod.splits Option.bind_splits)

lemma parseProcess_hz: "parseProcess env pid a = Some (a', r) \<Longrightarrow> userHz a' = userHz a"
  by (auto simp: parseProcess_def Let_def lx_resolveUser_def split: option.splits sum.splits prod.splits)

lemma parseProcess_PID: "parseProcess env pid a = Some (a', Some inst) \<Longrightarrow> PID inst = pid"
  by (auto simp: parseProcess_def Let_def dest!: parseStat_PID split: option.splits sum.splits prod.splits)

lemma parseProcess_returns:
  assumes "userHz a \<noteq> 0"
  shows "\<exists>a' r. parseProcess env pid a = Some (a', r)"
proof (cases "pe_ReadFile env (path_join (path_join (procPath a) (dec_int pid)) ''stat'')")
  case (Inr s)
  with parseStat_returns [OF assms, of pid s] show ?thesis
    by (auto simp: parseProcess_def Let_def split: option.split sum.split prod.split)
qed (simp add: parseProcess_def)

lemma lx_entries_returns:
  assumes "userHz a \<noteq> 0"
  shows "\<exists>a' insts. lx_entries env es a = Some (a', insts)"
  using assms
proof (induction es arbitrary: a)
  case (Cons e es)
  obtain name isDir where e: "e = (name, isDir)" by (metis surj_pair)
  obtain pid err where n: "Atoi name = (pid, err)" by (metis surj_pair)
  obtain a1 r where p: "parseProcess env pid a = Some (a1, r)" using parseProcess_returns [OF Cons.prems] by blast
  from parseProcess_hz [OF p] Cons obtain a2 insts where "lx_entries env es a1 = Some (a2, insts)" by metis
  with Cons n p show ?case by (cases isDir; cases err) (simp_all add: e)
qed simp

lemma lx_entries_complete:
  "lx_entries env es a = Some (a', insts) \<Longrightarrow> (name, True) \<in> set es \<Longrightarrow> Atoi name = (pid, None) \<Longrightarrow>
   \<exists>inst \<in> set insts. PID inst = pid"
proof (induction es arbitrary: a insts)
  case (Cons e es)
  obtain name' isDir where e: "e = (name', isDir)" by (metis surj_pair)
  show ?case
  proof (cases "isDir \<and> snd (Atoi name') = None")
    case True
    then obtain p where n: "Atoi name' = (p, None)" "isDir" by (metis prod.collapse)
    with Cons.prems(1) e obtain a1 r xs where
      p: "parseProcess env p a = Some (a1, r)" "lx_entries env es a1 = Some (a', xs)"
        "insts = (case r of Some inst \<Rightarrow> inst | None \<Rightarrow> zero_instance p) # xs"
      by (auto split: Option.bind_splits)
    have "PID (case r of Some inst \<Rightarrow> inst | None \<Rightarrow> zero_instance p) = p"
      using p(1) parseProcess_PID by (cases r) (auto simp: zero_instance_def)
    with Cons p n e show ?thesis by auto
  next
    case False
    obtain p err where n: "Atoi name' = (p, err)" by (metis surj_pair)
    with False have skip: "\<not> isDir \<or> (\<exists>x. err = Some x)" by auto
    then have "lx_entries env es a = Some (a', insts)" using Cons.prems(1) n e by (cases isDir) (auto split: if_splits)
    moreover have "(name, True) \<in> set es" using Cons.prems(2,3) n e skip by auto
    ultimately show ?thesis using Cons.IH Cons.prems(3) by blast
  qed
qed simp


lemma query_path_returns:
  assumes "q (len * 2 ^ k) \<noteq> InsufficientBuffer"
  shows "\<exists>r. query_path q len = Some r"
  using assms
proof (induction k arbitrary: len)
  case 0
  then show ?case by (subst query_path.simps) (auto split: query_answer.split)
next
  case (Suc k)
  then have "q (len * 2 * 2 ^ k) \<noteq> InsufficientBuffer" by (simp add: mult.assoc)
  with Suc.IH [of "len * 2"] show ?case by (subst query_path.simps) (simp split: query_answer.split)
qed

section \<open>Properties\<close>

definition demo_adapter :: linuxAdapter where
  "demo_adapter = \<lparr>procPath = ''/proc'', bootTime = 1000, userHz = 100, uidCache = Map.empty\<rparr>"

definition demo_fields :: "string list" where
  "demo_fields = [''S'', dec_int 1] @ replicate 17 ''0'' @ [dec_int 250]"

lemma demo_stat_fields: "stat_fields 1 250 demo_fields"
proof -
  have t: "token ''S''" "token ''0''" by (simp_all add: token_def code_def)
  have p: "CHR '')'' \<notin> set (dec_int i)" for i
    using dec_nat_digits [of "CHR '')''"] by (auto simp: dec_int_def code_def)
  show ?thesis using t token_dec_int p by (auto simp: stat_fields_def demo_fields_def nth_append)
qed

text \<open>
  C30. \<open>parseStat\<close> reads back what the kernel prints: for every command name, blanks, parentheses and
  line breaks included, it finds the name, the parent and the start time, and the start time is
  the boot time plus the ticks to the nanosecond.
\<close>

theorem parseStat_roundtrip:
  assumes "stat_fields ppid ticks flds" "is_int64 ppid" "ticks \<le> max_int64" "0 \<le> ticks"
    and "0 < userHz a" "userHz a \<le> 1000000000" "0 \<le> bootTime a"
    and "bootTime a + ticks div userHz a + 62135596800 \<le> max_int64"
  shows "parseStat a pid (stat_line pid comm flds) =
    Some (Some ((zero_instance pid)\<lparr>
      StartTime := unix_epoch + bootTime a * 1000000000 + ticks * 1000000000 div userHz a,
      inst_Name := Some comm, ParentPID := (if ppid \<noteq> 0 then Some ppid else None)\<rparr>))"
proof -
  have "is_int64 ticks" using assms(3,4) by (simp add: is_int64_def min_int64_def)
  from parseStat_line [OF assms(1,2) this] start_time_exact [OF assms(5,6,4,7,8)] assms(5) show ?thesis
    by simp
qed

theorem parseStat_roundtrip_witness:
  "parseStat demo_adapter 42 (stat_line 42 ''a) (b'' demo_fields) =
    Some (Some ((zero_instance 42)\<lparr>StartTime := unix_epoch + 1002500000000, inst_Name := Some ''a) (b'', ParentPID := Some 1\<rparr>))"
proof -
  from parseStat_roundtrip [OF demo_stat_fields, of demo_adapter 42 "''a) (b''"] show ?thesis
    by (simp add: demo_adapter_def is_int64_def min_int64_def max_int64_def)
qed

text \<open>
  A scan of \<open>/proc\<close> never panics and misses no process: with a clock tick that is not 0 it
  returns, whatever the files contain, and every numeric directory is in the snapshot, unreadable
  ones as an instance without start time.
\<close>

theorem captureSnapshot_complete:
  assumes "userHz a \<noteq> 0" "pe_ReadDir env (procPath a) = Inr es"
  shows "\<exists>a' insts. lx_captureSnapshot env a = Some (a', Inr insts) \<and>
    (\<forall>name pid. (name, True) \<in> set es \<and> Atoi name = (pid, None) \<longrightarrow> (\<exists>inst \<in> set insts. PID inst = pid))"
proof -
  let ?a = "a\<lparr>uidCache := Map.empty\<rparr>"
  have "userHz ?a \<noteq> 0" using assms(1) by simp
  from lx_entries_returns [OF this] obtain a' insts where r: "lx_entries env es ?a = Some (a', insts)" by blast
  with assms(2) have "lx_captureSnapshot env a = Some (a', Inr insts)" by (simp add: lx_captureSnapshot_def)
  with lx_entries_complete [OF r] show ?thesis by blast
qed

definition demo_proc_env :: proc_env where
  "demo_proc_env = \<lparr>pe_ReadFile = (\<lambda>_. Inl (errors_New ''no such file'')), pe_Readlink = (\<lambda>_. Inl (errors_New ''no such file'')),
     pe_ReadDir = (\<lambda>_. Inr [(dec_int 42, True), (''self'', True)]), pe_LookupId = (\<lambda>_. Inl (errors_New ''unknown userid'')),
     pe_Marshal = (\<lambda>_. Inl (errors_New ''no encoding''))\<rparr>"

theorem captureSnapshot_complete_witness:
  "\<exists>a' insts. lx_captureSnapshot demo_proc_env demo_adapter = Some (a', Inr insts) \<and> (\<exists>inst \<in> set insts. PID inst = 42)"
proof -
  have "Atoi (dec_int 42) = (42, None)" by (rule ParseInt_dec) (simp add: is_int64_def min_int64_def max_int64_def)
  with captureSnapshot_complete [of demo_adapter demo_proc_env "[(dec_int 42, True), (''self'', True)]"] show ?thesis
    by (fastforce simp: demo_adapter_def demo_proc_env_def)
qed

text \<open>
  C29. A process whose directory is listed is not reported as exited, unless its process id now belongs
  to another process: the snapshot then shows that process with a start time of its own.
\<close>

theorem listed_process_not_exited:
  assumes "lx_captureSnapshot env a = Some (a', Inr snap)" "pe_ReadDir env (procPath a) = Inr es"
    and "(name, True) \<in> set es" "Atoi name = (PID i, None)"
    and "state_ok (le_state le)" "iteration ord" "le_Reconcile ord snap le = (le', em)" "(i, ActionProcessExit) \<in> set em"
  shows "\<exists>inst \<in> set snap. PID inst = PID i \<and> \<not> IsZero (StartTime inst) \<and> IdentityKey inst \<noteq> IdentityKey i"
proof -
  from assms(1,2) have "lx_entries env es (a\<lparr>uidCache := Map.empty\<rparr>) = Some (a', snap)"
    by (auto simp: lx_captureSnapshot_def Let_def)
  from lx_entries_complete [OF this assms(3,4)] obtain inst where inst: "inst \<in> set snap" "PID inst = PID i" by blast
  have x: "IdentityKey i \<notin> observed_keys snap \<and> PID i \<notin> unreadable snap"
    using exit_not_observed [OF assms(5-8)] .
  with inst have "\<not> IsZero (StartTime inst)" unfolding unreadable_def by (metis (mono_tags, lifting) image_eqI mem_Collect_eq)
  moreover from this inst(1) x have "IdentityKey inst \<noteq> IdentityKey i"
    unfolding observed_keys_def by (metis (mono_tags, lifting) image_eqI mem_Collect_eq)
  ultimately show ?thesis using inst by blast
qed

definition demo_reuse_env :: proc_env where
  "demo_reuse_env = demo_proc_env\<lparr>pe_ReadDir := (\<lambda>_. Inr [(''42'', True)]),
     pe_ReadFile := (\<lambda>p. if last p = CHR ''t'' then Inr (stat_line 42 ''sh'' demo_fields) else Inl (errors_New ''no such file''))\<rparr>"

definition demo_old :: Instance where
  "demo_old = demo_inst 42 (unix_epoch + 5)"

definition demo_taker :: Instance where
  "demo_taker = (zero_instance 42)\<lparr>StartTime := unix_epoch + 1002500000000, inst_Name := Some ''sh'', ParentPID := Some 1\<rparr>"

definition demo_reused :: LifecycleEngine where
  "demo_reused = \<lparr>le_state = [(IdentityKey demo_old, demo_old)], initialized = True\<rparr>"

lemma demo_reuse_facts:
  "PID demo_old = 42" "PID demo_taker = 42" "\<not> IsZero (StartTime demo_old)" "\<not> IsZero (StartTime demo_taker)"
  by (simp_all add: demo_old_def demo_taker_def demo_inst_def zero_instance_def IsZero_def time_zero_def unix_epoch_def)

lemma demo_reuse_key: "IdentityKey demo_taker \<noteq> IdentityKey demo_old"
  using IdentityKey_eq [of demo_taker demo_old]
  by (auto simp: demo_old_def demo_taker_def demo_inst_def zero_instance_def is_int64_def min_int64_def max_int64_def)

lemma demo_reuse_stat:
  "parseStat (demo_adapter\<lparr>uidCache := Map.empty\<rparr>) 42 (stat_line 42 ''sh'' demo_fields) = Some (Some demo_taker)"
  using parseStat_line [OF demo_stat_fields, of "demo_adapter\<lparr>uidCache := Map.empty\<rparr>" 42 "''sh''"]
    start_time_exact [of 100 250 1000]
  by (simp add: demo_taker_def demo_adapter_def is_int64_def min_int64_def max_int64_def)

lemma demo_taker_same: "demo_taker\<lparr>ExecutablePath := None, CommandLine := None\<rparr> = demo_taker"
  by (simp add: demo_taker_def zero_instance_def)

lemma demo_reuse_process: "parseProcess demo_reuse_env 42 (demo_adapter\<lparr>uidCache := Map.empty\<rparr>) =
    Some (demo_adapter\<lparr>uidCache := Map.empty\<rparr>, Some demo_taker)"
  unfolding parseProcess_def
  by (simp add: demo_reuse_stat demo_taker_same demo_reuse_env_def demo_proc_env_def path_join_def command_line_def Let_def)

lemma demo_reuse_pid: "Atoi ''42'' = (42, None)"
proof -
  have "dec_int 42 = ''42''" by code_simp
  then show ?thesis using ParseInt_dec [of 42] by (simp add: is_int64_def min_int64_def max_int64_def)
qed

lemma demo_reuse_capture:
  "lx_captureSnapshot demo_reuse_env demo_adapter = Some (demo_adapter\<lparr>uidCache := Map.empty\<rparr>, Inr [demo_taker])"
proof -
  have "pe_ReadDir demo_reuse_env p = Inr [(''42'', True)]" for p by (simp add: demo_reuse_env_def)
  then show ?thesis by (simp add: lx_captureSnapshot_def demo_reuse_pid demo_reuse_process Let_def)
qed

lemma demo_reuse_exit: "(demo_old, ActionProcessExit) \<in> set (snd (le_Reconcile rev [demo_taker] demo_reused))"
  using demo_reuse_key demo_reuse_facts
  by (simp add: demo_reused_def le_Reconcile_def by_pid_def exited_def Let_def)

theorem listed_process_not_exited_witness:
  "\<exists>a' snap. lx_captureSnapshot demo_reuse_env demo_adapter = Some (a', Inr snap) \<and>
    (demo_old, ActionProcessExit) \<in> set (snd (le_Reconcile rev snap demo_reused)) \<and>
    (\<exists>inst \<in> set snap. PID inst = PID demo_old \<and> IdentityKey inst \<noteq> IdentityKey demo_old)"
proof -
  let ?r = "le_Reconcile rev [demo_taker] demo_reused"
  have d: "pe_ReadDir demo_reuse_env (procPath demo_adapter) = Inr [(''42'', True)]" by (simp add: demo_reuse_env_def)
  have ok: "state_ok (le_state demo_reused)" by (simp add: demo_reused_def state_ok_def demo_reuse_facts)
  have r: "?r = (fst ?r, snd ?r)" by simp
  have "\<exists>inst \<in> set [demo_taker]. PID inst = PID demo_old \<and> \<not> IsZero (StartTime inst) \<and> IdentityKey inst \<noteq> IdentityKey demo_old"
    by (rule listed_process_not_exited [OF demo_reuse_capture d _ _ ok id_iteration(2) r demo_reuse_exit])
       (use demo_reuse_pid demo_reuse_facts in auto)
  with demo_reuse_capture demo_reuse_exit show ?thesis by blast
qed

text \<open>
  \<open>GetExecutablePath\<close> returns: the loop that doubles the buffer ends as soon as one of the sizes
  260, 520, 1040, ... is large enough.
\<close>

theorem GetExecutablePath_returns:
  assumes "q (260 * 2 ^ k) \<noteq> InsufficientBuffer"
  shows "\<exists>r. GetExecutablePath openErr q = Some r"
  using query_path_returns [of q 260 k] assms by (cases openErr) (simp_all add: GetExecutablePath_def)

theorem GetExecutablePath_returns_witness:
  "\<exists>r. GetExecutablePath None (\<lambda>n. if n < 1000 then InsufficientBuffer else QueryOk ''x'') = Some r"
  by (rule GetExecutablePath_returns [where k = 2]) simp

end
