(* ===== verification/Agent_Config.thy ===== *)
theory Agent_Config
  imports Events
begin

text \<open>
  The configuration of the agent (\<open>src/agent/internal/config/config.go\<close>), the legacy identity file
  (\<open>src/agent/internal/identity/identity.go\<close>) and the heartbeats
  (\<open>src/agent/internal/health/health.go\<close>). \<open>url.Parse\<close>, the JSON decoding of the two structs and
  \<open>uuid.New\<close> are arguments; the file system of the identity is a map from paths to contents.
\<close>

section \<open>Configuration\<close>

record agent_config =
  cfg_APIAddr :: string
  cfg_TenantID :: string
  cfg_SiteID :: string
  cfg_ProcessInterval :: string
  cfg_InventoryInterval :: string
  cfg_NetworkInterval :: string
  cfg_MonitorPaths :: "string list"

text \<open>What the validation reads of a parsed URL.\<close>

record url =
  url_Scheme :: string
  url_Host :: string
  url_User :: bool
  url_RawQuery :: string
  url_Fragment :: string

definition cfg_bad_id :: "string \<Rightarrow> bool" where
  "cfg_bad_id v \<longleftrightarrow> length v > 128 \<or> \<not> id_regex_match v"

definition cfg_Validate :: "(string \<Rightarrow> go_error + url) \<Rightarrow> agent_config \<Rightarrow> go_error option" where
  "cfg_Validate url_Parse c =
     (if cfg_APIAddr c = [] then Some (errors_New ''api_addr is required'')
      else if cfg_TenantID c = [] then Some (errors_New ''tenant_id is required'')
      else if cfg_SiteID c = [] then Some (errors_New ''site_id is required'')
      else if (case url_Parse (cfg_APIAddr c) of
                 Inl _ \<Rightarrow> True
               | Inr u \<Rightarrow> url_Scheme u \<noteq> ''http'' \<and> url_Scheme u \<noteq> ''https'' \<or> url_Host u = [] \<or> url_User u \<or>
                          url_RawQuery u \<noteq> [] \<or> url_Fragment u \<noteq> [])
      then Some (errors_New ''api_addr must be a valid http(s) base URL without credentials, query, or fragment'')
      else if cfg_bad_id (cfg_TenantID c) then Some (errors_New ''tenant_id must be 1-128 letters, digits, or hyphens'')
      else if cfg_bad_id (cfg_SiteID c) then Some (errors_New ''site_id must be 1-128 letters, digits, or hyphens'')
      else None)"

definition Load ::
    "(string \<Rightarrow> go_error + url) \<Rightarrow> (string \<Rightarrow> go_error + agent_config) \<Rightarrow> go_error + string \<Rightarrow> go_error + agent_config" where
  "Load url_Parse unmarshal file_data =
     (case file_data of
        Inl e \<Rightarrow> Inl e
      | Inr data \<Rightarrow>
        (case unmarshal data of
           Inl e \<Rightarrow> Inl e
         | Inr cfg \<Rightarrow> (case cfg_Validate url_Parse cfg of Some e \<Rightarrow> Inl e | None \<Rightarrow> Inr cfg)))"

section \<open>Identity file\<close>

type_synonym files = "string \<rightharpoonup> string"

text \<open>One call: what reading the file answers if it exists, the errors of the write and the rename, how
  much of the data a failed write leaves, and the new identifier.\<close>

record identity_env =
  id_readErr :: "go_error option"
  id_decode :: "string \<Rightarrow> string option"
  id_encode :: "string \<Rightarrow> go_error + string"
  id_uuid :: string
  id_writeErr :: "go_error option"
  id_written :: nat
  id_renameErr :: "go_error option"

definition LoadOrInitialize :: "identity_env \<Rightarrow> string \<Rightarrow> files \<Rightarrow> files \<times> (go_error + string)" where
  "LoadOrInitialize env path fs =
     (let fresh =
        (case id_encode env (id_uuid env) of
           Inl e \<Rightarrow> (fs, Inl e)
         | Inr outData \<Rightarrow>
           (let tmpPath = path @ ''.tmp'' in
            case id_writeErr env of
              Some e \<Rightarrow> (fs(tmpPath \<mapsto> take (id_written env) outData), Inl (wrap_err ''failed to write tmp identity: '' e))
            | None \<Rightarrow>
              (case id_renameErr env of
                 Some e \<Rightarrow> (fs(tmpPath := None), Inl (wrap_err ''failed to commit identity: '' e))
               | None \<Rightarrow> (fs(tmpPath := None, path \<mapsto> outData), Inr (id_uuid env)))))
      in
      case id_readErr env of
        Some e \<Rightarrow> (fs, Inl (wrap_err ''failed to read identity file: '' e))
      | None \<Rightarrow>
        (case fs path of
           None \<Rightarrow> fresh
         | Some data \<Rightarrow>
           (case id_decode env data of
              Some d \<Rightarrow> if d \<noteq> [] then (fs, Inr d) else fresh
            | None \<Rightarrow> fresh)))"

section \<open>Health\<close>

record health_signal =
  sig_Type :: string
  sig_OccurredAt :: go_time

text \<open>\<open>emitHeartbeat\<close>: the signal, unless the context is done before the channel takes it.\<close>

definition emitHeartbeat :: "go_time \<Rightarrow> bool \<Rightarrow> health_signal list" where
  "emitHeartbeat now ctx_done = (if ctx_done then [] else [\<lparr>sig_Type = ''heartbeat'', sig_OccurredAt = now\<rparr>])"

text \<open>\<open>Start\<close>: one heartbeat at once, then one per tick until the context is done.\<close>

fun health_ticks :: "(bool \<times> go_time \<times> bool) list \<Rightarrow> health_signal list" where
  "health_ticks [] = []"
| "health_ticks ((done_now, now, lost) # ts) = (if done_now then [] else emitHeartbeat now lost @ health_ticks ts)"

definition health_Start :: "go_time \<Rightarrow> bool \<Rightarrow> (bool \<times> go_time \<times> bool) list \<Rightarrow> health_signal list" where
  "health_Start now lost ts = emitHeartbeat now lost @ health_ticks ts"

section \<open>Lemmas\<close>

lemma cfg_Validate_ids:
  "cfg_Validate url_Parse c = None \<Longrightarrow> \<not> bad_id (cfg_TenantID c) \<and> \<not> bad_id (cfg_SiteID c)"
  by (auto simp: cfg_Validate_def cfg_bad_id_def bad_id_iff split: if_splits sum.splits)

lemma Load_valid: "Load url_Parse unmarshal r = Inr c \<Longrightarrow> cfg_Validate url_Parse c = None"
  by (auto simp: Load_def split: sum.splits option.splits)

lemma LoadOrInitialize_atomic:
  assumes "LoadOrInitialize env path fs = (fs', r)"
  shows "fs' path = fs path \<or> (\<exists>data. id_encode env (id_uuid env) = Inr data \<and> fs' path = Some data \<and> r = Inr (id_uuid env))"
  using assms by (auto simp: LoadOrInitialize_def Let_def split: option.splits sum.splits if_splits)

section \<open>Properties\<close>

text \<open>
  The identity file is replaced atomically and the identity is stable: whatever fails, the file holds
  its old content or the complete new identity, and a call that succeeded is followed by calls that
  return the same identity.
\<close>

theorem identity_file_atomic:
  assumes "LoadOrInitialize env path fs = (fs', r)" "\<And>d data. id_encode env d = Inr data \<Longrightarrow> id_decode env data = Some d"
    and "id_uuid env \<noteq> []" "id_readErr env = None"
  shows "(fs' path = fs path \<or> (\<exists>data. id_encode env (id_uuid env) = Inr data \<and> fs' path = Some data)) \<and>
    (\<forall>d. r = Inr d \<longrightarrow> LoadOrInitialize (env\<lparr>id_uuid := other\<rparr>) path fs' = (fs', Inr d))"
proof -
  have "LoadOrInitialize (env\<lparr>id_uuid := other\<rparr>) path fs' = (fs', Inr d)" if "r = Inr d" for d
    using assms that by (auto simp: LoadOrInitialize_def Let_def split: option.splits sum.splits if_splits)
  with LoadOrInitialize_atomic [OF assms(1)] show ?thesis by blast
qed

definition demo_identity_env :: identity_env where
  "demo_identity_env = \<lparr>id_readErr = None, id_decode = Some, id_encode = Inr, id_uuid = ''dev-1'', id_writeErr = None,
     id_written = 0, id_renameErr = None\<rparr>"

theorem identity_file_atomic_witness:
  "\<exists>fs'. LoadOrInitialize demo_identity_env ''identity.json'' Map.empty = (fs', Inr ''dev-1'') \<and>
    LoadOrInitialize (demo_identity_env\<lparr>id_uuid := ''dev-2''\<rparr>) ''identity.json'' fs' = (fs', Inr ''dev-1'')"
proof -
  let ?fs = "[''identity.json'' \<mapsto> ''dev-1'']"
  have r: "LoadOrInitialize demo_identity_env ''identity.json'' Map.empty = (?fs, Inr ''dev-1'')"
    by (simp add: LoadOrInitialize_def demo_identity_env_def fun_eq_iff)
  from identity_file_atomic [OF r, of "''dev-2''"] have "LoadOrInitialize (demo_identity_env\<lparr>id_uuid := ''dev-2''\<rparr>) ''identity.json'' ?fs = (?fs, Inr ''dev-1'')"
    by (simp add: demo_identity_env_def)
  with r show ?thesis by blast
qed

end
