(* ===== verification/Passive_Network.thy ===== *)
theory Passive_Network
  imports Agent_Config
begin

text \<open>
  The passive network collector, \<open>src/agent/internal/collectors/passivenetwork\<close>: the observations
  (\<open>model.go\<close>), the decoder of Ethernet, VLAN, ARP, IPv4, TCP, UDP and ICMP (\<open>normalizer.go\<close>), the
  Modbus/TCP decoder (\<open>modbus.go\<close>), the protocol identification (\<open>protocols.go\<close>), the replay adapter
  (\<open>adapter.go\<close>) and the collector (\<open>collector.go\<close>). Frames are lists of 8 bit words; slicing or
  indexing out of range, a panic of the source, is \<^term>\<open>None\<close>. The lemmas show that no frame makes
  the decoder panic and what evidence stands behind a confidence level.
\<close>

unbundle bit_operations_syntax

section \<open>Data\<close>

datatype ConfidenceLevel = ConfidenceKnown | ConfidenceInferred | ConfidenceUnknown | ConfidenceUnsupported

fun confidence_text :: "ConfidenceLevel \<Rightarrow> string" where
  "confidence_text ConfidenceKnown = ''known''"
| "confidence_text ConfidenceInferred = ''inferred''"
| "confidence_text ConfidenceUnknown = ''unknown''"
| "confidence_text ConfidenceUnsupported = ''unsupported''"

definition QualityMalformedFrame :: string where "QualityMalformedFrame = ''MALFORMED_FRAME''"
definition QualityTruncatedPacket :: string where "QualityTruncatedPacket = ''TRUNCATED_PACKET''"
definition QualityUnsupportedProtocol :: string where "QualityUnsupportedProtocol = ''UNSUPPORTED_PROTOCOL''"
definition QualityModbusInvalidMBAP :: string where "QualityModbusInvalidMBAP = ''MODBUS_INVALID_MBAP''"
definition QualityModbusTruncatedPayload :: string where "QualityModbusTruncatedPayload = ''MODBUS_TRUNCATED_PAYLOAD''"
definition QualityModbusUnsupportedFunction :: string where
  "QualityModbusUnsupportedFunction = ''MODBUS_UNSUPPORTED_FUNCTION''"

record RawObservation =
  raw_Data :: bytes
  raw_Timestamp :: go_time
  raw_Interface :: string
  raw_LinkType :: string

record NormalizedObservation =
  no_ObservedAt :: go_time
  no_Interface :: string
  no_SrcMAC :: string
  no_DstMAC :: string
  no_SrcIP :: string
  no_DstIP :: string
  no_SrcPort :: u16
  no_DstPort :: u16
  no_TransportProtocol :: string
  no_VLANID :: "u16 option"
  no_ProtocolHint :: string
  no_Confidence :: ConfidenceLevel
  no_PayloadLength :: nat
  no_Metadata :: metadata
  no_QualityFlags :: "string list"

text \<open>The printed forms of a hardware address and of an IPv4 address.\<close>

definition mac_string :: "bytes \<Rightarrow> string" where
  "mac_string b = join '':'' (map hex_byte b)"

definition ip_string :: "bytes \<Rightarrow> string" where
  "ip_string b = join ''.'' (map (\<lambda>x. dec_nat (unat x)) b)"

definition flagged :: "string \<Rightarrow> NormalizedObservation \<Rightarrow> NormalizedObservation" where
  "flagged f obs = obs\<lparr>no_QualityFlags := no_QualityFlags obs @ [f]\<rparr>"

text \<open>The exits for frames that cannot be decoded: a flag, no confidence, no payload.\<close>

definition rejected :: "string \<Rightarrow> NormalizedObservation \<Rightarrow> NormalizedObservation \<times> bytes" where
  "rejected f obs = ((flagged f obs)\<lparr>no_Confidence := ConfidenceUnsupported\<rparr>, [])"

section \<open>Transport\<close>

definition decodeTCP :: "bytes \<Rightarrow> NormalizedObservation \<Rightarrow> (NormalizedObservation \<times> bytes) option" where
  "decodeTCP l4 obs =
     (if length l4 < 20 then Some (rejected QualityTruncatedPacket obs)
      else do {
        sp \<leftarrow> be16_at l4 0;
        dp \<leftarrow> be16_at l4 2;
        b12 \<leftarrow> byte_at l4 12;
        let obs = obs\<lparr>no_TransportProtocol := ''TCP'', no_SrcPort := sp, no_DstPort := dp\<rparr>;
        let dataOffset = unat (drop_bit 4 b12) * 4;
        if dataOffset < 20 \<or> length l4 < dataOffset then Some (rejected QualityMalformedFrame obs)
        else do {
          payload \<leftarrow> slice_from l4 dataOffset;
          Some (obs\<lparr>no_Confidence := ConfidenceKnown, no_PayloadLength := length payload\<rparr>, payload)
        }
      })"

definition decodeUDP :: "bytes \<Rightarrow> NormalizedObservation \<Rightarrow> (NormalizedObservation \<times> bytes) option" where
  "decodeUDP l4 obs =
     (if length l4 < 8 then Some (rejected QualityTruncatedPacket obs)
      else do {
        sp \<leftarrow> be16_at l4 0;
        dp \<leftarrow> be16_at l4 2;
        payload \<leftarrow> slice_from l4 8;
        Some (obs\<lparr>no_TransportProtocol := ''UDP'', no_SrcPort := sp, no_DstPort := dp,
                  no_Confidence := ConfidenceKnown, no_PayloadLength := length payload\<rparr>, payload)
      })"

definition decodeICMP :: "bytes \<Rightarrow> NormalizedObservation \<Rightarrow> (NormalizedObservation \<times> bytes) option" where
  "decodeICMP l4 obs =
     (if length l4 < 4 then Some (rejected QualityTruncatedPacket obs)
      else do {
        t \<leftarrow> byte_at l4 0;
        c \<leftarrow> byte_at l4 1;
        Some (obs\<lparr>no_TransportProtocol := ''ICMP'', no_Confidence := ConfidenceKnown,
                  no_Metadata := (no_Metadata obs)(''icmp_type'' \<mapsto> GNum (uint t), ''icmp_code'' \<mapsto> GNum (uint c)),
                  no_PayloadLength := length l4\<rparr>, l4)
      })"

section \<open>Network\<close>

definition decodeIPv4 :: "bytes \<Rightarrow> nat \<Rightarrow> NormalizedObservation \<Rightarrow> (NormalizedObservation \<times> bytes) option" where
  "decodeIPv4 data offset obs =
     (if length data < offset + 20 then Some (rejected QualityTruncatedPacket obs)
      else do {
        b0 \<leftarrow> byte_at data offset;
        if drop_bit 4 b0 \<noteq> 4 then Some (rejected QualityMalformedFrame obs)
        else do {
          let ihl = unat (b0 AND 0x0F) * 4;
          if ihl < 20 \<or> length data < offset + ihl then Some (rejected QualityMalformedFrame obs)
          else do {
            protocol \<leftarrow> byte_at data (offset + 9);
            src \<leftarrow> slice data (offset + 12) (offset + 16);
            dst \<leftarrow> slice data (offset + 16) (offset + 20);
            l4Data \<leftarrow> slice_from data (offset + ihl);
            let obs = obs\<lparr>no_SrcIP := ip_string src, no_DstIP := ip_string dst\<rparr>;
            if protocol = 6 then decodeTCP l4Data obs
            else if protocol = 17 then decodeUDP l4Data obs
            else if protocol = 1 then decodeICMP l4Data obs
            else Some (rejected QualityUnsupportedProtocol
                   (obs\<lparr>no_TransportProtocol := ''IP_'' @ dec_nat (unat protocol)\<rparr>))
          }
        }
      })"

definition decodeARP :: "bytes \<Rightarrow> nat \<Rightarrow> NormalizedObservation \<Rightarrow> (NormalizedObservation \<times> bytes) option" where
  "decodeARP data offset obs =
     (if length data < offset + 28 then Some (rejected QualityTruncatedPacket obs)
      else do {
        htype \<leftarrow> be16_at data offset;
        ptype \<leftarrow> be16_at data (offset + 2);
        hlen \<leftarrow> byte_at data (offset + 4);
        plen \<leftarrow> byte_at data (offset + 5);
        oper \<leftarrow> be16_at data (offset + 6);
        if htype \<noteq> 1 \<or> ptype \<noteq> 0x0800 \<or> hlen \<noteq> 6 \<or> plen \<noteq> 4
        then Some (rejected QualityUnsupportedProtocol (obs\<lparr>no_TransportProtocol := ''ARP''\<rparr>))
        else do {
          sha \<leftarrow> slice data (offset + 8) (offset + 14);
          spa \<leftarrow> slice data (offset + 14) (offset + 18);
          tha \<leftarrow> slice data (offset + 18) (offset + 24);
          tpa \<leftarrow> slice data (offset + 24) (offset + 28);
          let operation = (if oper = 1 then ''request'' else if oper = 2 then ''reply''
            else ''opcode_'' @ dec_nat (unat oper));
          Some (obs\<lparr>no_TransportProtocol := ''ARP'', no_Confidence := ConfidenceKnown,
                    no_SrcMAC := mac_string sha, no_DstMAC := mac_string tha,
                    no_SrcIP := ip_string spa, no_DstIP := ip_string tpa,
                    no_Metadata := (no_Metadata obs)(''arp_operation'' \<mapsto> GStr operation)\<rparr>, [])
        }
      })"

definition new_observation :: "RawObservation \<Rightarrow> NormalizedObservation" where
  "new_observation raw =
     \<lparr>no_ObservedAt = raw_Timestamp raw, no_Interface = raw_Interface raw, no_SrcMAC = [], no_DstMAC = [],
      no_SrcIP = [], no_DstIP = [], no_SrcPort = 0, no_DstPort = 0, no_TransportProtocol = [], no_VLANID = None,
      no_ProtocolHint = ''unknown'', no_Confidence = ConfidenceUnknown, no_PayloadLength = 0,
      no_Metadata = Map.empty, no_QualityFlags = []\<rparr>"

text \<open>The switch on the EtherType.\<close>

definition route :: "u16 \<Rightarrow> bytes \<Rightarrow> nat \<Rightarrow> NormalizedObservation \<Rightarrow> (NormalizedObservation \<times> bytes) option" where
  "route etherType data offset obs =
     (if etherType = 0x0806 then decodeARP data offset obs
      else if etherType = 0x0800 then decodeIPv4 data offset obs
      else Some (rejected QualityUnsupportedProtocol
             (obs\<lparr>no_TransportProtocol := ''ETH_0x'' @ hex4_upper etherType\<rparr>)))"

definition NormalizeRawObservation :: "RawObservation \<Rightarrow> (NormalizedObservation \<times> bytes) option" where
  "NormalizeRawObservation raw =
     (let obs = new_observation raw; data = raw_Data raw in
      if data = [] then Some (rejected QualityTruncatedPacket obs)
      else if raw_LinkType raw = ''raw_ip'' then route 0x0800 data 0 obs
      else if length data < 14 then Some (rejected QualityTruncatedPacket obs)
      else do {
        dst \<leftarrow> slice data 0 6;
        src \<leftarrow> slice data 6 12;
        etherType \<leftarrow> be16_at data 12;
        let obs = obs\<lparr>no_DstMAC := mac_string dst, no_SrcMAC := mac_string src\<rparr>;
        if etherType = 0x8100 then
          (if length data < 18 then Some (rejected QualityTruncatedPacket obs)
           else do {
             tci \<leftarrow> be16_at data 14;
             etherType \<leftarrow> be16_at data 16;
             route etherType data 18 (obs\<lparr>no_VLANID := Some (tci AND 0x0FFF)\<rparr>)
           })
        else route etherType data 14 obs
      })"

section \<open>Modbus/TCP\<close>

record ModbusEvidence =
  TransactionID :: u16
  ProtocolID :: u16
  mb_Length :: u16
  UnitID :: u8
  FunctionCode :: u8
  FunctionName :: string
  IsException :: bool
  ExceptionCode :: "u8 option"
  Direction :: string
  StartingAddress :: "u16 option"
  mb_Quantity :: "u16 option"

definition FunctionNameFromCode :: "u8 \<Rightarrow> string \<times> bool" where
  "FunctionNameFromCode fc =
     (if fc = 1 then (''read_coils'', True)
      else if fc = 2 then (''read_discrete_inputs'', True)
      else if fc = 3 then (''read_holding_registers'', True)
      else if fc = 4 then (''read_input_registers'', True)
      else if fc = 5 then (''write_single_coil'', True)
      else if fc = 6 then (''write_single_register'', True)
      else if fc = 15 then (''write_multiple_coils'', True)
      else if fc = 16 then (''write_multiple_registers'', True)
      else (''unsupported_fc_'' @ dec_nat (unat fc), False))"

definition modbus_direction :: "u16 \<Rightarrow> u16 \<Rightarrow> string" where
  "modbus_direction sp dp =
     (if dp = 502 \<and> sp \<noteq> 502 then ''request'' else if sp = 502 \<and> dp \<noteq> 502 then ''response'' else ''unknown'')"

text \<open>The address and the quantity of a request.\<close>

definition address_quantity :: "bytes \<Rightarrow> ModbusEvidence \<Rightarrow> (ModbusEvidence \<times> string list) option" where
  "address_quantity pdu ev =
     (if length pdu \<ge> 4
      then do {
        startAddr \<leftarrow> be16_at pdu 0;
        qty \<leftarrow> be16_at pdu 2;
        Some (ev\<lparr>StartingAddress := Some startAddr, mb_Quantity := Some qty\<rparr>, [])
      }
      else Some (ev, [QualityModbusTruncatedPayload]))"

definition modbus_pdu :: "bytes \<Rightarrow> ModbusEvidence \<Rightarrow> (ModbusEvidence \<times> string list) option" where
  "modbus_pdu pdu ev =
     (let fc = FunctionCode ev in
      if fc \<in> {1, 2, 3, 4} \<or> fc \<in> {15, 16} then
        (if Direction ev = ''request'' then address_quantity pdu ev else Some (ev, []))
      else if fc \<in> {5, 6} then
        (if length pdu \<ge> 4
         then do { addr \<leftarrow> be16_at pdu 0; Some (ev\<lparr>StartingAddress := Some addr\<rparr>, []) }
         else Some (ev, [QualityModbusTruncatedPayload]))
      else Some (ev, []))"

definition DecodeModbusTCP ::
    "NormalizedObservation \<Rightarrow> bytes \<Rightarrow> (ModbusEvidence option \<times> ConfidenceLevel \<times> string list) option" where
  "DecodeModbusTCP obs payload =
     (if length payload < 7 then Some (None, ConfidenceInferred, [QualityModbusTruncatedPayload])
      else do {
        txID \<leftarrow> be16_at payload 0;
        protoID \<leftarrow> be16_at payload 2;
        mbapLen \<leftarrow> be16_at payload 4;
        unitID \<leftarrow> byte_at payload 6;
        if protoID \<noteq> 0 then Some (None, ConfidenceInferred, [QualityModbusInvalidMBAP])
        else if mbapLen < 2 then Some (None, ConfidenceInferred, [QualityModbusInvalidMBAP])
        else if length payload < 8 then Some (None, ConfidenceInferred, [QualityModbusTruncatedPayload])
        else do {
          rawFC \<leftarrow> byte_at payload 7;
          let ev = \<lparr>TransactionID = txID, ProtocolID = protoID, mb_Length = mbapLen, UnitID = unitID,
            FunctionCode = rawFC, FunctionName = [], IsException = False, ExceptionCode = None,
            Direction = modbus_direction (no_SrcPort obs) (no_DstPort obs), StartingAddress = None, mb_Quantity = None\<rparr>;
          if rawFC \<ge> 0x80 then do {
            let ev = ev\<lparr>IsException := True, Direction := ''response'',
              FunctionName := fst (FunctionNameFromCode (rawFC AND 0x7F)) @ ''_exception''\<rparr>;
            if length payload \<ge> 9
            then do { exc \<leftarrow> byte_at payload 8; Some (Some (ev\<lparr>ExceptionCode := Some exc\<rparr>), ConfidenceKnown, []) }
            else Some (Some ev, ConfidenceKnown, [QualityModbusTruncatedPayload])
          }
          else do {
            let ev = ev\<lparr>FunctionName := fst (FunctionNameFromCode rawFC)\<rparr>;
            if \<not> snd (FunctionNameFromCode rawFC)
            then Some (Some ev, ConfidenceKnown, [QualityModbusUnsupportedFunction])
            else do {
              pdu \<leftarrow> slice_from payload 8;
              (ev', flags) \<leftarrow> modbus_pdu pdu ev;
              Some (Some ev', ConfidenceKnown, flags)
            }
          }
        }
      })"

section \<open>Protocol identification\<close>

definition num16 :: "u16 \<Rightarrow> gval" where "num16 w = GNum (uint w)"
definition num8 :: "u8 \<Rightarrow> gval" where "num8 w = GNum (uint w)"

definition opt_field :: "string \<Rightarrow> ('a \<Rightarrow> gval) \<Rightarrow> 'a option \<Rightarrow> (string \<times> gval) list" where
  "opt_field k f v = (case v of None \<Rightarrow> [] | Some x \<Rightarrow> [(k, f x)])"

text \<open>The evidence as the event carries it, with the JSON names of the struct.\<close>

definition evidence_value :: "ModbusEvidence \<Rightarrow> gval" where
  "evidence_value ev =
     GObj ([(''transaction_id'', num16 (TransactionID ev)), (''protocol_id'', num16 (ProtocolID ev)),
            (''length'', num16 (mb_Length ev)), (''unit_id'', num8 (UnitID ev)), (''function_code'', num8 (FunctionCode ev)),
            (''function_name'', GStr (FunctionName ev)), (''is_exception'', GBool (IsException ev))] @
           opt_field ''exception_code'' num8 (ExceptionCode ev) @ [(''direction'', GStr (Direction ev))] @
           opt_field ''starting_address'' num16 (StartingAddress ev) @ opt_field ''quantity'' num16 (mb_Quantity ev))"

definition evidence_metadata :: "ModbusEvidence \<Rightarrow> (string \<times> gval) list" where
  "evidence_metadata ev =
     [(''protocol_evidence'', evidence_value ev), (''modbus_transaction_id'', num16 (TransactionID ev)),
      (''modbus_protocol_id'', num16 (ProtocolID ev)), (''modbus_length'', num16 (mb_Length ev)),
      (''modbus_unit_id'', num8 (UnitID ev)), (''modbus_function_code'', num8 (FunctionCode ev)),
      (''modbus_function_name'', GStr (FunctionName ev)), (''modbus_direction'', GStr (Direction ev)),
      (''modbus_is_exception'', GBool (IsException ev))] @
     opt_field ''modbus_starting_address'' num16 (StartingAddress ev) @
     opt_field ''modbus_quantity'' num16 (mb_Quantity ev) @
     opt_field ''modbus_exception_code'' num8 (ExceptionCode ev)"

definition on_port :: "u16 \<Rightarrow> NormalizedObservation \<Rightarrow> bool" where
  "on_port p obs \<longleftrightarrow> no_SrcPort obs = p \<or> no_DstPort obs = p"

definition Identify ::
    "NormalizedObservation \<Rightarrow> bytes \<Rightarrow> (NormalizedObservation \<times> string \<times> ConfidenceLevel) option" where
  "Identify obs payload =
     (if no_TransportProtocol obs = ''TCP'' then
        (if on_port 502 obs then do {
           (evidence, conf, flags) \<leftarrow> DecodeModbusTCP obs payload;
           let obs = obs\<lparr>no_QualityFlags := no_QualityFlags obs @ flags\<rparr>;
           let obs = (case evidence of None \<Rightarrow> obs
             | Some ev \<Rightarrow> obs\<lparr>no_Metadata := no_Metadata obs ++ map_of (rev (evidence_metadata ev))\<rparr>);
           Some (obs, ''modbus'', conf)
         }
         else if on_port 20000 obs then Some (obs, ''dnp3'', ConfidenceInferred)
         else if on_port 44818 obs then Some (obs, ''ethernet_ip'', ConfidenceInferred)
         else if on_port 102 obs then Some (obs, ''s7'', ConfidenceInferred)
         else Some (obs, ''unknown'', ConfidenceUnknown))
      else if no_TransportProtocol obs = ''UDP'' then
        (if on_port 20000 obs then Some (obs, ''dnp3'', ConfidenceInferred)
         else if on_port 2222 obs then Some (obs, ''ethernet_ip'', ConfidenceInferred)
         else Some (obs, ''unknown'', ConfidenceUnknown))
      else Some (obs, ''unknown'', ConfidenceUnknown))"

section \<open>The collector\<close>

datatype DropPolicy = DropPolicyBlock | DropPolicyDropOldest

type_synonym proto_identifier =
  "NormalizedObservation \<Rightarrow> bytes \<Rightarrow> (NormalizedObservation \<times> string \<times> ConfidenceLevel) option"

record passive_collector =
  pn_cfg :: "agent_config option"
  pn_adapter :: bool
  pn_identifier :: proto_identifier
  pn_bufferCap :: int
  pn_dropPolicy :: DropPolicy
  pn_started :: bool
  pn_stopped :: bool
  pn_cancel :: bool
  pn_dropCount :: u64
  pn_processCount :: u64

datatype pn_option =
    WithBufferCapacity int
  | WithDropPolicy DropPolicy
  | WithProtocolIdentifier "proto_identifier option"

fun apply_option :: "pn_option \<Rightarrow> passive_collector \<Rightarrow> passive_collector" where
  "apply_option (WithBufferCapacity n) c = (if n > 0 then c\<lparr>pn_bufferCap := n\<rparr> else c)"
| "apply_option (WithDropPolicy p) c = c\<lparr>pn_dropPolicy := p\<rparr>"
| "apply_option (WithProtocolIdentifier ident) c = (case ident of None \<Rightarrow> c | Some i \<Rightarrow> c\<lparr>pn_identifier := i\<rparr>)"

definition pn_NewCollector :: "agent_config option \<Rightarrow> bool \<Rightarrow> pn_option list \<Rightarrow> passive_collector" where
  "pn_NewCollector cfg adapter opts =
     fold apply_option opts
       \<lparr>pn_cfg = cfg, pn_adapter = adapter, pn_identifier = Identify, pn_bufferCap = 100, pn_dropPolicy = DropPolicyBlock,
        pn_started = False, pn_stopped = False, pn_cancel = False, pn_dropCount = 0, pn_processCount = 0\<rparr>"

text \<open>\<open>Start\<close> with the answer of the adapter's \<open>Start\<close>.\<close>

definition pn_Start :: "go_error option \<Rightarrow> passive_collector \<Rightarrow> passive_collector \<times> go_error option" where
  "pn_Start adapterErr c =
     (if pn_stopped c then (c, Some (errors_New ''passive network collector cannot be restarted''))
      else if pn_started c then (c, Some (errors_New ''passive network collector already started''))
      else if \<not> pn_adapter c then (c, Some (errors_New ''capture adapter is required''))
      else (c\<lparr>pn_started := True, pn_cancel := True\<rparr>,
            map_option (wrap_err ''failed to start capture adapter: '') adapterErr))"

definition pn_Stop :: "go_error option \<Rightarrow> passive_collector \<Rightarrow> passive_collector \<times> go_error option" where
  "pn_Stop adapterErr c =
     (if pn_stopped c then (c, None) else (c\<lparr>pn_stopped := True\<rparr>, if pn_adapter c then adapterErr else None))"

definition or_default :: "string \<Rightarrow> string \<Rightarrow> string" where
  "or_default d v = (if v \<noteq> [] then v else d)"

text \<open>The event of an observation; \<open>uid\<close> is the random UUID and \<open>now\<close> the clock.\<close>

definition observation_event ::
    "string \<Rightarrow> go_time \<Rightarrow> agent_config option \<Rightarrow> NormalizedObservation \<Rightarrow> canonical_event" where
  "observation_event uid now cfg obs =
     zero_event\<lparr>EventID := uid,
       TenantID := (case cfg of None \<Rightarrow> ''default-tenant'' | Some c \<Rightarrow> or_default ''default-tenant'' (cfg_TenantID c)),
       SiteID := (case cfg of None \<Rightarrow> ''default-site'' | Some c \<Rightarrow> or_default ''default-site'' (cfg_SiteID c)),
       OccurredAt := no_ObservedAt obs, ReceivedAt := now, Source := ''passive_network'', Category := ''network'',
       Severity := (if no_QualityFlags obs \<noteq> [] then ''WARNING'' else ''INFO''),
       Protocol := (if no_ProtocolHint obs = ''unknown'' \<and> no_TransportProtocol obs \<noteq> [] then no_TransportProtocol obs
                    else no_ProtocolHint obs),
       QualityFlags := no_QualityFlags obs, SchemaVersion := CurrentSchemaVersion,
       Src := (if no_SrcIP obs \<noteq> [] then no_SrcIP obs else no_SrcMAC obs),
       Dst := (if no_DstIP obs \<noteq> [] then no_DstIP obs else no_DstMAC obs),
       Metadata := Some
         ((map_of (rev ([(''interface'', GStr (no_Interface obs)), (''src_mac'', GStr (no_SrcMAC obs)),
            (''dst_mac'', GStr (no_DstMAC obs)), (''src_port'', num16 (no_SrcPort obs)), (''dst_port'', num16 (no_DstPort obs)),
            (''transport_protocol'', GStr (no_TransportProtocol obs)),
            (''confidence'', GStr (confidence_text (no_Confidence obs))), (''protocol_hint'', GStr (no_ProtocolHint obs)),
            (''payload_length'', GNum (int (no_PayloadLength obs)))] @ opt_field ''vlan_id'' num16 (no_VLANID obs))))
          ++ no_Metadata obs)\<rparr>"

definition identified :: "proto_identifier \<Rightarrow> RawObservation \<Rightarrow> NormalizedObservation option" where
  "identified ident raw = do {
     (obs, payload) \<leftarrow> NormalizeRawObservation raw;
     (obs, hint, conf) \<leftarrow> ident obs payload;
     let obs = obs\<lparr>no_ProtocolHint := hint\<rparr>;
     Some (if conf \<noteq> ConfidenceUnknown then obs\<lparr>no_Confidence := conf\<rparr> else obs)
   }"

definition processRaw ::
    "string \<Rightarrow> go_time \<Rightarrow> bool \<Rightarrow> RawObservation \<Rightarrow> passive_collector \<Rightarrow>
     (passive_collector \<times> canonical_event option) option" where
  "processRaw uid now ctx_done raw c = do {
     obs \<leftarrow> identified (pn_identifier c) raw;
     Some (c\<lparr>pn_processCount := pn_processCount c + 1\<rparr>,
           if ctx_done then None else Some (observation_event uid now (pn_cfg c) obs))
   }"

text \<open>\<open>run\<close> over the frames the adapter delivers, until the context is done or the channel closed.\<close>

fun pn_run ::
    "(bool \<times> string \<times> go_time \<times> bool \<times> RawObservation) list \<Rightarrow> passive_collector \<Rightarrow>
     (passive_collector \<times> canonical_event list) option" where
  "pn_run [] c = Some (c, [])"
| "pn_run ((ctx_done, uid, now, lost, raw) # rs) c =
     (if ctx_done then Some (c, [])
      else do {
        (c1, ev) \<leftarrow> processRaw uid now lost raw c;
        (c2, evs) \<leftarrow> pn_run rs c1;
        Some (c2, (case ev of None \<Rightarrow> evs | Some e \<Rightarrow> e # evs))
      })"

section \<open>The replay adapter\<close>

record replay_adapter =
  ra_fixtures :: "RawObservation list"
  ra_started :: bool
  ra_stopped :: bool

definition NewReplayAdapter :: "RawObservation list \<Rightarrow> replay_adapter" where
  "NewReplayAdapter fixtures = \<lparr>ra_fixtures = fixtures, ra_started = False, ra_stopped = False\<rparr>"

text \<open>\<open>Start\<close>: the error, or the frames the worker sends before its context is done (after \<open>n\<close> of them).\<close>

definition ra_Start :: "nat \<Rightarrow> replay_adapter \<Rightarrow> replay_adapter \<times> (go_error + RawObservation list)" where
  "ra_Start n r =
     (if ra_stopped r then (r, Inl (errors_New ''capture adapter already stopped''))
      else if ra_started r then (r, Inl (errors_New ''capture adapter already running''))
      else (r\<lparr>ra_started := True\<rparr>, Inr (take n (ra_fixtures r))))"

definition ra_Stop :: "replay_adapter \<Rightarrow> replay_adapter" where
  "ra_Stop r = (if ra_stopped r then r else r\<lparr>ra_stopped := True\<rparr>)"

section \<open>No panic\<close>

lemma decodeTCP_returns [panic_free]: "\<exists>o' p. decodeTCP l4 obs = Some (o', p) \<and> length p \<le> length l4"
proof (cases "length l4 < 20")
  case False
  then show ?thesis by (auto simp: decodeTCP_def panic_free Let_def rejected_def)
qed (simp add: decodeTCP_def rejected_def)

lemma decodeUDP_returns [panic_free]: "\<exists>o' p. decodeUDP l4 obs = Some (o', p) \<and> length p \<le> length l4"
  by (cases "length l4 < 8") (auto simp: decodeUDP_def panic_free rejected_def)

lemma decodeICMP_returns [panic_free]: "\<exists>o' p. decodeICMP l4 obs = Some (o', p) \<and> length p \<le> length l4"
proof (cases "length l4 < 4")
  case False
  then have "0 < length l4" "1 < length l4" by linarith+
  with False show ?thesis by (simp add: decodeICMP_def byte_at_Some)
qed (simp add: decodeICMP_def rejected_def)

lemma tail_returns:
  assumes "\<And>l4 obs. \<exists>o' p. f l4 obs = Some (o', p) \<and> length p \<le> length l4"
  shows "\<exists>o' p. f (drop n data) obs = Some (o', p) \<and> length p \<le> length data"
proof -
  obtain o' p where "f (drop n data) obs = Some (o', p)" "length p \<le> length (drop n data)" using assms by blast
  then show ?thesis by fastforce
qed

lemma decodeIPv4_returns: "\<exists>o' p. decodeIPv4 data offset obs = Some (o', p) \<and> length p \<le> length data"
proof (cases "length data < offset + 20")
  case False
  then have b: "byte_at data offset = Some (data ! offset)" "byte_at data (offset + 9) = Some (data ! (offset + 9))"
    "slice data (offset + 12) (offset + 16) = Some (take 4 (drop (offset + 12) data))"
    "slice data (offset + 16) (offset + 20) = Some (take 4 (drop (offset + 16) data))"
    by (simp_all add: byte_at_Some slice_Some)
  let ?ihl = "unat (data ! offset AND 0x0F) * 4"
  show ?thesis
  proof (cases "drop_bit 4 (data ! offset) \<noteq> 4 \<or> ?ihl < 20 \<or> length data < offset + ?ihl")
    case True
    with False b show ?thesis by (auto simp: decodeIPv4_def rejected_def Let_def)
  next
    case ok: False
    then have "slice_from data (offset + ?ihl) = Some (drop (offset + ?ihl) data)" by (simp add: slice_from_Some)
    with False b ok show ?thesis
      using tail_returns [of decodeTCP, OF decodeTCP_returns] tail_returns [of decodeUDP, OF decodeUDP_returns]
        tail_returns [of decodeICMP, OF decodeICMP_returns]
      by (simp add: decodeIPv4_def rejected_def Let_def)
  qed
qed (simp add: decodeIPv4_def rejected_def)

lemma decodeARP_returns: "\<exists>o' p. decodeARP data offset obs = Some (o', p) \<and> length p \<le> length data"
  by (cases "length data < offset + 28") (simp_all add: decodeARP_def panic_free Let_def rejected_def)

lemma route_returns: "\<exists>o' p. route et data offset obs = Some (o', p) \<and> length p \<le> length data"
  using decodeARP_returns decodeIPv4_returns by (simp add: route_def rejected_def)

lemma Normalize_returns: "\<exists>obs p. NormalizeRawObservation raw = Some (obs, p) \<and> length p \<le> length (raw_Data raw)"
proof (cases "raw_Data raw = [] \<or> raw_LinkType raw = ''raw_ip'' \<or> length (raw_Data raw) < 14")
  case True
  then show ?thesis using route_returns by (auto simp: NormalizeRawObservation_def Let_def rejected_def)
next
  case False
  then show ?thesis
    using route_returns by (simp add: NormalizeRawObservation_def Let_def panic_free rejected_def)
qed

lemma modbus_pdu_returns: "\<exists>ev' flags. modbus_pdu pdu ev = Some (ev', flags)"
  by (simp add: modbus_pdu_def address_quantity_def Let_def panic_free)

lemma DecodeModbus_returns: "\<exists>ev conf flags. DecodeModbusTCP obs payload = Some (ev, conf, flags)"
proof (cases "length payload < 7")
  case False
  then show ?thesis
  proof (cases "length payload < 8")
    case long: False
    obtain ev' flags' where m: "modbus_pdu (drop 8 payload) = (\<lambda>ev. Some (ev' ev, flags' ev))"
      using modbus_pdu_returns [of "drop 8 payload"] by metis
    from long show ?thesis by (simp add: DecodeModbusTCP_def panic_free Let_def m)
  qed (simp add: DecodeModbusTCP_def panic_free)
qed (simp add: DecodeModbusTCP_def)

lemma Identify_returns: "\<exists>o' hint conf. Identify obs payload = Some (o', hint, conf)"
  using DecodeModbus_returns [of obs payload] by (auto simp: Identify_def Let_def)

lemma identified_returns: "\<exists>obs. identified Identify raw = Some obs"
proof -
  obtain obs p where n: "NormalizeRawObservation raw = Some (obs, p)" using Normalize_returns by blast
  obtain o' hint conf where "Identify obs p = Some (o', hint, conf)" using Identify_returns by blast
  with n show ?thesis by (simp add: identified_def Let_def)
qed

section \<open>Evidence\<close>

lemma decode_frame:
  "decodeTCP l4 obs = Some (o', p) \<Longrightarrow> no_VLANID o' = no_VLANID obs \<and> (no_PayloadLength o' = no_PayloadLength obs \<or> no_PayloadLength o' = length p)"
  "decodeUDP l4 obs = Some (o', p) \<Longrightarrow> no_VLANID o' = no_VLANID obs \<and> (no_PayloadLength o' = no_PayloadLength obs \<or> no_PayloadLength o' = length p)"
  "decodeICMP l4 obs = Some (o', p) \<Longrightarrow> no_VLANID o' = no_VLANID obs \<and> (no_PayloadLength o' = no_PayloadLength obs \<or> no_PayloadLength o' = length p)"
  "decodeARP data n obs = Some (o', p) \<Longrightarrow> no_VLANID o' = no_VLANID obs \<and> (no_PayloadLength o' = no_PayloadLength obs \<or> no_PayloadLength o' = length p)"
  by (auto simp: decodeTCP_def decodeUDP_def decodeICMP_def decodeARP_def Let_def rejected_def flagged_def
      split: if_splits Option.bind_splits)

lemma route_frame:
  assumes "route et data n obs = Some (o', p)"
  shows "no_VLANID o' = no_VLANID obs \<and> (no_PayloadLength o' = no_PayloadLength obs \<or> no_PayloadLength o' = length p)"
proof -
  have ip: "no_VLANID o' = no_VLANID obs \<and> (no_PayloadLength o' = no_PayloadLength obs \<or> no_PayloadLength o' = length p)"
    if "decodeIPv4 data n obs = Some (o', p)"
    using that by (auto simp: decodeIPv4_def Let_def rejected_def flagged_def dest!: decode_frame
        split: if_splits Option.bind_splits)
  from assms ip decode_frame(4) show ?thesis
    by (auto simp: route_def rejected_def flagged_def split: if_splits)
qed

lemma vlan_bound: "(w :: u16) AND 0x0FFF < 4096"
proof -
  have "w AND 0x0FFF = take_bit 12 w" by (simp add: take_bit_eq_mask mask_eq_exp_minus_1)
  then have "uint (w AND 0x0FFF) < 2 ^ 12"
    using take_bit_int_less_exp [of 12 "uint w"] by (simp add: unsigned_take_bit_eq)
  then show ?thesis by (simp add: word_less_def)
qed

lemma Normalize_frame:
  assumes "NormalizeRawObservation raw = Some (obs, p)"
  shows "(\<forall>v. no_VLANID obs = Some v \<longrightarrow> v < 4096) \<and> no_PayloadLength obs \<le> length (raw_Data raw)"
proof -
  have len: "length p \<le> length (raw_Data raw)" using Normalize_returns [of raw] assms by auto
  have n: "no_VLANID (new_observation raw) = None" "no_PayloadLength (new_observation raw) = 0"
    by (simp_all add: new_observation_def)
  show ?thesis
    using assms len n vlan_bound
    by (auto simp: NormalizeRawObservation_def Let_def rejected_def flagged_def dest!: route_frame
        split: if_splits Option.bind_splits)
qed

text \<open>What the Modbus header must look like for a known frame.\<close>

definition mbap_valid :: "bytes \<Rightarrow> bool" where
  "mbap_valid p \<longleftrightarrow> 8 \<le> length p \<and> be16_val (p ! 2) (p ! 3) = 0 \<and> 2 \<le> be16_val (p ! 4) (p ! 5)"

lemma DecodeModbus_known:
  assumes "DecodeModbusTCP obs p = Some (ev, conf, flags)"
  shows "conf = ConfidenceKnown \<longleftrightarrow> mbap_valid p" and "ev \<noteq> None \<longleftrightarrow> mbap_valid p"
    and "conf = ConfidenceKnown \<or> conf = ConfidenceInferred"
proof -
  have "(conf = ConfidenceKnown \<longleftrightarrow> mbap_valid p) \<and> (ev \<noteq> None \<longleftrightarrow> mbap_valid p) \<and>
      (conf = ConfidenceKnown \<or> conf = ConfidenceInferred)"
  proof (cases "length p < 7")
    case False
    then have b: "be16_at p 0 = Some (be16_val (p ! 0) (p ! 1))" "be16_at p 2 = Some (be16_val (p ! 2) (p ! 3))"
      "be16_at p 4 = Some (be16_val (p ! 4) (p ! 5))" "byte_at p 6 = Some (p ! 6)"
      by (simp_all add: be16_at_Some byte_at_Some eval_nat_numeral)
    from assms False b show ?thesis
      by (auto simp: DecodeModbusTCP_def mbap_valid_def Let_def not_less split: if_splits Option.bind_splits)
  qed (use assms in \<open>auto simp: DecodeModbusTCP_def mbap_valid_def\<close>)
  then show "conf = ConfidenceKnown \<longleftrightarrow> mbap_valid p" and "ev \<noteq> None \<longleftrightarrow> mbap_valid p"
    and "conf = ConfidenceKnown \<or> conf = ConfidenceInferred" by blast+
qed

lemma Identify_evidence:
  assumes "Identify obs p = Some (o', hint, conf)"
  shows "(hint = ''modbus'' \<longrightarrow> no_TransportProtocol obs = ''TCP'' \<and> on_port 502 obs \<and>
            (conf = ConfidenceKnown \<longleftrightarrow> mbap_valid p) \<and> (conf = ConfidenceKnown \<or> conf = ConfidenceInferred)) \<and>
    (hint \<noteq> ''modbus'' \<longrightarrow> (conf = ConfidenceInferred \<and> hint \<in> {''dnp3'', ''ethernet_ip'', ''s7''}) \<or>
       (conf = ConfidenceUnknown \<and> hint = ''unknown''))"
proof (cases "no_TransportProtocol obs = ''TCP'' \<and> on_port 502 obs")
  case True
  obtain ev c flags where d: "DecodeModbusTCP obs p = Some (ev, c, flags)" using DecodeModbus_returns by blast
  with True assms have "hint = ''modbus''" "conf = c" by (auto simp: Identify_def Let_def)
  with True DecodeModbus_known [OF d] show ?thesis by simp
next
  case False
  with assms show ?thesis by (auto simp: Identify_def split: if_splits)
qed

lemma Identify_keeps:
  "Identify obs p = Some (o', hint, conf) \<Longrightarrow>
   no_VLANID o' = no_VLANID obs \<and> no_PayloadLength o' = no_PayloadLength obs \<and> no_Confidence o' = no_Confidence obs"
  by (auto simp: Identify_def Let_def split: if_splits Option.bind_splits option.splits)


lemma identified_split:
  assumes "identified Identify raw = Some obs"
  obtains o1 p o2 conf where "NormalizeRawObservation raw = Some (o1, p)" "Identify o1 p = Some (o2, no_ProtocolHint obs, conf)"
    "no_Confidence obs = (if conf \<noteq> ConfidenceUnknown then conf else no_Confidence o1)"
    "no_VLANID obs = no_VLANID o1" "no_PayloadLength obs = no_PayloadLength o1"
proof -
  obtain o1 p where n: "NormalizeRawObservation raw = Some (o1, p)" using Normalize_returns by blast
  obtain o2 hint conf where i: "Identify o1 p = Some (o2, hint, conf)" using Identify_returns by blast
  from assms n i have o: "obs = (if conf \<noteq> ConfidenceUnknown then o2\<lparr>no_ProtocolHint := hint, no_Confidence := conf\<rparr> else o2\<lparr>no_ProtocolHint := hint\<rparr>)"
    by (auto simp: identified_def Let_def split: if_splits)
  with that n i Identify_keeps [OF i] show ?thesis by (cases "conf = ConfidenceUnknown") auto
qed

lemma pn_run_returns: "pn_identifier c = Identify \<Longrightarrow> \<exists>c' evs. pn_run rs c = Some (c', evs) \<and> length evs \<le> length rs"
proof (induction rs arbitrary: c)
  case (Cons r rs)
  obtain d uid now lost raw where r: "r = (d, uid, now, lost, raw)" by (metis prod_cases5)
  obtain obs where "identified Identify raw = Some obs" using identified_returns by blast
  with Cons.prems obtain c1 ev where p: "processRaw uid now lost raw c = Some (c1, ev)" "pn_identifier c1 = Identify"
    by (auto simp: processRaw_def)
  from Cons.IH [OF p(2)] obtain c2 evs where "pn_run rs c1 = Some (c2, evs)" "length evs \<le> length rs" by blast
  with p(1) show ?case by (cases d; cases ev) (simp_all add: r)
qed simp

text \<open>A Modbus read or write request as it is sent: the header, the function code, the address and the quantity.\<close>

definition u16_bytes :: "u16 \<Rightarrow> bytes" where
  "u16_bytes w = [ucast (drop_bit 8 w), ucast w]"

definition modbus_request :: "u16 \<Rightarrow> u8 \<Rightarrow> u8 \<Rightarrow> u16 \<Rightarrow> u16 \<Rightarrow> bytes \<Rightarrow> bytes" where
  "modbus_request tx unit fc addr qty rest =
     u16_bytes tx @ [0, 0] @ u16_bytes 6 @ [unit, fc] @ u16_bytes addr @ u16_bytes qty @ rest"

lemma be16_u16_bytes: "be16_val (ucast (drop_bit 8 w)) (ucast w) = (w :: u16)"
proof -
  have "unat w < 65536" using unsigned_less [of w, where ?'a = nat] by simp
  then have "unat w div 256 < 256" by (simp add: div_less_iff_less_mult)
  then have "unat (ucast (drop_bit 8 w) :: u8) = unat w div 256"
    by (simp only: unsigned_ucast_eq unsigned_take_bit_eq unsigned_drop_bit_eq take_bit_eq_mod drop_bit_eq_div) (simp add: unat_div)
  moreover have "unat (ucast w :: u8) = unat w mod 256"
    by (simp only: unsigned_ucast_eq unsigned_take_bit_eq take_bit_eq_mod) simp
  ultimately have "unat (be16_val (ucast (drop_bit 8 w)) (ucast w)) = unat w"
    by (simp add: unat_be16_val)
  then show ?thesis by (simp add: word_unat_eq_iff)
qed

section \<open>Properties\<close>

text \<open>
  C36. No frame can stop the collector: whatever bytes the adapter delivers, on every link type,
  decoding, protocol identification and the building of the event return without a panic, and
  there is at most one event per frame.
\<close>

theorem passive_never_panics:
  "\<exists>c' evs. pn_run rs (pn_NewCollector cfg adapter []) = Some (c', evs) \<and> length evs \<le> length rs"
  by (rule pn_run_returns) (simp add: pn_NewCollector_def)

text \<open>
  Confidence needs evidence: an observation named modbus is of a TCP frame on port 502 and known
  exactly when the payload has a valid Modbus header with a function code; every other industrial
  protocol is only inferred from the port.
\<close>

theorem modbus_known_needs_evidence:
  assumes "identified Identify raw = Some obs"
  shows "(no_ProtocolHint obs = ''modbus'' \<longrightarrow>
      (\<exists>o1 p. NormalizeRawObservation raw = Some (o1, p) \<and> no_TransportProtocol o1 = ''TCP'' \<and> on_port 502 o1 \<and>
         (no_Confidence obs = ConfidenceKnown \<longleftrightarrow> mbap_valid p))) \<and>
    (no_ProtocolHint obs \<in> {''dnp3'', ''ethernet_ip'', ''s7''} \<longrightarrow> no_Confidence obs = ConfidenceInferred)"
proof -
  from assms obtain o1 p o2 conf where n: "NormalizeRawObservation raw = Some (o1, p)"
    and i: "Identify o1 p = Some (o2, no_ProtocolHint obs, conf)"
    and c: "no_Confidence obs = (if conf \<noteq> ConfidenceUnknown then conf else no_Confidence o1)"
    by (rule identified_split)
  note e = Identify_evidence [OF i]
  show ?thesis
  proof (cases "no_ProtocolHint obs = ''modbus''")
    case True
    with e have "conf = ConfidenceKnown \<or> conf = ConfidenceInferred" by blast
    then have "no_Confidence obs = conf" using c by auto
    with True e have "no_Confidence obs = ConfidenceKnown \<longleftrightarrow> mbap_valid p" by metis
    with True e n show ?thesis by simp
  next
    case False
    with e have "conf = ConfidenceInferred \<or> no_ProtocolHint obs = ''unknown''" by blast
    with False c show ?thesis by auto
  qed
qed

definition demo_frame :: "bytes \<Rightarrow> u8 \<Rightarrow> RawObservation" where
  "demo_frame payload doff =
     \<lparr>raw_Data = [0x45, 0, 0, 0, 0, 0, 0, 0, 64, 6, 0, 0, 10, 0, 0, 1, 10, 0, 0, 2] @
        [0xC0, 0, 1, 0xF6, 0, 0, 0, 0, 0, 0, 0, 0, doff, 0, 0, 0, 0, 0, 0, 0] @ payload,
      raw_Timestamp = 1, raw_Interface = ''eth0'', raw_LinkType = ''raw_ip''\<rparr>"

theorem modbus_known_needs_evidence_witness:
  "\<exists>obs. identified Identify (demo_frame [] 0x50) = Some obs \<and>
    (no_ProtocolHint obs \<in> {''dnp3'', ''ethernet_ip'', ''s7''} \<longrightarrow> no_Confidence obs = ConfidenceInferred)"
  using identified_returns [of "demo_frame [] 0x50"] modbus_known_needs_evidence [of "demo_frame [] 0x50"] by blast

text \<open>
  The decoded values are in range: a VLAN id is a 12 bit number and the reported payload length is at
  most the length of the frame.
\<close>

theorem observation_bounds:
  assumes "identified ident raw = Some obs" "ident = Identify"
  shows "(\<forall>v. no_VLANID obs = Some v \<longrightarrow> v < 4096) \<and> no_PayloadLength obs \<le> length (raw_Data raw)"
proof -
  from assms obtain o1 p where n: "NormalizeRawObservation raw = Some (o1, p)"
    and v: "no_VLANID obs = no_VLANID o1" "no_PayloadLength obs = no_PayloadLength o1"
    using identified_split [of raw obs] by metis
  from Normalize_frame [OF n] show ?thesis by (simp add: v)
qed

theorem observation_bounds_witness:
  "\<exists>obs. identified Identify (demo_frame [] 0x50) = Some obs \<and> no_PayloadLength obs \<le> 40"
proof -
  obtain obs where o: "identified Identify (demo_frame [] 0x50) = Some obs" using identified_returns by blast
  with observation_bounds [OF o refl] show ?thesis by (auto simp: demo_frame_def)
qed



text \<open>
  A frame that the normalizer rejects as malformed is still given an industrial protocol: a TCP frame
  to or from port 502 with an impossible data offset is marked unsupported by the decoder, and the
  collector then reports it as modbus with confidence inferred.
\<close>

theorem malformed_frame_upgraded:
  assumes "NormalizeRawObservation raw = Some (o1, [])" "no_Confidence o1 = ConfidenceUnsupported"
    and "no_TransportProtocol o1 = ''TCP''" "on_port 502 o1"
  shows "\<exists>obs. identified Identify raw = Some obs \<and> no_ProtocolHint obs = ''modbus'' \<and> no_Confidence obs = ConfidenceInferred"
  using assms by (simp add: identified_def Identify_def DecodeModbusTCP_def Let_def)

theorem malformed_frame_upgraded_witness:
  "\<exists>obs. identified Identify (demo_frame [] 0x10) = Some obs \<and> no_ProtocolHint obs = ''modbus'' \<and> no_Confidence obs = ConfidenceInferred"
proof -
  let ?raw = "demo_frame [] 0x10"
  have "NormalizeRawObservation ?raw = Some (rejected QualityMalformedFrame ((new_observation ?raw)\<lparr>
      no_SrcIP := ip_string [10, 0, 0, 1], no_DstIP := ip_string [10, 0, 0, 2], no_TransportProtocol := ''TCP'',
      no_SrcPort := 0xC000, no_DstPort := 502\<rparr>))"
    by (simp add: NormalizeRawObservation_def demo_frame_def route_def decodeIPv4_def byte_at_def slice_def slice_from_def
        decodeTCP_def be16_at_def be16_def Let_def new_observation_def)
  from malformed_frame_upgraded [OF this [unfolded rejected_def]] show ?thesis
    by (simp add: flagged_def on_port_def)
qed

text \<open>
  Fragments are decoded as if they were whole packets: the result does not depend on the flags and
  the fragment offset of the IPv4 header, so the payload of a later fragment is read as ports.
\<close>

theorem ipv4_ignores_fragment_offset:
  "decodeIPv4 (data[offset + 6 := x, offset + 7 := y]) offset obs = decodeIPv4 data offset obs"
proof -
  let ?d = "data[offset + 6 := x, offset + 7 := y]"
  have b: "byte_at ?d offset = byte_at data offset" "byte_at ?d (offset + 9) = byte_at data (offset + 9)"
    by (simp_all add: byte_at_def)
  have s: "slice ?d (offset + 12) n = slice data (offset + 12) n" "slice ?d (offset + 16) n = slice data (offset + 16) n" for n
    by (simp_all add: slice_def)
  have f: "slice_from ?d (offset + n) = slice_from data (offset + n)" if "20 \<le> n" for n
    using that by (simp add: slice_from_def)
  show ?thesis
  proof (cases "byte_at data offset")
    case (Some b0)
    show ?thesis
    proof (cases "unat (b0 AND 0x0F) * 4 < 20")
      case False
      with Some show ?thesis by (simp add: decodeIPv4_def b s f Let_def)
    qed (use Some in \<open>simp add: decodeIPv4_def b Let_def\<close>)
  qed (simp add: decodeIPv4_def b)
qed

end
