(* ===== verification/Host_Collectors.thy ===== *)
theory Host_Collectors
  imports Passive_Network Process
begin

text \<open>
  The collectors of host state: what \<open>src/agent/internal/collectors/network\<close>, \<open>usb\<close> and \<open>inventory\<close>
  have in common (starting once, stopping, the periodic snapshot, and handing an event to the
  channel under back pressure), the inventory collector and the file system collector.

  The operating system's answers are the environment of one snapshot or one event. The
  locale \<open>collector_lifecycle\<close> states what the endpoint relies on when it starts and stops collectors; it
  is interpreted for the host collectors and for the process collector.
\<close>

section \<open>Starting and stopping\<close>

text \<open>\<open>hc_cancel\<close> says that \<open>cancel\<close> is set, so that the goroutine runs until \<open>Stop\<close> or until the context
  of the agent ends. The structs and the methods are the same in the three packages.\<close>

record host_collector =
  hc_cfg :: agent_config
  hc_cancel :: bool
  hc_started :: bool
  hc_stopped :: bool

definition hc_NewCollector :: "agent_config \<Rightarrow> host_collector" where
  "hc_NewCollector cfg = \<lparr>hc_cfg = cfg, hc_cancel = False, hc_started = False, hc_stopped = False\<rparr>"

definition hc_Start :: "host_collector \<Rightarrow> host_collector \<times> go_error option" where
  "hc_Start c =
     (if hc_stopped c then (c, Some (errors_New ''collector cannot be restarted''))
      else if hc_started c then (c, Some (errors_New ''collector already started''))
      else (c\<lparr>hc_started := True, hc_cancel := True\<rparr>, None))"

definition hc_Stop :: "host_collector \<Rightarrow> host_collector" where
  "hc_Stop c = (if \<not> hc_started c \<or> hc_stopped c then c else c\<lparr>hc_stopped := True, hc_cancel := False\<rparr>)"

text \<open>A sequence of calls; the result counts the calls of \<open>Start\<close> that succeeded.\<close>

datatype life_op = LifeStart | LifeStop

fun life_run :: "('c \<Rightarrow> 'c \<times> go_error option) \<Rightarrow> ('c \<Rightarrow> 'c) \<Rightarrow> life_op list \<Rightarrow> 'c \<Rightarrow> nat" where
  "life_run start stop [] c = 0"
| "life_run start stop (LifeStart # ops) c =
     (case start c of
        (c1, None) \<Rightarrow> Suc (life_run start stop ops c1)
      | (c1, Some _) \<Rightarrow> life_run start stop ops c1)"
| "life_run start stop (LifeStop # ops) c = life_run start stop ops (stop c)"

locale collector_lifecycle =
  fixes start :: "'c \<Rightarrow> 'c \<times> go_error option" and stop :: "'c \<Rightarrow> 'c" and startable :: "'c \<Rightarrow> bool"
  assumes start_startable: "start c = (c', None) \<Longrightarrow> startable c \<and> \<not> startable c'"
    and start_failed: "start c = (c', Some e) \<Longrightarrow> c' = c"
    and stop_startable: "startable (stop c) \<Longrightarrow> startable c"
begin

lemma never_restarted: "\<not> startable c \<Longrightarrow> life_run start stop ops c = 0"
proof (induction ops arbitrary: c)
  case (Cons op ops)
  obtain c1 e where s: "start c = (c1, e)" by (metis surj_pair)
  show ?case
  proof (cases op)
    case LifeStart
    with s Cons show ?thesis
      by (cases e) (auto dest: start_startable start_failed)
  next
    case LifeStop
    with Cons stop_startable show ?thesis by auto
  qed
qed simp

lemma at_most_one_start: "life_run start stop ops c \<le> 1"
proof (induction ops arbitrary: c)
  case (Cons op ops)
  obtain c1 e where s: "start c = (c1, e)" by (metis surj_pair)
  show ?case
  proof (cases op)
    case LifeStart
    then show ?thesis
      using s Cons.IH [of c1] never_restarted [of c1 ops] by (cases e) (auto dest: start_startable)
  qed (use Cons in simp)
qed simp

end

interpretation host: collector_lifecycle hc_Start hc_Stop "\<lambda>c. \<not> hc_started c \<and> \<not> hc_stopped c"
  by unfold_locales (auto simp: hc_Start_def hc_Stop_def split: if_splits)

interpretation proc: collector_lifecycle pc_Start pc_Stop "\<lambda>c. \<not> pc_started c \<and> \<not> pc_stopped c"
  by unfold_locales (auto simp: pc_Start_def pc_Stop_def split: if_splits)

section \<open>Handing over an event\<close>

text \<open>The \<open>select\<close> with the timer: the channel takes the event, the context ends, or the timer fires
  and the second \<open>select\<close> decides between the first two.\<close>

datatype send_choice = ChannelTook | ContextEnded | TimerFired bool

definition blocking_send :: "send_choice \<Rightarrow> canonical_event \<Rightarrow> canonical_event option" where
  "blocking_send ch ev =
     (case ch of
        ChannelTook \<Rightarrow> Some ev
      | ContextEnded \<Rightarrow> None
      | TimerFired took \<Rightarrow> if took then Some ev else None)"

text \<open>The interval between snapshots, 0 for none.\<close>

definition snapshot_interval :: "(string \<Rightarrow> go_error + duration) \<Rightarrow> duration \<Rightarrow> string \<Rightarrow> duration" where
  "snapshot_interval ParseDuration dflt s =
     (if s = [] then dflt
      else case ParseDuration s of
        Inr d \<Rightarrow> if d > 0 then d else if s = ''0'' \<or> s = ''disabled'' then 0 else dflt
      | Inl _ \<Rightarrow> if s = ''0'' \<or> s = ''disabled'' then 0 else dflt)"

text \<open>\<open>run\<close>: the snapshot at the start and one for each tick before the context ends.\<close>

definition snapshot_run :: "duration \<Rightarrow> ('e \<Rightarrow> canonical_event option) \<Rightarrow> 'e \<Rightarrow> 'e list \<Rightarrow> canonical_event list" where
  "snapshot_run interval take_snapshot env ticks =
     List.map_filter take_snapshot (env # (if interval > 0 then ticks else []))"

section \<open>Inventory\<close>

record iface =
  if_Name :: string
  if_HardwareAddr :: bytes
  if_Addrs :: "go_error + string list"

record inventory_env =
  ie_Hostname :: "go_error + string"
  ie_Interfaces :: "go_error + iface list"
  ie_GOOS :: string
  ie_GOARCH :: string
  ie_NumCPU :: int
  ie_uuid :: string
  ie_now :: go_time
  ie_send :: send_choice

definition iface_info :: "iface \<Rightarrow> gval" where
  "iface_info i =
     GObj [(''name'', GStr (if_Name i)), (''mac'', GStr (mac_string (if_HardwareAddr i))),
           (''ips'', GList (case if_Addrs i of Inl _ \<Rightarrow> [] | Inr as \<Rightarrow> map GStr as))]"

definition inv_takeSnapshot :: "agent_config \<Rightarrow> inventory_env \<Rightarrow> canonical_event option" where
  "inv_takeSnapshot cfg env =
     (let (hostname, flags) = (case ie_Hostname env of
             Inl _ \<Rightarrow> (''unknown'', [''HOSTNAME_UNAVAILABLE'']) | Inr h \<Rightarrow> (h, []));
          (infos, flags) = (case ie_Interfaces env of
             Inl _ \<Rightarrow> ([], flags @ [''INTERFACES_UNAVAILABLE'']) | Inr ifs \<Rightarrow> (map iface_info ifs, flags));
          m = [''hostname'' \<mapsto> GStr hostname, ''os'' \<mapsto> GStr (ie_GOOS env), ''arch'' \<mapsto> GStr (ie_GOARCH env),
               ''num_cpu'' \<mapsto> GNum (ie_NumCPU env)];
          m = (if infos \<noteq> [] then m(''interfaces'' \<mapsto> GList infos) else m);
          ev = zero_event\<lparr>EventID := ie_uuid env, TenantID := cfg_TenantID cfg, SiteID := cfg_SiteID cfg,
                 OccurredAt := ie_now env, Source := ''agent'', Category := ''inventory'',
                 Action := ''INVENTORY_SNAPSHOT'', Severity := ''INFO'', SchemaVersion := CurrentSchemaVersion,
                 Metadata := Some m, QualityFlags := flags\<rparr>
      in if isl (ie_Interfaces env) \<and> hostname = ''unknown'' then None
         else blocking_send (ie_send env) ev)"

definition inv_run ::
    "(string \<Rightarrow> go_error + duration) \<Rightarrow> agent_config \<Rightarrow> inventory_env \<Rightarrow> inventory_env list \<Rightarrow> canonical_event list" where
  "inv_run ParseDuration cfg env ticks =
     snapshot_run (snapshot_interval ParseDuration (24 * 3600 * second) (cfg_InventoryInterval cfg))
       (inv_takeSnapshot cfg) env ticks"

section \<open>File system\<close>

text \<open>An event of \<open>fsnotify\<close> carries a set of operations.\<close>

datatype fs_op = FsCreate | FsWrite | FsRemove | FsRename | FsChmod

record fs_event =
  fs_Name :: string
  fs_Has :: "fs_op \<Rightarrow> bool"

record handle_env =
  he_Stat :: "go_error + int \<times> bool"
  he_Abs :: "go_error + string"
  he_uuid :: string
  he_now :: go_time
  he_send :: send_choice

definition fs_action :: "fs_event \<Rightarrow> string" where
  "fs_action e =
     (if fs_Has e FsCreate then ''FILE_CREATE''
      else if fs_Has e FsWrite then ''FILE_MODIFY''
      else if fs_Has e FsRemove then ''FILE_DELETE''
      else if fs_Has e FsRename then ''FILE_RENAME''
      else [])"

definition handleEvent :: "agent_config \<Rightarrow> handle_env \<Rightarrow> fs_event \<Rightarrow> canonical_event option" where
  "handleEvent cfg env e =
     (let action = fs_action e in
      if action = [] then None
      else
        let info = (if action \<noteq> ''FILE_DELETE'' \<and> action \<noteq> ''FILE_RENAME'' then he_Stat env else Inl (errors_New []));
            path = (case he_Abs env of Inl _ \<Rightarrow> fs_Name e | Inr p \<Rightarrow> p);
            m = [''file_path'' \<mapsto> GStr path];
            m = (case info of Inl _ \<Rightarrow> m | Inr (sz, isDir) \<Rightarrow>
                   let m1 = m(''size'' \<mapsto> GNum sz) in if isDir then m1(''is_dir'' \<mapsto> GBool True) else m1)
        in blocking_send (he_send env)
             (zero_event\<lparr>EventID := he_uuid env, TenantID := cfg_TenantID cfg, SiteID := cfg_SiteID cfg,
                OccurredAt := he_now env, Source := ''agent'', Category := ''filesystem'', Action := action,
                Severity := ''INFO'', SchemaVersion := CurrentSchemaVersion, Metadata := Some m\<rparr>))"

text \<open>The watcher is the list of the paths it watches; \<open>fs_running\<close> counts the goroutines of the wait
  group.\<close>

record fs_collector =
  fs_cfg :: agent_config
  fs_watcher :: "string list option"
  fs_cancel :: bool
  fs_running :: nat

definition fs_NewCollector :: "agent_config \<Rightarrow> fs_collector" where
  "fs_NewCollector cfg = \<lparr>fs_cfg = cfg, fs_watcher = None, fs_cancel = False, fs_running = 0\<rparr>"

record fs_start_env =
  fe_NewWatcher :: "go_error option"
  fe_Abs :: "string \<Rightarrow> go_error + string"
  fe_Add :: "string \<Rightarrow> go_error option"

fun watch_paths :: "fs_start_env \<Rightarrow> string list \<Rightarrow> string list" where
  "watch_paths env [] = []"
| "watch_paths env (p # ps) =
     (case fe_Abs env p of
        Inl _ \<Rightarrow> watch_paths env ps
      | Inr a \<Rightarrow> if fe_Add env a = None then a # watch_paths env ps else watch_paths env ps)"

definition fs_Start :: "fs_start_env \<Rightarrow> fs_collector \<Rightarrow> fs_collector \<times> go_error option" where
  "fs_Start env c =
     (if cfg_MonitorPaths (fs_cfg c) = [] then (c, None)
      else case fe_NewWatcher env of
        Some e \<Rightarrow> (c, Some (wrap_err ''failed to create fsnotify watcher: '' e))
      | None \<Rightarrow>
        (c\<lparr>fs_watcher := Some (watch_paths env (cfg_MonitorPaths (fs_cfg c))), fs_cancel := True,
           fs_running := Suc (fs_running c)\<rparr>, None))"

text \<open>\<open>Stop\<close>; without an error it waits until no goroutine runs.\<close>

definition fs_Stop :: "go_error option \<Rightarrow> fs_collector \<Rightarrow> fs_collector \<times> go_error option" where
  "fs_Stop closeErr c =
     (let c1 = c\<lparr>fs_cancel := False\<rparr> in
      if fs_watcher c1 \<noteq> None \<and> closeErr \<noteq> None then (c1, closeErr)
      else (c1\<lparr>fs_running := 0\<rparr>, None))"

text \<open>What the loop of \<open>run\<close> receives next.\<close>

datatype fs_input = FsEvent handle_env fs_event | FsEventsClosed | FsError go_error | FsErrorsClosed | FsDone

fun fs_run :: "agent_config \<Rightarrow> fs_input list \<Rightarrow> canonical_event list" where
  "fs_run cfg [] = []"
| "fs_run cfg (FsEvent env e # ins) = (case handleEvent cfg env e of None \<Rightarrow> [] | Some ev \<Rightarrow> [ev]) @ fs_run cfg ins"
| "fs_run cfg (FsError e # ins) = fs_run cfg ins"
| "fs_run cfg (FsEventsClosed # ins) = []"
| "fs_run cfg (FsErrorsClosed # ins) = []"
| "fs_run cfg (FsDone # ins) = []"

section \<open>Properties\<close>

lemma blocking_send_Some: "blocking_send ch ev = Some ev' \<Longrightarrow> ev' = ev"
  by (auto simp: blocking_send_def split: send_choice.splits if_splits)

text \<open>
  Collectors start at most once: in every sequence of \<open>Start\<close> and \<open>Stop\<close> calls at most one
  \<open>Start\<close> succeeds, for the network, USB and inventory collectors and for the process collector.
\<close>

theorem collectors_start_once:
  "life_run hc_Start hc_Stop ops c \<le> 1 \<and> life_run pc_Start pc_Stop ops p \<le> 1"
  by (simp only: host.at_most_one_start proc.at_most_one_start simp_thms)

text \<open>
  A failed inventory is never reported as an empty one: an inventory snapshot names the
  host or lists the interfaces from the operating system, its quality flags say exactly which of the
  two is missing, and nothing is sent when both are.
\<close>

theorem inventory_failure_flagged:
  assumes "inv_takeSnapshot cfg env = Some ev"
  shows "\<not> (isl (ie_Hostname env) \<and> isl (ie_Interfaces env)) \<and>
    QualityFlags ev = (if isl (ie_Hostname env) then [''HOSTNAME_UNAVAILABLE''] else []) @
      (if isl (ie_Interfaces env) then [''INTERFACES_UNAVAILABLE''] else [])"
  using assms
  by (auto simp: inv_takeSnapshot_def Let_def split: sum.splits if_splits dest!: blocking_send_Some)

definition demo_cfg_agent :: agent_config where
  "demo_cfg_agent = \<lparr>cfg_APIAddr = ''http://host'', cfg_TenantID = ''tenant-alpha'', cfg_SiteID = ''site-primary'',
     cfg_ProcessInterval = [], cfg_InventoryInterval = [], cfg_NetworkInterval = [], cfg_MonitorPaths = []\<rparr>"

definition demo_inventory :: inventory_env where
  "demo_inventory = \<lparr>ie_Hostname = Inl (errors_New ''no name''), ie_Interfaces = Inr [], ie_GOOS = ''linux'',
     ie_GOARCH = ''amd64'', ie_NumCPU = 4, ie_uuid = ''id'', ie_now = 5, ie_send = TimerFired True\<rparr>"

theorem inventory_failure_flagged_witness:
  "\<exists>ev. inv_takeSnapshot demo_cfg_agent demo_inventory = Some ev \<and> QualityFlags ev = [''HOSTNAME_UNAVAILABLE'']"
proof -
  obtain ev where ev: "inv_takeSnapshot demo_cfg_agent demo_inventory = Some ev"
    by (simp add: inv_takeSnapshot_def demo_inventory_def blocking_send_def)
  from inventory_failure_flagged [OF ev] have "QualityFlags ev = [''HOSTNAME_UNAVAILABLE'']"
    by (simp add: demo_inventory_def)
  with ev show ?thesis by blast
qed

end
