(* ===== verification/Go_Text.thy ===== *)
theory Go_Text
  imports Go_Strings
begin

text \<open>
  Further text handling of the host collectors: fixed width hexadecimal numbers, the lines of a
  \<open>bufio.Scanner\<close>, \<open>strings.ToLower\<close>, \<open>strings.SplitN\<close>, and the text of an IPv6 address as
  \<open>net/netip\<close> prints it. The lemmas show that hexadecimal numbers are read back, that trimming does
  not change the fields of ASCII text, and that the fields of padded columns are the columns.
\<close>

section \<open>Hexadecimal numbers\<close>

text \<open>The verbs \<open>%08X\<close>, \<open>%04X\<close>, \<open>%02X\<close> (\<open>k\<close> digits).\<close>

definition hex_fixed :: "bool \<Rightarrow> nat \<Rightarrow> nat \<Rightarrow> string" where
  "hex_fixed upper k n = map (\<lambda>i. hex_digit upper (n div 16 ^ i mod 16)) (rev [0..<k])"

text \<open>Hexadecimal without leading zeros, for a 16 bit number.\<close>

definition hex_min :: "nat \<Rightarrow> string" where
  "hex_min n =
     hex_fixed False (if n \<ge> 0x1000 then 4 else if n \<ge> 0x100 then 3 else if n \<ge> 0x10 then 2 else 1) n"

section \<open>Lines\<close>

text \<open>A \<open>bufio.Scanner\<close> with \<open>ScanLines\<close>: the data read, followed by the error the reader ends with if
  it is not the end of the file. A line that does not fit the buffer of 64 KiB ends the scan.\<close>

definition MaxScanTokenSize :: nat where
  "MaxScanTokenSize = 64 * 1024"

definition dropCR :: "string \<Rightarrow> string" where
  "dropCR l = (if l \<noteq> [] \<and> last l = CHR 0x0D then butlast l else l)"

definition ErrTooLong :: go_error where
  "ErrTooLong = errors_New ''bufio.Scanner: token too long''"

fun scan_tokens :: "string list \<Rightarrow> string list \<times> go_error option" where
  "scan_tokens [] = ([], None)"
| "scan_tokens (l # ls) =
     (if l = [] \<and> ls = [] then ([], None)
      else if length l \<ge> MaxScanTokenSize then ([], Some ErrTooLong)
      else case scan_tokens ls of (ts, e) \<Rightarrow> (dropCR l # ts, e))"

definition scan_lines :: "string \<Rightarrow> go_error option \<Rightarrow> string list \<times> go_error option" where
  "scan_lines data readErr =
     (case scan_tokens (split_byte (CHR 0x0A) data) of
        (ts, Some e) \<Rightarrow> (ts, Some e)
      | (ts, None) \<Rightarrow> (ts, readErr))"

section \<open>Case and split\<close>

text \<open>\<open>strings.ToLower\<close>; for text that is not ASCII the Unicode tables are an argument.\<close>

definition lower_char :: "char \<Rightarrow> char" where
  "lower_char c = (if 65 \<le> code c \<and> code c \<le> 90 then char_of (code c + 32) else c)"

definition ToLower :: "(string \<Rightarrow> string) \<Rightarrow> string \<Rightarrow> string" where
  "ToLower unicode s = (if list_all (\<lambda>c. code c < 0x80) s then map lower_char s else unicode s)"

text \<open>\<open>strings.SplitN\<close> with a one byte separator and a positive limit.\<close>

fun SplitN :: "'a list \<Rightarrow> 'a \<Rightarrow> nat \<Rightarrow> 'a list list" where
  "SplitN s c 0 = []"
| "SplitN s c (Suc 0) = [s]"
| "SplitN s c (Suc (Suc n)) =
     (case IndexByte s c of None \<Rightarrow> [s] | Some i \<Rightarrow> take i s # SplitN (drop (Suc i) s) c (Suc n))"

section \<open>IP addresses\<close>

definition ip4_text :: "bytes \<Rightarrow> string" where
  "ip4_text b = join ''.'' (map (\<lambda>x. dec_nat (unat x)) b)"

fun groups16 :: "bytes \<Rightarrow> nat list" where
  "groups16 (x # y # r) = (256 * unat x + unat y) # groups16 r"
| "groups16 _ = []"

text \<open>The first longest run of at least two zero groups, as start and end; equal when there is none.\<close>

fun zero_run :: "nat list \<Rightarrow> nat \<Rightarrow> nat \<times> nat \<Rightarrow> nat \<times> nat" where
  "zero_run [] i best = best"
| "zero_run (g # gs) i (zs, ze) =
     (let l = length (takeWhile (\<lambda>x. x = 0) (g # gs)) in
      zero_run gs (Suc i) (if l \<ge> 2 \<and> l > ze - zs then (i, i + l) else (zs, ze)))"

definition netip_text :: "bytes \<Rightarrow> string" where
  "netip_text b =
     (if take 12 b = replicate 10 0 @ [0xFF, 0xFF] then ''::ffff:'' @ ip4_text (drop 12 b)
      else
        let gs = groups16 b; (zs, ze) = zero_run gs 0 (255, 255) in
        if zs = ze then join '':'' (map hex_min gs)
        else join '':'' (map hex_min (take zs gs)) @ ''::'' @ join '':'' (map hex_min (drop ze gs)))"

section \<open>Lemmas\<close>

lemma code_hex_digit: "n < 16 \<Longrightarrow> code (hex_digit up n) = (if n < 10 then 48 + n else (if up then 55 else 87) + n)"
  by (simp add: hex_digit_def digit_def code_def)

lemma digit_of_hex: "n < 16 \<Longrightarrow> digit_of 16 (hex_digit up n) = Some n"
  by (simp add: digit_of_def code_hex_digit Let_def)

lemma length_hex_fixed [simp]: "length (hex_fixed up k n) = k"
  by (simp add: hex_fixed_def)

lemma hex_fixed_Suc: "hex_fixed up (Suc k) n = hex_digit up (n div 16 ^ k mod 16) # hex_fixed up k n"
  by (simp add: hex_fixed_def)

lemma parse_loop_hex:
  "a * 16 ^ k + n mod 16 ^ k \<le> m \<Longrightarrow> parse_loop s0 16 m (hex_fixed up k n) a = (a * 16 ^ k + n mod 16 ^ k, None)"
proof (induction k arbitrary: a)
  case 0
  then show ?case by (simp add: hex_fixed_def)
next
  case (Suc k)
  let ?d = "n div 16 ^ k mod 16"
  have "n mod (16 ^ k * 16) = 16 ^ k * ?d + n mod 16 ^ k" by (rule mod_mult2_eq)
  then have eq: "(a * 16 + ?d) * 16 ^ k + n mod 16 ^ k = a * 16 ^ Suc k + n mod 16 ^ Suc k"
    by (simp add: algebra_simps)
  moreover have "a * 16 + ?d \<le> (a * 16 + ?d) * 16 ^ k" by simp
  ultimately have "a * 16 + ?d \<le> m" using Suc.prems by linarith
  with Suc eq show ?case by (simp add: hex_fixed_Suc digit_of_hex del: power_Suc)
qed

lemma ParseUint_hex:
  assumes "0 < k" "n < 16 ^ k" "n < 2 ^ bits"
  shows "ParseUint (hex_fixed up k n) 16 bits = (n, None)"
proof -
  have "hex_fixed up k n \<noteq> []" using assms(1) by (simp flip: length_greater_0_conv)
  with parse_loop_hex [of 0 k n "2 ^ bits - 1"] assms show ?thesis by (simp add: ParseUint_def)
qed

lemma code_hex_range: "n < 16 \<Longrightarrow> code (hex_digit up n) \<in> {48..57} \<union> {65..70} \<union> {97..102}"
  by (auto simp: code_hex_digit)

lemma hex_fixed_codes: "c \<in> set (hex_fixed up k n) \<Longrightarrow> code c \<in> {48..57} \<union> {65..70} \<union> {97..102}"
proof -
  assume "c \<in> set (hex_fixed up k n)"
  then obtain i where "c = hex_digit up (n div 16 ^ i mod 16)" by (auto simp: hex_fixed_def)
  then show ?thesis using code_hex_range [of "n div 16 ^ i mod 16" up] by simp
qed

lemma token_hex: "0 < k \<Longrightarrow> token (hex_fixed up k n)"
  using hex_fixed_codes [of _ up k n] by (fastforce simp: token_def simp flip: length_greater_0_conv)

text \<open>Trimming ASCII text does not change its fields.\<close>

definition blank :: "char \<Rightarrow> bool" where
  "blank c \<longleftrightarrow> code c \<in> {9, 10, 11, 12, 13, 32}"

lemma chunks_ascii: "list_all (\<lambda>c. code c < 128) s \<Longrightarrow> chunks s = map (\<lambda>c. (blank c, [c])) s"
proof (induction s)
  case (Cons c s)
  show ?case
  proof (cases "blank c")
    case True
    with Cons chunks_blank [of c s] show ?thesis by (simp add: blank_def del: chunks.simps)
  next
    case False
    with Cons chunks_token [of "[c]" s] show ?thesis by (simp add: blank_def del: chunks.simps)
  qed
qed simp

lemma fields_of_trim_left: "fields_of (dropWhile fst cs) [] = fields_of cs []"
  by (induction cs) auto

lemma fields_of_blanks: "\<forall>c \<in> set bs. fst c \<Longrightarrow> fields_of bs acc = (if acc = [] then [] else [acc])"
  by (induction bs arbitrary: acc) auto

lemma fields_of_append_blanks: "\<forall>c \<in> set bs. fst c \<Longrightarrow> fields_of (cs @ bs) acc = fields_of cs acc"
  by (induction cs acc rule: fields_of.induct) (auto simp: fields_of_blanks)

lemma trim_right_split: "\<exists>bs. cs = rev (dropWhile P (rev cs)) @ bs \<and> (\<forall>c \<in> set bs. P c)"
proof -
  have "cs = rev (dropWhile P (rev cs)) @ rev (takeWhile P (rev cs))"
    by (metis rev_append rev_rev_ident takeWhile_dropWhile_id)
  moreover have "\<forall>c \<in> set (rev (takeWhile P (rev cs))). P c" by (auto dest: set_takeWhileD)
  ultimately show ?thesis by blast
qed

lemma dropWhile_map': "dropWhile P (map f xs) = map f (dropWhile (P \<circ> f) xs)"
  by (induction xs) auto

lemma Fields_TrimSpace:
  assumes "list_all (\<lambda>c. code c < 128) s"
  shows "Fields (TrimSpace s) = Fields s"
proof -
  let ?f = "\<lambda>c. (blank c, [c])"
  define t where "t = rev (dropWhile blank (rev (dropWhile blank s)))"
  have tr: "rev (dropWhile fst (rev (dropWhile fst (map ?f s)))) = map ?f t"
    by (simp add: t_def dropWhile_map' comp_def rev_map)
  have "concat (map snd (map ?f t)) = t" by (induction t) auto
  then have trim: "TrimSpace s = t" by (simp only: TrimSpace_def chunks_ascii [OF assms] tr)
  have "set t \<subseteq> set s" by (auto simp: t_def dest!: set_dropWhileD)
  with assms have "list_all (\<lambda>c. code c < 128) t" by (auto simp: list_all_iff)
  then have "chunks t = map ?f t" by (rule chunks_ascii)
  moreover obtain bs where "dropWhile fst (map ?f s) = map ?f t @ bs" "\<forall>c \<in> set bs. fst c"
    using trim_right_split [of "dropWhile fst (map ?f s)" fst] tr by metis
  ultimately have "fields_of (chunks t) [] = fields_of (map ?f s) []"
    using fields_of_trim_left [of "map ?f s"] fields_of_append_blanks [of bs "map ?f t" "[]"] by simp
  then show ?thesis by (simp add: trim Fields_def chunks_ascii [OF assms])
qed

lemma Fields_blank: "blank c \<Longrightarrow> Fields (c # s) = Fields s"
  using chunks_blank [of c s] by (simp add: Fields_def blank_def del: chunks.simps)

lemma Fields_pad: "Fields (replicate k (CHR '' '') @ s) = Fields s"
proof (induction k)
  case (Suc k)
  have "blank (CHR '' '')" by (simp add: blank_def code_def)
  with Suc show ?case by (simp add: Fields_blank)
qed simp

text \<open>Columns separated and followed by blanks.\<close>

fun columns :: "(string \<times> nat) list \<Rightarrow> string" where
  "columns [] = []"
| "columns ((t, n) # cs) = t @ replicate (Suc n) (CHR '' '') @ columns cs"

lemma Fields_columns: "\<forall>(t, n) \<in> set cs. token t \<Longrightarrow> Fields (columns cs) = map fst cs"
proof (induction cs rule: columns.induct)
  case (2 t n cs)
  have "code (CHR '' '') = 32" by (simp add: code_def)
  with 2 Fields_cons [of t "CHR '' ''" "replicate n (CHR '' '') @ columns cs"] Fields_pad [of n "columns cs"]
  show ?case by simp
qed simp

lemma columns_ascii: "\<forall>(t, n) \<in> set cs. token t \<Longrightarrow> list_all (\<lambda>c. code c < 128) (columns cs)"
  by (induction cs rule: columns.induct) (auto simp: list_all_iff token_def code_def)

lemma columns_no_newline: "\<forall>(t, n) \<in> set cs. token t \<Longrightarrow> CHR 0x0A \<notin> set (columns cs) \<and> CHR 0x0D \<notin> set (columns cs)"
  by (induction cs rule: columns.induct) (auto simp: token_def code_def)

lemma split_byte_append: "c \<notin> set a \<Longrightarrow> split_byte c (a @ c # b) = a # split_byte c b"
  by (induction a) auto

lemma split_byte_none: "c \<notin> set a \<Longrightarrow> split_byte c a = [a]"
  by (induction a) auto

lemma split_byte_lines: "\<forall>l \<in> set ls. c \<notin> set l \<Longrightarrow> split_byte c (concat (map (\<lambda>l. l @ [c]) ls)) = ls @ [[]]"
proof (induction ls)
  case (Cons l ls)
  then show ?case using split_byte_append [of c l "concat (map (\<lambda>l. l @ [c]) ls)"] by simp
qed simp

lemma scan_tokens_lines:
  "\<forall>l \<in> set ls. length l < MaxScanTokenSize \<and> CHR 0x0D \<notin> set l \<Longrightarrow> scan_tokens (ls @ [[]]) = (ls, None)"
proof (induction ls)
  case (Cons l ls)
  have "dropCR l = l" using Cons.prems by (metis dropCR_def last_in_set list.set_intros(1))
  with Cons show ?case by simp
qed simp

lemma scan_lines_lines:
  assumes "\<forall>l \<in> set ls. length l < MaxScanTokenSize \<and> CHR 0x0A \<notin> set l \<and> CHR 0x0D \<notin> set l"
  shows "scan_lines (concat (map (\<lambda>l. l @ [CHR 0x0A]) ls)) readErr = (ls, readErr)"
  using assms split_byte_lines [of ls "CHR 0x0A"] scan_tokens_lines [of ls] by (simp add: scan_lines_def)

lemma split_byte_nonempty: "split_byte c s \<noteq> []"
  by (induction s) (auto split: list.splits)

end
