(* ===== verification/Network_Collector.thy ===== *)
theory Network_Collector
  imports Host_Collectors Go_Text
begin

text \<open>
  The network collector, \<open>src/agent/internal/collectors/network\<close>: the connection tables of Linux
  (\<open>network_linux.go\<close>, the text files of \<open>/proc/net\<close>) and of Windows (\<open>network_windows.go\<close>, binary
  tables read with unsafe loads at 32 bit offsets), and the snapshot event (\<open>collector.go\<close>).

  A file is its content with the error reading it ends with; a load outside the buffer is \<^term>\<open>None\<close>.
  The lemmas show that the Linux parser reads back every table the kernel prints, and that the Windows
  parser stays inside the buffer whatever the table claims about its length.
\<close>

section \<open>Connections\<close>

record Connection =
  conn_Protocol :: string
  SrcIP :: string
  SrcPort :: u16
  DstIP :: string
  DstPort :: u16
  conn_State :: string
  conn_PID :: u32

text \<open>The tables in the order both systems query them, with the flag of a failed one.\<close>

definition table_flags :: "string list" where
  "table_flags = [''NETWORK_TCP4_FAILED'', ''NETWORK_TCP6_FAILED'', ''NETWORK_UDP4_FAILED'', ''NETWORK_UDP6_FAILED'']"

definition merge_tables ::
    "(go_error + Connection list) list \<Rightarrow> go_error + Connection list \<times> string list" where
  "merge_tables ts =
     (let conns = concat (map (\<lambda>t. case t of Inl _ \<Rightarrow> [] | Inr cs \<Rightarrow> cs) ts);
          flags = concat (map (\<lambda>(t, f). case t of Inl _ \<Rightarrow> [f] | Inr _ \<Rightarrow> []) (zip ts table_flags))
      in if length flags = 4 then Inl (errors_New ''complete failure retrieving network tables'')
         else Inr (conns, flags))"

section \<open>Linux\<close>

definition linux_tcpStates :: "(string \<times> string) list" where
  "linux_tcpStates =
     [(''01'', ''ESTABLISHED''), (''02'', ''SYN_SENT''), (''03'', ''SYN_RECV''), (''04'', ''FIN_WAIT1''),
      (''05'', ''FIN_WAIT2''), (''06'', ''TIME_WAIT''), (''07'', ''CLOSE''), (''08'', ''CLOSE_WAIT''),
      (''09'', ''LAST_ACK''), (''0A'', ''LISTEN''), (''0B'', ''CLOSING'')]"

definition linux_state :: "string \<Rightarrow> string" where
  "linux_state h = (case map_of linux_tcpStates h of None \<Rightarrow> [] | Some s \<Rightarrow> s)"

text \<open>\<open>byte(n)\<close>, \<open>byte(n >> 8)\<close>, \<open>byte(n >> 16)\<close>, \<open>byte(n >> 24)\<close>.\<close>

definition le_bytes32 :: "nat \<Rightarrow> bytes" where
  "le_bytes32 n = map (\<lambda>k. of_nat (n div 256 ^ k)) [0, 1, 2, 3]"

definition parseIPPort :: "string \<Rightarrow> bool \<Rightarrow> string \<times> u16" where
  "parseIPPort s isIPv6 =
     (case split_byte (CHR '':'') s of
        [ipHex, portHex] \<Rightarrow>
          let port = of_nat (fst (ParseUint portHex 16 16)) in
          if isIPv6 then
            if length ipHex \<noteq> 32 then ([], port)
            else (netip_text (concat (map (\<lambda>i. le_bytes32 (fst (ParseUint (take 8 (drop (i * 8) ipHex)) 16 32))) [0, 1, 2, 3])), port)
          else if length ipHex \<noteq> 8 then ([], port)
          else (ip4_text (le_bytes32 (fst (ParseUint ipHex 16 32))), port)
      | _ \<Rightarrow> ([], 0))"

text \<open>One line after the header; a line with fewer than ten fields is skipped.\<close>

definition proc_net_line :: "string \<Rightarrow> bool \<Rightarrow> string \<Rightarrow> Connection list" where
  "proc_net_line protocol isIPv6 line =
     (let flds = Fields (TrimSpace line) in
      if length flds < 10 then []
      else
        let (srcIP, srcPort) = parseIPPort (flds ! 1) isIPv6;
            (dstIP, dstPort) = parseIPPort (flds ! 2) isIPv6
        in [\<lparr>conn_Protocol = protocol, SrcIP = srcIP, SrcPort = srcPort, DstIP = dstIP, DstPort = dstPort,
             conn_State = linux_state (flds ! 3), conn_PID = 0\<rparr>])"

definition parseProcNetReader ::
    "string \<Rightarrow> go_error option \<Rightarrow> string \<Rightarrow> bool \<Rightarrow> Connection list \<times> go_error option" where
  "parseProcNetReader data readErr protocol isIPv6 =
     (case scan_lines data readErr of (lines, err) \<Rightarrow>
      (concat (map (proc_net_line protocol isIPv6) (tl lines)), err))"

text \<open>A file: the error of \<open>os.Open\<close>, or the data and how reading ends.\<close>

definition parseProcNetFile ::
    "(string \<Rightarrow> go_error + string \<times> go_error option) \<Rightarrow> string \<Rightarrow> string \<Rightarrow> bool \<Rightarrow> go_error + Connection list" where
  "parseProcNetFile os_Open path protocol isIPv6 =
     (case os_Open path of
        Inl e \<Rightarrow> Inl e
      | Inr (data, readErr) \<Rightarrow>
        (case parseProcNetReader data readErr protocol isIPv6 of
           (_, Some e) \<Rightarrow> Inl e
         | (conns, None) \<Rightarrow> Inr conns))"

definition linux_osSpecificConnections ::
    "(string \<Rightarrow> go_error + string \<times> go_error option) \<Rightarrow> go_error + Connection list \<times> string list" where
  "linux_osSpecificConnections os_Open =
     merge_tables
       [parseProcNetFile os_Open ''/proc/net/tcp'' ''TCP'' False, parseProcNetFile os_Open ''/proc/net/tcp6'' ''TCP'' True,
        parseProcNetFile os_Open ''/proc/net/udp'' ''UDP'' False, parseProcNetFile os_Open ''/proc/net/udp6'' ''UDP'' True]"

section \<open>Windows\<close>

definition win_tcpStates :: "(nat \<times> string) list" where
  "win_tcpStates =
     [(1, ''CLOSED''), (2, ''LISTEN''), (3, ''SYN_SENT''), (4, ''SYN_RCVD''), (5, ''ESTABLISHED''), (6, ''FIN_WAIT1''),
      (7, ''FIN_WAIT2''), (8, ''CLOSE_WAIT''), (9, ''CLOSING''), (10, ''LAST_ACK''), (11, ''TIME_WAIT''), (12, ''DELETE_TCB'')]"

definition win_state :: "u32 \<Rightarrow> string" where
  "win_state w = (case map_of win_tcpStates (unat w) of None \<Rightarrow> [] | Some s \<Rightarrow> s)"

definition AF_INET :: u32 where
  "AF_INET = 2"

definition AF_INET6 :: u32 where
  "AF_INET6 = 23"

definition ERROR_INSUFFICIENT_BUFFER :: u32 where
  "ERROR_INSUFFICIENT_BUFFER = 122"

definition le_word :: "bytes \<Rightarrow> nat" where
  "le_word b = foldr (\<lambda>x acc. unat x + 256 * acc) b 0"

text \<open>\<open>*(*uint32)(unsafe.Pointer(&buf[offset]))\<close>.\<close>

definition load32 :: "bytes \<Rightarrow> u32 \<Rightarrow> u32 option" where
  "load32 buf off =
     (if unat off + 4 \<le> length buf then Some (of_nat (le_word (take 4 (drop (unat off) buf)))) else None)"

definition ntohs :: "u32 \<Rightarrow> u16" where
  "ntohs port = (let w = ucast port :: u16; b = [ucast (drop_bit 8 w), ucast w] :: bytes in of_nat (le_word b))"

definition ip4ToString :: "u32 \<Rightarrow> string" where
  "ip4ToString ip = ip4_text (le_bytes32 (unat ip))"

definition ip6ToString :: "bytes \<Rightarrow> string" where
  "ip6ToString ip = netip_text (take 16 (ip @ replicate 16 0))"

text \<open>The loop over the entries: \<open>offset\<close> is a 32 bit number, and so is the sum it is compared with.\<close>

fun table_rows :: "u32 \<Rightarrow> (bytes \<Rightarrow> u32 \<Rightarrow> Connection option) \<Rightarrow> bytes \<Rightarrow> nat \<Rightarrow> u32 \<Rightarrow> Connection list option" where
  "table_rows rowsize row buf 0 off = Some []"
| "table_rows rowsize row buf (Suc n) off =
     (if off + rowsize > of_nat (length buf) then Some []
      else do { c \<leftarrow> row buf off; cs \<leftarrow> table_rows rowsize row buf n (off + rowsize); Some (c # cs) })"

definition tcp4_row :: "bytes \<Rightarrow> u32 \<Rightarrow> Connection option" where
  "tcp4_row buf off = do {
     state \<leftarrow> load32 buf off;
     localAddr \<leftarrow> load32 buf (off + 4);
     localPort \<leftarrow> load32 buf (off + 8);
     remoteAddr \<leftarrow> load32 buf (off + 12);
     remotePort \<leftarrow> load32 buf (off + 16);
     pid \<leftarrow> load32 buf (off + 20);
     Some \<lparr>conn_Protocol = ''TCP'', SrcIP = ip4ToString localAddr, SrcPort = ntohs localPort,
       DstIP = ip4ToString remoteAddr, DstPort = ntohs remotePort, conn_State = win_state state, conn_PID = pid\<rparr>
   }"

definition tcp6_row :: "bytes \<Rightarrow> u32 \<Rightarrow> Connection option" where
  "tcp6_row buf off = do {
     localAddr \<leftarrow> slice buf (unat off) (unat (off + 16));
     localPort \<leftarrow> load32 buf (off + 20);
     remoteAddr \<leftarrow> slice buf (unat (off + 24)) (unat (off + 40));
     remotePort \<leftarrow> load32 buf (off + 44);
     state \<leftarrow> load32 buf (off + 48);
     pid \<leftarrow> load32 buf (off + 52);
     Some \<lparr>conn_Protocol = ''TCP'', SrcIP = ip6ToString localAddr, SrcPort = ntohs localPort,
       DstIP = ip6ToString remoteAddr, DstPort = ntohs remotePort, conn_State = win_state state, conn_PID = pid\<rparr>
   }"

definition parseTcpTable :: "bytes \<Rightarrow> u32 \<Rightarrow> Connection list option" where
  "parseTcpTable buf family =
     (if length buf < 4 then Some []
      else do {
        numEntries \<leftarrow> load32 buf 0;
        if family = AF_INET then table_rows 24 tcp4_row buf (unat numEntries) 4
        else if family = AF_INET6 then table_rows 56 tcp6_row buf (unat numEntries) 4
        else Some []
      })"

definition udp4_row :: "bytes \<Rightarrow> u32 \<Rightarrow> Connection option" where
  "udp4_row buf off = do {
     localAddr \<leftarrow> load32 buf off;
     localPort \<leftarrow> load32 buf (off + 4);
     pid \<leftarrow> load32 buf (off + 8);
     Some \<lparr>conn_Protocol = ''UDP'', SrcIP = ip4ToString localAddr, SrcPort = ntohs localPort,
       DstIP = ''0.0.0.0'', DstPort = 0, conn_State = [], conn_PID = pid\<rparr>
   }"

definition udp6_row :: "bytes \<Rightarrow> u32 \<Rightarrow> Connection option" where
  "udp6_row buf off = do {
     localAddr \<leftarrow> slice buf (unat off) (unat (off + 16));
     localPort \<leftarrow> load32 buf (off + 20);
     pid \<leftarrow> load32 buf (off + 24);
     Some \<lparr>conn_Protocol = ''UDP'', SrcIP = ip6ToString localAddr, SrcPort = ntohs localPort,
       DstIP = ''::'', DstPort = 0, conn_State = [], conn_PID = pid\<rparr>
   }"

definition parseUdpTable :: "bytes \<Rightarrow> u32 \<Rightarrow> Connection list option" where
  "parseUdpTable buf family =
     (if length buf < 4 then Some []
      else do {
        numEntries \<leftarrow> load32 buf 0;
        if family = AF_INET then table_rows 12 udp4_row buf (unat numEntries) 4
        else if family = AF_INET6 then table_rows 28 udp6_row buf (unat numEntries) 4
        else Some []
      })"

text \<open>The two calls of \<open>GetExtendedTcpTable\<close> or \<open>GetExtendedUdpTable\<close>: the code and the size of the first, and
  the code of the second with the buffer it leaves. \<^term>\<open>None\<close> is the panic of \<open>&buf[0]\<close> on an empty buffer
  (or of the parser).\<close>

record table_calls =
  tc_ret1 :: u32
  tc_size :: u32
  tc_ret2 :: u32
  tc_fill :: "u32 \<Rightarrow> bytes"

definition get_table ::
    "string \<Rightarrow> (bytes \<Rightarrow> u32 \<Rightarrow> Connection list option) \<Rightarrow> table_calls \<Rightarrow> u32 \<Rightarrow> (go_error + Connection list) option" where
  "get_table name parse calls family =
     (if tc_ret1 calls \<noteq> ERROR_INSUFFICIENT_BUFFER
      then Some (Inl (errors_New (name @ '' expected 122, got '' @ dec_nat (unat (tc_ret1 calls)))))
      else if tc_size calls = 0 then None
      else if tc_ret2 calls \<noteq> 0
      then Some (Inl (errors_New (name @ '' failed with code '' @ dec_nat (unat (tc_ret2 calls)))))
      else map_option Inr (parse (tc_fill calls (tc_size calls)) family))"

definition getTcpTable :: "table_calls \<Rightarrow> u32 \<Rightarrow> (go_error + Connection list) option" where
  "getTcpTable = get_table ''GetExtendedTcpTable'' parseTcpTable"

definition getUdpTable :: "table_calls \<Rightarrow> u32 \<Rightarrow> (go_error + Connection list) option" where
  "getUdpTable = get_table ''GetExtendedUdpTable'' parseUdpTable"

definition win_osSpecificConnections ::
    "(u32 \<Rightarrow> table_calls) \<Rightarrow> (u32 \<Rightarrow> table_calls) \<Rightarrow> (go_error + Connection list \<times> string list) option" where
  "win_osSpecificConnections tcp udp = do {
     tcp4 \<leftarrow> getTcpTable (tcp AF_INET) AF_INET;
     tcp6 \<leftarrow> getTcpTable (tcp AF_INET6) AF_INET6;
     udp4 \<leftarrow> getUdpTable (udp AF_INET) AF_INET;
     udp6 \<leftarrow> getUdpTable (udp AF_INET6) AF_INET6;
     Some (merge_tables [tcp4, tcp6, udp4, udp6])
   }"

section \<open>The snapshot\<close>

record network_env =
  ne_connections :: "go_error + Connection list \<times> string list"
  ne_uuid :: string
  ne_now :: go_time
  ne_send :: send_choice

definition conn_info :: "Connection \<Rightarrow> gval" where
  "conn_info c =
     GObj ([(''protocol'', GStr (conn_Protocol c)), (''src_ip'', GStr (SrcIP c)), (''src_port'', GNum (int (unat (SrcPort c)))),
            (''dst_ip'', GStr (DstIP c)), (''dst_port'', GNum (int (unat (DstPort c))))] @
           (if conn_State c \<noteq> [] then [(''state'', GStr (conn_State c))] else []) @
           (if conn_PID c > 0 then [(''pid'', GNum (int (unat (conn_PID c))))] else []))"

definition net_takeSnapshot :: "agent_config \<Rightarrow> network_env \<Rightarrow> canonical_event option" where
  "net_takeSnapshot cfg env =
     (case ne_connections env of
        Inl _ \<Rightarrow> None
      | Inr (conns, qualityFlags) \<Rightarrow>
        blocking_send (ne_send env)
          (zero_event\<lparr>EventID := ne_uuid env, TenantID := cfg_TenantID cfg, SiteID := cfg_SiteID cfg,
             OccurredAt := ne_now env, Source := ''agent'', Category := ''network'',
             Action := ''NETWORK_CONNECTION_SNAPSHOT'', Severity := ''INFO'', SchemaVersion := CurrentSchemaVersion,
             Metadata := Some [''connections'' \<mapsto> GList (map conn_info conns)], QualityFlags := qualityFlags\<rparr>))"

definition net_run ::
    "(string \<Rightarrow> go_error + duration) \<Rightarrow> agent_config \<Rightarrow> network_env \<Rightarrow> network_env list \<Rightarrow> canonical_event list" where
  "net_run ParseDuration cfg env ticks =
     snapshot_run (snapshot_interval ParseDuration (5 * 60 * second) (cfg_NetworkInterval cfg))
       (net_takeSnapshot cfg) env ticks"

section \<open>The text tables of Linux\<close>

lemma le_word_simps [simp]: "le_word [] = 0" "le_word (x # b) = unat x + 256 * le_word b"
  by (simp_all add: le_word_def)

lemma le_word_less: "le_word b < 256 ^ length b"
proof (induction b)
  case (Cons x b)
  have "unat x < 256" using unsigned_less [of x] by simp
  moreover from Cons have "le_word b + 1 \<le> 256 ^ length b" by simp
  then have "256 * (le_word b + 1) \<le> 256 * 256 ^ length b" by (rule mult_le_mono2)
  ultimately show ?case by simp
qed simp

lemma le_byte: "(of_nat (unat (x :: u8) + 256 * m) :: u8) = x"
proof -
  have "(of_nat (256 * m) :: u8) = of_nat 256 * of_nat m" by (rule of_nat_mult)
  also have "(of_nat 256 :: u8) = 0" by simp
  finally show ?thesis by simp
qed

lemma le_div: "(unat (x :: u8) + 256 * m) div 256 = m"
proof -
  have "unat x < 256" using unsigned_less [of x] by simp
  then show ?thesis by simp
qed

lemma le_bytes32_le_word: "le_bytes32 (le_word [a, b, c, d]) = [a, b, c, d]"
proof -
  have p: "n div 256 ^ 2 = n div 256 div 256" "n div 256 ^ 3 = n div 256 div 256 div 256" for n :: nat
    by (simp_all add: div_mult2_eq [symmetric])
  show ?thesis
    unfolding le_bytes32_def list.map p le_word_simps power_0 power_one_right div_by_1 le_div le_byte
    using le_byte [of d 0] by simp
qed

text \<open>What the kernel prints: an address as 32 bit words in the byte order of the host, the port, the state,
  and further columns, padded with blanks.\<close>

fun quads :: "bytes \<Rightarrow> bytes list" where
  "quads (a # b # c # d # r) = [a, b, c, d] # quads r"
| "quads _ = []"

definition proc_addr :: "bytes \<Rightarrow> u16 \<Rightarrow> string" where
  "proc_addr ip port = concat (map (\<lambda>q. hex_fixed True 8 (le_word q)) (quads ip)) @ '':'' @ hex_fixed True 4 (unat port)"

record sock =
  sk_src :: bytes
  sk_sport :: u16
  sk_dst :: bytes
  sk_dport :: u16
  sk_state :: u8
  sk_slot :: string
  sk_pad :: nat
  sk_rest :: "(string \<times> nat) list"

definition sock_columns :: "sock \<Rightarrow> (string \<times> nat) list" where
  "sock_columns s =
     [(sk_slot s, 0), (proc_addr (sk_src s) (sk_sport s), 0), (proc_addr (sk_dst s) (sk_dport s), 0),
      (hex_fixed True 2 (unat (sk_state s)), 0)] @ sk_rest s"

definition proc_line :: "sock \<Rightarrow> string" where
  "proc_line s = replicate (sk_pad s) (CHR '' '') @ columns (sock_columns s)"

definition sock_ok :: "bool \<Rightarrow> sock \<Rightarrow> bool" where
  "sock_ok v6 s \<longleftrightarrow>
     length (sk_src s) = (if v6 then 16 else 4) \<and> length (sk_dst s) = (if v6 then 16 else 4) \<and>
     token (sk_slot s) \<and> (\<forall>(t, n) \<in> set (sk_rest s). token t) \<and> length (sk_rest s) \<ge> 6 \<and>
     length (proc_line s) < MaxScanTokenSize"

definition ip_text :: "bool \<Rightarrow> bytes \<Rightarrow> string" where
  "ip_text v6 b = (if v6 then netip_text b else ip4_text b)"

definition conn_of :: "string \<Rightarrow> bool \<Rightarrow> sock \<Rightarrow> Connection" where
  "conn_of protocol v6 s =
     \<lparr>conn_Protocol = protocol, SrcIP = ip_text v6 (sk_src s), SrcPort = sk_sport s,
      DstIP = ip_text v6 (sk_dst s), DstPort = sk_dport s,
      conn_State = linux_state (hex_fixed True 2 (unat (sk_state s))), conn_PID = 0\<rparr>"

lemma colon_hex: "CHR '':'' \<notin> set (hex_fixed up k n)"
  using hex_fixed_codes [of "CHR '':''" up k n] by (auto simp: code_def)

lemma split_proc_addr:
  "split_byte (CHR '':'') (proc_addr ip port) =
   [concat (map (\<lambda>q. hex_fixed True 8 (le_word q)) (quads ip)), hex_fixed True 4 (unat port)]"
  using split_byte_append [of "CHR '':''" "concat (map (\<lambda>q. hex_fixed True 8 (le_word q)) (quads ip))"]
    colon_hex by (simp add: proc_addr_def split_byte_none)

lemma ParseUint_port: "(of_nat (fst (ParseUint (hex_fixed True 4 (unat (p :: u16))) 16 16)) :: u16) = p"
proof -
  have "unat p < 2 ^ 16" using unsigned_less [of p] by simp
  then show ?thesis using ParseUint_hex [of 4 "unat p" 16 True] by simp
qed

lemma ParseUint_quad: "fst (ParseUint (hex_fixed True 8 (le_word [a, b, c, d])) 16 32) = le_word [a, b, c, d]"
proof -
  have "le_word [a, b, c, d] < 2 ^ 32" using le_word_less [of "[a, b, c, d]"] by simp
  then show ?thesis using ParseUint_hex [of 8 "le_word [a, b, c, d]" 32 True] by simp
qed

lemmas quad_facts = split_proc_addr ParseUint_port ParseUint_quad le_bytes32_le_word

lemma list_4E: "length xs = 4 \<Longrightarrow> \<exists>a b c d. xs = [a, b, c, d]"
  by (auto simp: eval_nat_numeral length_Suc_conv)

lemma parseIPPort4: "length ip = 4 \<Longrightarrow> parseIPPort (proc_addr ip port) False = (ip4_text ip, port)"
  by (drule list_4E) (auto simp: parseIPPort_def quad_facts Let_def simp del: le_word_simps)

lemma split_16:
  assumes "length (ip :: 'a list) = 16"
  shows "\<exists>w x y z. length w = 4 \<and> length x = 4 \<and> length y = 4 \<and> length z = 4 \<and> ip = w @ x @ y @ z"
proof (intro exI conjI)
  have "drop n ip = take 4 (drop n ip) @ drop (4 + n) ip" for n
    by (metis append_take_drop_id drop_drop)
  from this [of 0] this [of 4] this [of 8]
  show "ip = take 4 ip @ take 4 (drop 4 ip) @ take 4 (drop 8 ip) @ drop 12 ip" by simp
qed (use assms in simp_all)

lemma parseIPPort6: "length ip = 16 \<Longrightarrow> parseIPPort (proc_addr ip port) True = (netip_text ip, port)"
proof -
  assume "length ip = 16"
  then obtain a b c d e f g h i j k l m n p q where ip: "ip = [a, b, c, d, e, f, g, h, i, j, k, l, m, n, p, q]"
    using split_16 [of ip] by (auto dest!: list_4E)
  let ?h = "\<lambda>q. hex_fixed True 8 (le_word q)"
  have len: "length (?h q) = 8" for q by simp
  have "take 8 (?h [a, b, c, d] @ s) = ?h [a, b, c, d]" for s by simp
  show ?thesis
    by (simp add: parseIPPort_def quad_facts Let_def ip drop_append take_append del: le_word_simps drop_drop)
qed

lemma token_proc_addr: "token (hex_fixed True 4 (unat p)) \<Longrightarrow> token (proc_addr ip p)"
  using hex_fixed_codes [of _ True 8] by (fastforce simp: proc_addr_def token_def code_def)

lemma sock_columns_token: "sock_ok v6 s \<Longrightarrow> \<forall>(t, n) \<in> set (sock_columns s). token t"
  by (auto simp: sock_ok_def sock_columns_def token_hex intro!: token_proc_addr)

lemma proc_net_line_proc_line:
  assumes "sock_ok v6 s"
  shows "proc_net_line protocol v6 (proc_line s) = [conn_of protocol v6 s]"
proof -
  note t = sock_columns_token [OF assms]
  have "list_all (\<lambda>c. code c < 128) (proc_line s)"
    using columns_ascii [OF t] by (auto simp: proc_line_def list_all_iff code_def)
  then have "Fields (TrimSpace (proc_line s)) = map fst (sock_columns s)"
    using Fields_TrimSpace Fields_columns [OF t] by (simp add: proc_line_def Fields_pad)
  moreover have "parseIPPort (proc_addr (sk_src s) (sk_sport s)) v6 = (ip_text v6 (sk_src s), sk_sport s)"
    "parseIPPort (proc_addr (sk_dst s) (sk_dport s)) v6 = (ip_text v6 (sk_dst s), sk_dport s)"
    using assms by (cases v6; simp add: sock_ok_def parseIPPort4 parseIPPort6 ip_text_def)+
  ultimately show ?thesis
    using assms by (simp add: proc_net_line_def sock_columns_def conn_of_def sock_ok_def Let_def)
qed

lemma proc_line_plain: "sock_ok v6 s \<Longrightarrow> CHR 0x0A \<notin> set (proc_line s) \<and> CHR 0x0D \<notin> set (proc_line s)"
  using columns_no_newline [OF sock_columns_token] by (auto simp: proc_line_def)

text \<open>
  C31. The parser of \<open>/proc/net\<close> reads back what the kernel prints: for every list of sockets, every
  address (IPv4 or IPv6), port and state, and any padding and further columns, the connections
  are exactly the sockets, with the addresses in canonical text, and there is no error.
\<close>

theorem proc_net_roundtrip:
  assumes "\<forall>s \<in> set socks. sock_ok v6 s"
    and "length header < MaxScanTokenSize" "CHR 0x0A \<notin> set header" "CHR 0x0D \<notin> set header"
  shows "parseProcNetReader (concat (map (\<lambda>l. l @ [CHR 0x0A]) (header # map proc_line socks))) None protocol v6 =
    (map (conn_of protocol v6) socks, None)"
proof -
  have "\<forall>l \<in> set (header # map proc_line socks).
      length l < MaxScanTokenSize \<and> CHR 0x0A \<notin> set l \<and> CHR 0x0D \<notin> set l"
    using assms proc_line_plain by (auto simp: sock_ok_def)
  from scan_lines_lines [OF this, of None]
  have "parseProcNetReader (concat (map (\<lambda>l. l @ [CHR 0x0A]) (header # map proc_line socks))) None protocol v6 =
      (concat (map (\<lambda>s. proc_net_line protocol v6 (proc_line s)) socks), None)"
    by (simp only: parseProcNetReader_def prod.case list.sel map_map comp_def)
  moreover have "concat (map (\<lambda>s. proc_net_line protocol v6 (proc_line s)) socks) = map (conn_of protocol v6) socks"
    using assms(1) by (induction socks) (simp_all add: proc_net_line_proc_line)
  ultimately show ?thesis by simp
qed

definition demo_sock :: sock where
  "demo_sock = \<lparr>sk_src = [127, 0, 0, 1], sk_sport = 502, sk_dst = [10, 0, 0, 7], sk_dport = 40000, sk_state = 1,
     sk_slot = ''0:'', sk_pad = 3, sk_rest = [(''0'', 2), (''0'', 2), (''0'', 2), (''0'', 2), (''0'', 2), (''0'', 2)]\<rparr>"

theorem proc_net_roundtrip_witness:
  "fst (parseProcNetReader (concat (map (\<lambda>l. l @ [CHR 0x0A]) [''sl'', proc_line demo_sock])) None ''TCP'' False) =
   [\<lparr>conn_Protocol = ''TCP'', SrcIP = ''127.0.0.1'', SrcPort = 502, DstIP = ''10.0.0.7'', DstPort = 40000,
     conn_State = ''ESTABLISHED'', conn_PID = 0\<rparr>]"
proof -
  have "token ''0:''" "token ''0''" by (simp_all add: token_def code_def)
  moreover have "length (proc_line demo_sock) < MaxScanTokenSize"
    by (simp add: proc_line_def sock_columns_def demo_sock_def proc_addr_def MaxScanTokenSize_def)
  ultimately have ok: "\<forall>s \<in> set [demo_sock]. sock_ok False s"
    by (auto simp: sock_ok_def demo_sock_def)
  have "conn_of ''TCP'' False demo_sock =
      \<lparr>conn_Protocol = ''TCP'', SrcIP = ''127.0.0.1'', SrcPort = 502, DstIP = ''10.0.0.7'', DstPort = 40000,
       conn_State = ''ESTABLISHED'', conn_PID = 0\<rparr>" by code_simp
  with proc_net_roundtrip [OF ok, of "''sl''" "''TCP''"] show ?thesis by (simp add: MaxScanTokenSize_def)
qed

section \<open>The binary tables of Windows\<close>

lemma unat_add_small: "unat (a :: u32) + unat b < 2 ^ 32 \<Longrightarrow> unat (a + b) = unat a + unat b"
  using unat_add_lem [of a b] by simp

lemma load32_in: "unat (off + k) = unat off + unat k \<Longrightarrow> unat off + unat k + 4 \<le> length buf \<Longrightarrow> \<exists>w. load32 buf (off + k) = Some w"
  by (simp add: load32_def)

text \<open>Offsets inside a row: no 32 bit sum wraps around.\<close>

lemma row_offset:
  assumes "unat (off :: u32) + n \<le> length buf" "length buf < 2 ^ 32" "unat k \<le> n"
  shows "unat (off + k) = unat off + unat k"
  using assms by (intro unat_add_small) simp

lemma row_load:
  assumes "unat off + n \<le> length buf" "length buf < 2 ^ 32" "unat k + 4 \<le> n"
  shows "\<exists>w. load32 buf (off + k) = Some w"
  using row_offset [of off n buf k] load32_in [of off k buf] assms by simp

lemma row_slice:
  assumes "unat (off :: u32) + n \<le> length buf" "length buf < 2 ^ 32" "unat j \<le> unat k" "unat k \<le> n"
  shows "\<exists>b. slice buf (unat (off + j)) (unat (off + k)) = Some b"
  using row_offset [of off n buf j] row_offset [of off n buf k] assms by (simp add: slice_def)

lemma rows_total:
  assumes "length buf < 2 ^ 32"
  shows "unat off + 24 \<le> length buf \<Longrightarrow> \<exists>c. tcp4_row buf off = Some c"
    and "unat off + 56 \<le> length buf \<Longrightarrow> \<exists>c. tcp6_row buf off = Some c"
    and "unat off + 12 \<le> length buf \<Longrightarrow> \<exists>c. udp4_row buf off = Some c"
    and "unat off + 28 \<le> length buf \<Longrightarrow> \<exists>c. udp6_row buf off = Some c"
proof -
  note l = row_load [OF _ assms] and s = row_slice [OF _ assms]
  show "\<exists>c. tcp4_row buf off = Some c" if h: "unat off + 24 \<le> length buf"
    using l [OF h, of 0] l [OF h, of 4] l [OF h, of 8] l [OF h, of 12] l [OF h, of 16] l [OF h, of 20]
    by (auto simp: tcp4_row_def)
  show "\<exists>c. tcp6_row buf off = Some c" if h: "unat off + 56 \<le> length buf"
    using s [OF h, of 0 16] l [OF h, of 20] s [OF h, of 24 40] l [OF h, of 44] l [OF h, of 48] l [OF h, of 52]
    by (auto simp: tcp6_row_def)
  show "\<exists>c. udp4_row buf off = Some c" if h: "unat off + 12 \<le> length buf"
    using l [OF h, of 0] l [OF h, of 4] l [OF h, of 8] by (auto simp: udp4_row_def)
  show "\<exists>c. udp6_row buf off = Some c" if h: "unat off + 28 \<le> length buf"
    using s [OF h, of 0 16] l [OF h, of 20] l [OF h, of 24] by (auto simp: udp6_row_def)
qed

text \<open>The loop decodes the rows that fit: at most as many as announced.\<close>

lemma table_rows_in_bounds:
  assumes row: "\<And>off. unat off + unat rowsize \<le> length buf \<Longrightarrow> \<exists>c. row buf off = Some c"
    and len: "length buf + unat rowsize < 2 ^ 32" "0 < unat rowsize"
  shows "unat off \<le> length buf \<Longrightarrow>
    \<exists>cs. table_rows rowsize row buf n off = Some cs \<and> length cs = min n ((length buf - unat off) div unat rowsize)"
proof (induction n arbitrary: off)
  case (Suc n)
  have u: "unat (off + rowsize) = unat off + unat rowsize" using Suc.prems len by (intro unat_add_small) simp
  have lb: "unat (of_nat (length buf) :: u32) = length buf" using len by (simp add: unat_of_nat)
  show ?case
  proof (cases "unat off + unat rowsize \<le> length buf")
    case True
    then have g: "\<not> off + rowsize > of_nat (length buf)" by (simp add: word_less_nat_alt u lb)
    from row [OF True] obtain c where c: "row buf off = Some c" by blast
    from Suc.IH [of "off + rowsize"] True obtain cs where
      cs: "table_rows rowsize row buf n (off + rowsize) = Some cs"
        "length cs = min n ((length buf - (unat off + unat rowsize)) div unat rowsize)" by (auto simp: u)
    have "(length buf - unat off) div unat rowsize = Suc ((length buf - (unat off + unat rowsize)) div unat rowsize)"
      using True len(2) le_div_geq [of "unat rowsize" "length buf - unat off"] by simp
    with g c cs show ?thesis by simp
  next
    case False
    then have "off + rowsize > of_nat (length buf)" by (simp add: word_less_nat_alt u lb)
    moreover have "length buf - unat off < unat rowsize" using False Suc.prems by linarith
    then have "(length buf - unat off) div unat rowsize = 0" by (rule div_less)
    ultimately show ?thesis by simp
  qed
qed simp

definition entries :: "bytes \<Rightarrow> nat" where
  "entries buf = unat (of_nat (le_word (take 4 buf)) :: u32)"

text \<open>
  C32. The Windows tables are read inside the buffer: whatever the buffer holds, and whatever number of
  entries it claims, no load or slice of the four parsers is out of range (no panic and no read of
  foreign memory), and the number of connections is the number of entries that were announced and
  fit. The 32 bit offset does not wrap around for buffers up to 56 bytes below 4 GiB.
\<close>

theorem win_tables_in_bounds:
  assumes "length buf + 56 < 2 ^ 32"
  shows "\<exists>a b c d. parseTcpTable buf AF_INET = Some a \<and> parseTcpTable buf AF_INET6 = Some b \<and>
    parseUdpTable buf AF_INET = Some c \<and> parseUdpTable buf AF_INET6 = Some d \<and>
    length a = min (entries buf) ((length buf - 4) div 24) \<and> length b = min (entries buf) ((length buf - 4) div 56) \<and>
    length c = min (entries buf) ((length buf - 4) div 12) \<and> length d = min (entries buf) ((length buf - 4) div 28)"
proof (cases "length buf < 4")
  case True
  then show ?thesis by (simp add: parseTcpTable_def parseUdpTable_def)
next
  case False
  have l: "length buf < 2 ^ 32" using assms by simp
  have num: "load32 buf 0 = Some (of_nat (le_word (take 4 buf)))" using False by (simp add: load32_def)
  note rows = rows_total [OF l]
  note t = table_rows_in_bounds [where off = 4 and n = "entries buf" and buf = buf]
  have "\<exists>cs. table_rows 24 tcp4_row buf (entries buf) 4 = Some cs \<and> length cs = min (entries buf) ((length buf - 4) div 24)"
    using t [of 24 tcp4_row] rows(1) assms False by simp
  moreover have "\<exists>cs. table_rows 56 tcp6_row buf (entries buf) 4 = Some cs \<and> length cs = min (entries buf) ((length buf - 4) div 56)"
    using t [of 56 tcp6_row] rows(2) assms False by simp
  moreover have "\<exists>cs. table_rows 12 udp4_row buf (entries buf) 4 = Some cs \<and> length cs = min (entries buf) ((length buf - 4) div 12)"
    using t [of 12 udp4_row] rows(3) assms False by simp
  moreover have "\<exists>cs. table_rows 28 udp6_row buf (entries buf) 4 = Some cs \<and> length cs = min (entries buf) ((length buf - 4) div 28)"
    using t [of 28 udp6_row] rows(4) assms False by simp
  ultimately show ?thesis
    using False num by (auto simp: parseTcpTable_def parseUdpTable_def entries_def AF_INET_def AF_INET6_def)
qed

theorem win_tables_in_bounds_witness:
  "\<exists>a. parseTcpTable ([2, 0, 0, 0] @ replicate 30 0) AF_INET = Some a \<and> length a = 1"
proof -
  have "length ([2, 0, 0, 0] @ replicate 30 (0 :: u8)) + 56 < 2 ^ 32" by simp
  moreover have "entries ([2, 0, 0, 0] @ replicate 30 0) = 2" by (simp add: entries_def)
  ultimately show ?thesis using win_tables_in_bounds [of "[2, 0, 0, 0] @ replicate 30 0"] by (auto simp del: replicate.simps)
qed

section \<open>The snapshot event\<close>

text \<open>
  A network snapshot is honest about what is missing: an event is sent only when at least one table
  was read; its quality flags name exactly the tables that could not be read, in the order of the
  queries, and it lists all the connections of the others. When all tables fail nothing is sent, so an
  empty list always means that the system reported no connection.
\<close>

theorem network_snapshot_honest:
  assumes "ne_connections env = merge_tables ts" "length ts = 4" "net_takeSnapshot cfg env = Some ev"
  shows "\<not> list_all isl ts \<and>
    QualityFlags ev = map snd (filter (\<lambda>(t, f). isl t) (zip ts table_flags)) \<and>
    Metadata ev = Some [''connections'' \<mapsto> GList (map conn_info (concat (map projr (filter (\<lambda>t. \<not> isl t) ts))))]"
proof -
  from assms(2) obtain a b c d where ts: "ts = [a, b, c, d]" using list_4E by blast
  from assms(1,3) ts show ?thesis
    by (cases a; cases b; cases c; cases d)
       (auto simp: merge_tables_def net_takeSnapshot_def table_flags_def dest!: blocking_send_Some)
qed

definition demo_network :: network_env where
  "demo_network = \<lparr>ne_connections = merge_tables [Inr [], Inl (errors_New ''x''), Inr [], Inr []], ne_uuid = ''id'', ne_now = 5,
     ne_send = ChannelTook\<rparr>"

theorem network_snapshot_honest_witness:
  "\<exists>ev. net_takeSnapshot demo_cfg_agent demo_network = Some ev \<and> QualityFlags ev = [''NETWORK_TCP6_FAILED'']"
proof -
  obtain ev where ev: "net_takeSnapshot demo_cfg_agent demo_network = Some ev"
    by (simp add: net_takeSnapshot_def demo_network_def merge_tables_def table_flags_def blocking_send_def)
  have "QualityFlags ev = [''NETWORK_TCP6_FAILED'']"
    using network_snapshot_honest [OF _ _ ev, of "[Inr [], Inl (errors_New ''x''), Inr [], Inr []]"]
    by (simp add: demo_network_def table_flags_def)
  with ev show ?thesis by blast
qed

end
