(* ===== verification/Usb_Collector.thy ===== *)
theory Usb_Collector
  imports Host_Collectors Go_Text
begin

text \<open>
  The USB collector, \<open>src/agent/internal/collectors/usb\<close>: the event (\<open>collector.go\<close>), the kernel
  messages of Linux (\<open>usb_linux.go\<close>), and the device notifications of Windows (\<open>usb_windows.go\<close>, with
  the device path in UTF-16 and the window that receives the notifications).

  The collector's goroutine and the watcher of the operating system run concurrently and share a
  channel of 100 events. Their interleavings are the step relation \<open>usb_step\<close>, for the watcher of either
  system. The lemmas show that the kernel messages are read back, that shutdown on Linux always
  completes, and that on Windows it can hang.
\<close>

section \<open>The event\<close>

record USBEvent =
  usb_Action :: string
  VendorID :: string
  ProductID :: string
  SerialNumber :: string
  DevicePath :: string
  usb_OccurredAt :: go_time

definition zero_usb :: USBEvent where
  "zero_usb = \<lparr>usb_Action = [], VendorID = [], ProductID = [], SerialNumber = [], DevicePath = [], usb_OccurredAt = time_zero\<rparr>"

definition put_nonempty :: "string \<Rightarrow> string \<Rightarrow> metadata \<Rightarrow> metadata" where
  "put_nonempty key v m = (if v \<noteq> [] then m(key \<mapsto> GStr v) else m)"

definition emitEvent :: "agent_config \<Rightarrow> string \<Rightarrow> send_choice \<Rightarrow> USBEvent \<Rightarrow> canonical_event option" where
  "emitEvent cfg uuid ch usbEv =
     blocking_send ch
       (zero_event\<lparr>EventID := uuid, TenantID := cfg_TenantID cfg, SiteID := cfg_SiteID cfg,
          OccurredAt := usb_OccurredAt usbEv, Source := ''agent'', Category := ''usb'', Action := usb_Action usbEv,
          Severity := ''INFO'', SchemaVersion := CurrentSchemaVersion,
          Metadata := Some (put_nonempty ''device_path'' (DevicePath usbEv)
            (put_nonempty ''serial_number'' (SerialNumber usbEv)
            (put_nonempty ''product_id'' (ProductID usbEv)
            (put_nonempty ''vendor_id'' (VendorID usbEv) Map.empty))))\<rparr>)"

section \<open>Device paths of Windows\<close>

definition is_hex :: "char \<Rightarrow> bool" where
  "is_hex c \<longleftrightarrow> digit_of 16 c \<noteq> None"

definition ci_prefix :: "string \<Rightarrow> string \<Rightarrow> bool" where
  "ci_prefix p s \<longleftrightarrow> length p \<le> length s \<and> map lower_char (take (length p) s) = map lower_char p"

text \<open>The regular expression \<open>(?i)VID_([0-9A-F]{4})&PID_([0-9A-F]{4})\<close> at the beginning of a string, and
  its leftmost match.\<close>

definition vidpid_here :: "string \<Rightarrow> (string \<times> string) option" where
  "vidpid_here s =
     (let v = take 4 (drop 4 s); p = take 4 (drop 13 s) in
      if ci_prefix ''VID_'' s \<and> length v = 4 \<and> list_all is_hex v \<and> ci_prefix ''&PID_'' (drop 8 s) \<and>
         length p = 4 \<and> list_all is_hex p
      then Some (v, p) else None)"

fun vidPidRegex :: "string \<Rightarrow> (string \<times> string) option" where
  "vidPidRegex [] = None"
| "vidPidRegex (c # s) = (case vidpid_here (c # s) of Some m \<Rightarrow> Some m | None \<Rightarrow> vidPidRegex s)"

definition parseDevicePath :: "(string \<Rightarrow> string) \<Rightarrow> string \<Rightarrow> string \<times> string \<times> string" where
  "parseDevicePath unicode path =
     (let (vid, pid) = (case vidPidRegex path of None \<Rightarrow> ([], []) | Some (v, p) \<Rightarrow> (ToLower unicode v, ToLower unicode p));
          parts = split_byte (CHR ''#'') path;
          serial = (if length parts \<ge> 4 \<and> parts ! 2 \<noteq> [] \<and> CHR ''&'' \<notin> set (parts ! 2) then parts ! 2 else [])
      in (vid, pid, serial))"

section \<open>Kernel messages of Linux\<close>

text \<open>The loops that pad an identifier to four characters.\<close>

function pad4 :: "string \<Rightarrow> string" where
  "pad4 v = (if 0 < length v \<and> length v < 4 then pad4 (''0'' @ v) else v)"
  by pat_completeness auto
termination
  by (relation "measure (\<lambda>v. 4 - length v)") auto

declare pad4.simps [simp del]

record uevent_vars =
  ua_ev :: USBEvent
  ua_subsystem :: string
  ua_devtype :: string
  ua_action :: string

definition uevent_part :: "(string \<Rightarrow> string) \<Rightarrow> string \<Rightarrow> uevent_vars \<Rightarrow> uevent_vars" where
  "uevent_part unicode strPart a =
     (case IndexByte strPart (CHR ''='') of
        None \<Rightarrow> a
      | Some idx \<Rightarrow>
        let key = take idx strPart; val = drop (Suc idx) strPart; ev = ua_ev a in
        if key = ''ACTION'' then a\<lparr>ua_action := val\<rparr>
        else if key = ''SUBSYSTEM'' then a\<lparr>ua_subsystem := val\<rparr>
        else if key = ''DEVTYPE'' then a\<lparr>ua_devtype := val\<rparr>
        else if key = ''DEVPATH'' then a\<lparr>ua_ev := ev\<lparr>DevicePath := val\<rparr>\<rparr>
        else if key = ''PRODUCT'' then
          (let prodParts = SplitN val (CHR ''/'') 3 in
           if length prodParts \<ge> 2
           then a\<lparr>ua_ev := ev\<lparr>VendorID := pad4 (ToLower unicode (prodParts ! 0)),
                               ProductID := pad4 (ToLower unicode (prodParts ! 1))\<rparr>\<rparr>
           else a)
        else if key = ''SERIAL'' then a\<lparr>ua_ev := ev\<lparr>SerialNumber := val\<rparr>\<rparr>
        else a)"

definition parseUevent :: "(string \<Rightarrow> string) \<Rightarrow> go_time \<Rightarrow> string \<Rightarrow> USBEvent \<times> bool" where
  "parseUevent unicode now payload =
     (let a = fold (uevent_part unicode) (split_byte (CHR 0x00) payload)
            \<lparr>ua_ev = zero_usb, ua_subsystem = [], ua_devtype = [], ua_action = []\<rparr>;
          ev = ua_ev a
      in if ua_subsystem a \<noteq> ''usb'' \<or> ua_devtype a \<noteq> ''usb_device'' then (ev, False)
         else if ua_action a = ''add'' then (ev\<lparr>usb_Action := ''USB_INSERT'', usb_OccurredAt := now\<rparr>, True)
         else if ua_action a = ''remove'' then (ev\<lparr>usb_Action := ''USB_REMOVE'', usb_OccurredAt := now\<rparr>, True)
         else (ev, False))"

text \<open>One iteration of the receive loop: whether the context is done, what \<open>Recvfrom\<close> answers, the clock, and
  whether the context ends the attempt to send. The result is the error \<open>defaultStartOSWatcher\<close> returns
  (\<^term>\<open>None\<close> for \<open>nil\<close>), once it returns.\<close>

datatype recv_answer = RecvEINTR | RecvEAGAIN | RecvFailed go_error | Received string

record recv_env =
  re_ctxDone :: bool
  re_recv :: recv_answer
  re_now :: go_time
  re_sendDone :: bool

fun recv_loop :: "(string \<Rightarrow> string) \<Rightarrow> recv_env list \<Rightarrow> USBEvent list \<times> go_error option option" where
  "recv_loop unicode [] = ([], None)"
| "recv_loop unicode (e # es) =
     (if re_ctxDone e then ([], Some None)
      else case re_recv e of
        RecvEINTR \<Rightarrow> recv_loop unicode es
      | RecvEAGAIN \<Rightarrow> recv_loop unicode es
      | RecvFailed err \<Rightarrow> ([], Some (Some (wrap_err ''netlink recvfrom failed: '' err)))
      | Received data \<Rightarrow>
        if data = [] \<or> length data > 8192 then recv_loop unicode es
        else case parseUevent unicode (re_now e) data of
          (_, False) \<Rightarrow> recv_loop unicode es
        | (ev, True) \<Rightarrow>
          if re_sendDone e then ([], Some None)
          else case recv_loop unicode es of (evs, r) \<Rightarrow> (ev # evs, r))"

definition lx_startOSWatcher ::
    "(string \<Rightarrow> string) \<Rightarrow> go_error option \<Rightarrow> go_error option \<Rightarrow> go_error option \<Rightarrow> recv_env list \<Rightarrow>
     USBEvent list \<times> go_error option option" where
  "lx_startOSWatcher unicode socketErr bindErr optErr es =
     (case socketErr of
        Some e \<Rightarrow> ([], Some (Some (wrap_err ''failed to create netlink socket: '' e)))
      | None \<Rightarrow>
        (case bindErr of
           Some e \<Rightarrow> ([], Some (Some (wrap_err ''failed to bind netlink socket: '' e)))
         | None \<Rightarrow>
           (case optErr of
              Some e \<Rightarrow> ([], Some (Some (wrap_err ''failed to set SO_RCVTIMEO: '' e)))
            | None \<Rightarrow> recv_loop unicode es)))"

section \<open>Notifications of Windows\<close>

text \<open>\<open>syscall.UTF16ToString\<close>: surrogate pairs are joined, an unpaired surrogate is encoded as it is.\<close>

definition utf8_encode :: "nat \<Rightarrow> string" where
  "utf8_encode r =
     map char_of
       (if r < 0x80 then [r]
        else if r < 0x800 then [0xC0 + r div 64, 0x80 + r mod 64]
        else if r < 0x10000 then [0xE0 + r div 4096, 0x80 + r div 64 mod 64, 0x80 + r mod 64]
        else [0xF0 + r div 262144, 0x80 + r div 4096 mod 64, 0x80 + r div 64 mod 64, 0x80 + r mod 64])"

fun utf16_text :: "nat list \<Rightarrow> string" where
  "utf16_text [] = []"
| "utf16_text [u] = utf8_encode u"
| "utf16_text (u # v # us) =
     (if 0xD800 \<le> u \<and> u < 0xDC00 \<and> 0xDC00 \<le> v \<and> v < 0xE000
      then utf8_encode (0x10000 + (u - 0xD800) * 0x400 + (v - 0xDC00)) @ utf16_text us
      else utf8_encode u @ utf16_text (v # us))"

definition WM_DESTROY :: nat where "WM_DESTROY = 0x0002"
definition WM_CLOSE :: nat where "WM_CLOSE = 0x0010"
definition WM_DEVICECHANGE :: nat where "WM_DEVICECHANGE = 0x0219"
definition DBT_DEVICEARRIVAL :: nat where "DBT_DEVICEARRIVAL = 0x8000"
definition DBT_DEVICEREMOVECOMPLETE :: nat where "DBT_DEVICEREMOVECOMPLETE = 0x8004"
definition DBT_DEVTYP_DEVICEINTERFACE :: nat where "DBT_DEVTYP_DEVICEINTERFACE = 5"

text \<open>The structure \<open>lParam\<close> points to: the device type and the memory from \<open>dbcc_name\<close> on.\<close>

record dev_broadcast =
  dbch_devicetype :: nat
  dbcc_name :: "nat \<Rightarrow> nat"

text \<open>The characters up to the first zero of 1024; without a zero \<open>length\<close> keeps its initial value 0.\<close>

definition device_name :: "(nat \<Rightarrow> nat) \<Rightarrow> string" where
  "device_name mem =
     (let nameSlice = map mem [0..<1024] in
      utf16_text (take (case IndexByte nameSlice 0 of None \<Rightarrow> 0 | Some i \<Rightarrow> i) nameSlice))"

datatype window_call = CallDefWindowProc | CallDestroyWindow | CallPostQuitMessage

text \<open>\<open>wndProc\<close>: the event to send if the watcher is set, and the call it ends with.\<close>

definition wndProc ::
    "(string \<Rightarrow> string) \<Rightarrow> bool \<Rightarrow> go_time \<Rightarrow> nat \<Rightarrow> nat \<Rightarrow> dev_broadcast option \<Rightarrow> USBEvent option \<times> window_call" where
  "wndProc unicode watching now msg wParam lParam =
     (if msg = WM_DEVICECHANGE then
        (if wParam = DBT_DEVICEARRIVAL \<or> wParam = DBT_DEVICEREMOVECOMPLETE then
           (case lParam of
              None \<Rightarrow> None
            | Some hdr \<Rightarrow>
              if dbch_devicetype hdr = DBT_DEVTYP_DEVICEINTERFACE then
                (let pathStr = device_name (dbcc_name hdr);
                     action = (if wParam = DBT_DEVICEREMOVECOMPLETE then ''USB_REMOVE'' else ''USB_INSERT'');
                     (vid, pid, serial) = parseDevicePath unicode pathStr
                 in if watching
                    then Some \<lparr>usb_Action = action, VendorID = vid, ProductID = pid, SerialNumber = serial,
                           DevicePath = pathStr, usb_OccurredAt = now\<rparr>
                    else None)
              else None)
         else None, CallDefWindowProc)
      else if msg = WM_CLOSE then (None, CallDestroyWindow)
      else if msg = WM_DESTROY then (None, CallPostQuitMessage)
      else (None, CallDefWindowProc))"

text \<open>The goroutine with the window: the calls it makes in their order, deferred ones included, and the error it
  reports.\<close>

datatype win_call = RegisterClassExW | CreateWindowExW | RegisterDeviceNotificationW | MessageLoop
  | UnregisterDeviceNotification | DestroyWindow | UnregisterClassW

record window_env =
  we_nameErr :: "go_error option"
  we_registerErr :: "go_error option"
  we_createErr :: "go_error option"
  we_notifyErr :: "go_error option"

definition window_thread :: "window_env \<Rightarrow> win_call list \<times> go_error option" where
  "window_thread env =
     (case we_nameErr env of
        Some e \<Rightarrow> ([], Some e)
      | None \<Rightarrow>
      case we_registerErr env of
        Some e \<Rightarrow> ([RegisterClassExW], Some (errors_New (''RegisterClassExW failed: '' @ err_text e)))
      | None \<Rightarrow>
      case we_createErr env of
        Some e \<Rightarrow> ([RegisterClassExW, CreateWindowExW, UnregisterClassW], Some (errors_New (''CreateWindowExW failed: '' @ err_text e)))
      | None \<Rightarrow>
      case we_notifyErr env of
        Some e \<Rightarrow> ([RegisterClassExW, CreateWindowExW, RegisterDeviceNotificationW, DestroyWindow, UnregisterClassW],
                   Some (errors_New (''RegisterDeviceNotificationW failed: '' @ err_text e)))
      | None \<Rightarrow> ([RegisterClassExW, CreateWindowExW, RegisterDeviceNotificationW, MessageLoop,
                   UnregisterDeviceNotification, DestroyWindow, UnregisterClassW], None))"

text \<open>\<open>defaultStartOSWatcher\<close> of Windows: what its \<open>select\<close> receives. \<open>busy\<close> says that another watcher has set
  \<open>watcherOut\<close>. The result says whether \<open>watcherOut\<close> is still set after the return, whether \<open>WM_CLOSE\<close> was posted
  to the window (and the end of its thread awaited), and the error.\<close>

datatype win_select = WindowErr go_error | WindowReady | WindowCtxDone

definition win_startOSWatcher :: "bool \<Rightarrow> win_select \<Rightarrow> bool \<times> bool \<times> go_error option" where
  "win_startOSWatcher busy sel =
     (if busy then (True, False, Some (errors_New ''only one usb watcher can run at a time''))
      else case sel of
        WindowErr err \<Rightarrow> (False, False, Some err)
      | WindowReady \<Rightarrow> (False, True, None)
      | WindowCtxDone \<Rightarrow> (False, False, None))"

text \<open>The watcher of the other systems.\<close>

definition other_startOSWatcher :: "go_error option" where
  "other_startOSWatcher = Some (errors_New ''usb telemetry is not implemented on this platform'')"

section \<open>The collector and its watcher\<close>

text \<open>
  Where the goroutine of \<open>run\<close> and the watcher are. \<open>WatchIdle\<close> is the head of the watcher's loop,
  \<open>WatchReceiving\<close> the blocking receive, \<open>WatchSending\<close> the attempt to put an event into the channel
  \<open>internalOut\<close>; \<open>RunSending\<close> is \<open>emitEvent\<close>, \<open>RunWaiting\<close> the call \<open>watcherWg.Wait()\<close>.
\<close>

datatype watch_pc = WatchIdle | WatchReceiving | WatchSending | WatchReturned
datatype run_pc = RunLoop | RunSending | RunWaiting | RunReturned

record usb_sys =
  us_done :: bool
  us_queued :: nat
  us_watch :: watch_pc
  us_run :: run_pc

definition internal_capacity :: nat where
  "internal_capacity = 100"

definition usb_start :: usb_sys where
  "usb_start = \<lparr>us_done = False, us_queued = 0, us_watch = WatchIdle, us_run = RunLoop\<rparr>"

text \<open>The watcher of Linux: it looks at the context before it receives, the receive returns at least once a
  second (also without a message), and the send gives up when the context ends.\<close>

inductive lx_watch :: "usb_sys \<Rightarrow> usb_sys \<Rightarrow> bool" where
  lx_stop: "us_watch s = WatchIdle \<Longrightarrow> us_done s \<Longrightarrow> lx_watch s (s\<lparr>us_watch := WatchReturned\<rparr>)"
| lx_recv: "us_watch s = WatchIdle \<Longrightarrow> \<not> us_done s \<Longrightarrow> lx_watch s (s\<lparr>us_watch := WatchReceiving\<rparr>)"
| lx_nothing: "us_watch s = WatchReceiving \<Longrightarrow> lx_watch s (s\<lparr>us_watch := WatchIdle\<rparr>)"
| lx_fatal: "us_watch s = WatchReceiving \<Longrightarrow> lx_watch s (s\<lparr>us_watch := WatchReturned\<rparr>)"
| lx_event: "us_watch s = WatchReceiving \<Longrightarrow> lx_watch s (s\<lparr>us_watch := WatchSending\<rparr>)"
| lx_send: "us_watch s = WatchSending \<Longrightarrow> us_queued s < internal_capacity \<Longrightarrow>
    lx_watch s (s\<lparr>us_watch := WatchIdle, us_queued := Suc (us_queued s)\<rparr>)"
| lx_giveup: "us_watch s = WatchSending \<Longrightarrow> us_done s \<Longrightarrow> lx_watch s (s\<lparr>us_watch := WatchReturned\<rparr>)"

text \<open>The watcher of Windows: a device message is handled by \<open>wndProc\<close>, which sends without looking at the
  context; the message loop ends with the \<open>WM_CLOSE\<close> that is posted after the context ended.\<close>

inductive win_watch :: "usb_sys \<Rightarrow> usb_sys \<Rightarrow> bool" where
  win_message: "us_watch s = WatchIdle \<Longrightarrow> win_watch s (s\<lparr>us_watch := WatchSending\<rparr>)"
| win_send: "us_watch s = WatchSending \<Longrightarrow> us_queued s < internal_capacity \<Longrightarrow>
    win_watch s (s\<lparr>us_watch := WatchIdle, us_queued := Suc (us_queued s)\<rparr>)"
| win_close: "us_watch s = WatchIdle \<Longrightarrow> us_done s \<Longrightarrow> win_watch s (s\<lparr>us_watch := WatchReturned\<rparr>)"

text \<open>The goroutine of \<open>run\<close>, the context, and the watcher. The channel is closed when the watcher
  has returned. A \<open>select\<close> with several ready cases takes any of them.\<close>

inductive usb_step :: "(usb_sys \<Rightarrow> usb_sys \<Rightarrow> bool) \<Rightarrow> usb_sys \<Rightarrow> usb_sys \<Rightarrow> bool" for watch where
  usb_cancel: "\<not> us_done s \<Longrightarrow> usb_step watch s (s\<lparr>us_done := True\<rparr>)"
| usb_watch: "watch s t \<Longrightarrow> usb_step watch s t"
| usb_done: "us_run s = RunLoop \<Longrightarrow> us_done s \<Longrightarrow> usb_step watch s (s\<lparr>us_run := RunWaiting\<rparr>)"
| usb_take: "us_run s = RunLoop \<Longrightarrow> us_queued s = Suc n \<Longrightarrow>
    usb_step watch s (s\<lparr>us_run := RunSending, us_queued := n\<rparr>)"
| usb_closed: "us_run s = RunLoop \<Longrightarrow> us_watch s = WatchReturned \<Longrightarrow> us_queued s = 0 \<Longrightarrow>
    usb_step watch s (s\<lparr>us_run := RunReturned\<rparr>)"
| usb_sent: "us_run s = RunSending \<Longrightarrow> usb_step watch s (s\<lparr>us_run := RunLoop\<rparr>)"
| usb_joined: "us_run s = RunWaiting \<Longrightarrow> us_watch s = WatchReturned \<Longrightarrow> usb_step watch s (s\<lparr>us_run := RunReturned\<rparr>)"

inductive_cases lx_watchE: "lx_watch s t"
inductive_cases win_watchE: "win_watch s t"
inductive_cases usb_stepE: "usb_step watch s t"

text \<open>\<open>Stop\<close> returns when the goroutine of \<open>run\<close> has returned, and the watcher with it.\<close>

definition usb_finished :: "usb_sys \<Rightarrow> bool" where
  "usb_finished s \<longleftrightarrow> us_run s = RunReturned \<and> us_watch s = WatchReturned"

text \<open>Every run from the state leads to the goal: it does not stop before it and does not go on forever.\<close>

inductive inevitable :: "('a \<Rightarrow> 'a \<Rightarrow> bool) \<Rightarrow> ('a \<Rightarrow> bool) \<Rightarrow> 'a \<Rightarrow> bool" for step goal where
  goal_here: "goal s \<Longrightarrow> inevitable step goal s"
| goal_later: "step s u \<Longrightarrow> (\<And>t. step s t \<Longrightarrow> inevitable step goal t) \<Longrightarrow> inevitable step goal s"

fun watch_rank :: "watch_pc \<Rightarrow> nat" where
  "watch_rank WatchReceiving = 3"
| "watch_rank WatchSending = 2"
| "watch_rank WatchIdle = 1"
| "watch_rank WatchReturned = 0"

fun run_rank :: "run_pc \<Rightarrow> nat" where
  "run_rank RunSending = 3"
| "run_rank RunLoop = 2"
| "run_rank RunWaiting = 1"
| "run_rank RunReturned = 0"

text \<open>After the context ended the watcher only moves towards its return, and between its steps the
  collector empties the channel.\<close>

definition shutdown_order :: "(usb_sys \<times> usb_sys) set" where
  "shutdown_order = inv_image (less_than <*lex*> less_than)
     (\<lambda>s. (watch_rank (us_watch s), 3 * us_queued s + run_rank (us_run s)))"

lemma wf_shutdown_order: "wf shutdown_order"
  unfolding shutdown_order_def by (intro wf_inv_image wf_lex_prod wf_less_than)

lemma lx_watch_shutdown: "lx_watch s t \<Longrightarrow> us_done s \<Longrightarrow> us_done t \<and> (t, s) \<in> shutdown_order"
  by (erule lx_watchE) (simp_all add: shutdown_order_def)

lemma usb_step_shutdown:
  assumes "usb_step lx_watch s t" "us_done s"
  shows "us_done t \<and> (t, s) \<in> shutdown_order"
  using assms by (elim usb_stepE) (auto simp: shutdown_order_def dest: lx_watch_shutdown [unfolded shutdown_order_def])

lemma usb_shutdown_progress:
  assumes "us_done s" "\<not> usb_finished s"
  shows "\<exists>t. usb_step lx_watch s t"
proof (cases "us_watch s")
  case WatchReturned
  with assms show ?thesis
    by (cases "us_run s") (auto simp: usb_finished_def intro: usb_done usb_sent usb_joined)
qed (use assms in \<open>blast intro: usb_watch lx_stop lx_nothing lx_giveup\<close>)+

lemma lx_inevitable: "us_done s \<Longrightarrow> inevitable (usb_step lx_watch) usb_finished s"
proof (induction s rule: wf_induct_rule [OF wf_shutdown_order])
  case (1 s)
  show ?case
  proof (cases "usb_finished s")
    case False
    with usb_shutdown_progress [OF 1(2)] obtain u where "usb_step lx_watch s u" by blast
    then show ?thesis using 1 usb_step_shutdown by (blast intro: goal_later)
  qed (rule goal_here)
qed

text \<open>
  C34. Shutdown of the USB collector completes on Linux: once the context has ended, in whatever state the
  collector, its watcher and the channel are (the channel full, an event half sent), every
  continuation leads to the return of both, so \<open>Stop\<close> returns.
\<close>

theorem usb_linux_shutdown:
  assumes "us_done s"
  shows "inevitable (usb_step lx_watch) usb_finished s"
  using assms by (rule lx_inevitable)

theorem usb_linux_shutdown_witness:
  "inevitable (usb_step lx_watch) usb_finished
     \<lparr>us_done = True, us_queued = internal_capacity, us_watch = WatchSending, us_run = RunWaiting\<rparr>"
  by (rule usb_linux_shutdown) simp

definition usb_hung :: usb_sys where
  "usb_hung = \<lparr>us_done = True, us_queued = internal_capacity, us_watch = WatchSending, us_run = RunWaiting\<rparr>"

lemma win_fill: "n \<le> internal_capacity \<Longrightarrow> (usb_step win_watch)\<^sup>*\<^sup>* usb_start (usb_start\<lparr>us_queued := n\<rparr>)"
proof (induction n)
  case 0
  then show ?case by (simp add: usb_start_def)
next
  case (Suc n)
  let ?s = "usb_start\<lparr>us_queued := n\<rparr>"
  have "usb_step win_watch ?s (?s\<lparr>us_watch := WatchSending\<rparr>)"
    by (intro usb_watch win_message) (simp add: usb_start_def)
  moreover have "usb_step win_watch (?s\<lparr>us_watch := WatchSending\<rparr>) (usb_start\<lparr>us_queued := Suc n\<rparr>)"
    using win_send [of "?s\<lparr>us_watch := WatchSending\<rparr>"] Suc.prems by (intro usb_watch) (simp add: usb_start_def)
  ultimately show ?case using Suc by (meson Suc_leD rtranclp.rtrancl_into_rtrancl)
qed

text \<open>
  C35. Shutdown of the USB collector can hang on Windows: there is a run into a state in which the
  context has ended, the collector waits for the watcher without reading the channel, and the
  watcher waits for room in the full channel; no step is possible any more and \<open>Stop\<close> never returns.
\<close>

theorem usb_windows_shutdown_hangs:
  "(usb_step win_watch)\<^sup>*\<^sup>* usb_start usb_hung \<and> us_done usb_hung \<and> \<not> usb_finished usb_hung \<and>
   \<not> (\<exists>t. usb_step win_watch usb_hung t)"
proof -
  let ?f = "usb_start\<lparr>us_queued := internal_capacity\<rparr>"
  let ?m = "?f\<lparr>us_watch := WatchSending\<rparr>"
  let ?c = "?m\<lparr>us_done := True\<rparr>"
  have "usb_step win_watch ?f ?m" by (intro usb_watch win_message) (simp add: usb_start_def)
  moreover have "usb_step win_watch ?m ?c" by (rule usb_cancel) (simp add: usb_start_def)
  moreover have "usb_step win_watch ?c usb_hung"
    using usb_done [of ?c win_watch] by (simp add: usb_start_def usb_hung_def)
  ultimately have "(usb_step win_watch)\<^sup>*\<^sup>* usb_start usb_hung"
    using win_fill [of internal_capacity] by (meson order_refl rtranclp.rtrancl_into_rtrancl)
  moreover have "\<not> usb_step win_watch usb_hung t" for t
    by (auto simp: usb_hung_def elim!: usb_stepE win_watchE)
  ultimately show ?thesis by (simp add: usb_hung_def usb_finished_def)
qed

text \<open>The window thread releases what it acquired, in reverse order, wherever it fails.\<close>

definition acquired :: "win_call list \<Rightarrow> win_call list" where
  "acquired cs = filter (\<lambda>c. c \<in> {RegisterClassExW, CreateWindowExW, RegisterDeviceNotificationW}) cs"

fun release_of :: "win_call \<Rightarrow> win_call" where
  "release_of RegisterClassExW = UnregisterClassW"
| "release_of CreateWindowExW = DestroyWindow"
| "release_of c = UnregisterDeviceNotification"

lemma window_thread_releases:
  assumes "window_thread env = (calls, err)"
  shows "filter (\<lambda>c. c \<in> {UnregisterDeviceNotification, DestroyWindow, UnregisterClassW}) calls =
    rev (map release_of (if err = None then acquired calls else butlast (acquired calls)))"
  using assms by (auto simp: window_thread_def acquired_def split: option.splits)

text \<open>A watcher that was refused leaves the running one alone, and one that ran makes room for the next. When it
  reports success the window is closed, unless the context ended before there was one.\<close>

lemma win_startOSWatcher_releases:
  assumes "win_startOSWatcher busy sel = (busy', posted, err)"
  shows "busy' = busy" "err = None \<Longrightarrow> \<not> busy \<and> (posted \<or> sel = WindowCtxDone)"
  using assms by (auto simp: win_startOSWatcher_def split: if_splits win_select.splits)

section \<open>Reading kernel messages\<close>

text \<open>A message of the kernel: a header and the fields, each ended by a zero byte.\<close>

definition uevent_payload :: "string \<Rightarrow> (string \<times> string) list \<Rightarrow> string" where
  "uevent_payload header fs = concat (map (\<lambda>p. p @ [CHR 0x00]) (header # map (\<lambda>(k, v). k @ ''='' @ v) fs))"

definition uevent_ok :: "string \<Rightarrow> (string \<times> string) list \<Rightarrow> bool" where
  "uevent_ok header fs \<longleftrightarrow>
     CHR 0x00 \<notin> set header \<and> CHR ''='' \<notin> set header \<and> distinct (map fst fs) \<and>
     (\<forall>(k, v) \<in> set fs. CHR 0x00 \<notin> set k \<and> CHR 0x00 \<notin> set v \<and> CHR ''='' \<notin> set k)"

lemma IndexByte_None: "c \<notin> set s \<Longrightarrow> IndexByte s c = None"
  by (induction s) auto

lemma uevent_parts:
  assumes "uevent_ok header fs"
  shows "split_byte (CHR 0x00) (uevent_payload header fs) = header # map (\<lambda>(k, v). k @ ''='' @ v) fs @ [[]]"
proof -
  have "\<forall>l \<in> set (header # map (\<lambda>(k, v). k @ ''='' @ v) fs). CHR 0x00 \<notin> set l"
    using assms by (auto simp: uevent_ok_def)
  from split_byte_lines [OF this] show ?thesis by (simp add: uevent_payload_def)
qed

lemma uevent_header: "uevent_ok header fs \<Longrightarrow> uevent_part u header a = a"
  by (simp add: uevent_part_def uevent_ok_def IndexByte_None)

lemma uevent_empty: "uevent_part u [] a = a"
  by (simp add: uevent_part_def)

text \<open>The effect of one field.\<close>

definition product_ids :: "(string \<Rightarrow> string) \<Rightarrow> string \<Rightarrow> USBEvent \<Rightarrow> USBEvent" where
  "product_ids u v ev =
     (let ps = SplitN v (CHR ''/'') 3 in
      if length ps \<ge> 2 then ev\<lparr>VendorID := pad4 (ToLower u (ps ! 0)), ProductID := pad4 (ToLower u (ps ! 1))\<rparr> else ev)"

lemma uevent_field:
  assumes "CHR ''='' \<notin> set k"
  shows "uevent_part u (k @ ''='' @ v) a =
    (if k = ''ACTION'' then a\<lparr>ua_action := v\<rparr>
     else if k = ''SUBSYSTEM'' then a\<lparr>ua_subsystem := v\<rparr>
     else if k = ''DEVTYPE'' then a\<lparr>ua_devtype := v\<rparr>
     else if k = ''DEVPATH'' then a\<lparr>ua_ev := (ua_ev a)\<lparr>DevicePath := v\<rparr>\<rparr>
     else if k = ''PRODUCT'' then a\<lparr>ua_ev := product_ids u v (ua_ev a)\<rparr>
     else if k = ''SERIAL'' then a\<lparr>ua_ev := (ua_ev a)\<lparr>SerialNumber := v\<rparr>\<rparr>
     else a)"
proof -
  have "IndexByte (k @ ''='' @ v) (CHR ''='') = Some (length k)"
    using IndexByte_first [OF assms, of v] by simp
  then show ?thesis by (simp add: uevent_part_def product_ids_def Let_def)
qed

lemma product_ids_keeps: "DevicePath (product_ids u v ev) = DevicePath ev"
  "SerialNumber (product_ids u v ev) = SerialNumber ev" "usb_Action (product_ids u v ev) = usb_Action ev"
  "usb_OccurredAt (product_ids u v ev) = usb_OccurredAt ev"
  by (simp_all add: product_ids_def Let_def)

abbreviation uevent_fold :: "(string \<Rightarrow> string) \<Rightarrow> (string \<times> string) list \<Rightarrow> uevent_vars \<Rightarrow> uevent_vars" where
  "uevent_fold u fs a \<equiv> fold (uevent_part u) (map (\<lambda>(k, v). k @ ''='' @ v) fs) a"

text \<open>A variable that only one key updates holds what that key says, if the keys are distinct.\<close>

lemma uevent_fold_key:
  assumes "\<And>k v a. CHR ''='' \<notin> set k \<Longrightarrow> get (uevent_part u (k @ ''='' @ v) a) = (if k = key then upd v (get a) else get a)"
  shows "distinct (map fst fs) \<Longrightarrow> \<forall>(k, v) \<in> set fs. CHR ''='' \<notin> set k \<Longrightarrow>
    get (uevent_fold u fs a) = (case map_of fs key of None \<Rightarrow> get a | Some v \<Rightarrow> upd v (get a))"
proof (induction fs arbitrary: a)
  case (Cons f fs)
  obtain k v where f: "f = (k, v)" by (metis surj_pair)
  have "map_of fs k = None" using Cons.prems(1) by (simp add: f map_of_eq_None_iff)
  with Cons assms [of k v a] show ?case by (auto simp: f split: option.split)
qed simp

lemma uevent_vars_keys:
  assumes "CHR ''='' \<notin> set k"
  shows "ua_action (uevent_part u (k @ ''='' @ v) a) = (if k = ''ACTION'' then v else ua_action a)"
    and "ua_subsystem (uevent_part u (k @ ''='' @ v) a) = (if k = ''SUBSYSTEM'' then v else ua_subsystem a)"
    and "ua_devtype (uevent_part u (k @ ''='' @ v) a) = (if k = ''DEVTYPE'' then v else ua_devtype a)"
    and "DevicePath (ua_ev (uevent_part u (k @ ''='' @ v) a)) = (if k = ''DEVPATH'' then v else DevicePath (ua_ev a))"
    and "SerialNumber (ua_ev (uevent_part u (k @ ''='' @ v) a)) = (if k = ''SERIAL'' then v else SerialNumber (ua_ev a))"
    and "usb_Action (ua_ev (uevent_part u (k @ ''='' @ v) a)) = usb_Action (ua_ev a)"
    and "VendorID (ua_ev (uevent_part u (k @ ''='' @ v) a)) =
      (if k = ''PRODUCT'' then VendorID (product_ids u v (zero_usb\<lparr>VendorID := VendorID (ua_ev a)\<rparr>)) else VendorID (ua_ev a))"
    and "ProductID (ua_ev (uevent_part u (k @ ''='' @ v) a)) =
      (if k = ''PRODUCT'' then ProductID (product_ids u v (zero_usb\<lparr>ProductID := ProductID (ua_ev a)\<rparr>)) else ProductID (ua_ev a))"
  unfolding uevent_field [OF assms] by (simp_all add: product_ids_keeps product_ids_def Let_def)

lemmas uevent_values =
  uevent_fold_key [where get = ua_action and upd = "\<lambda>v _. v", OF uevent_vars_keys(1)]
  uevent_fold_key [where get = ua_subsystem and upd = "\<lambda>v _. v", OF uevent_vars_keys(2)]
  uevent_fold_key [where get = ua_devtype and upd = "\<lambda>v _. v", OF uevent_vars_keys(3)]
  uevent_fold_key [where get = "\<lambda>a. DevicePath (ua_ev a)" and upd = "\<lambda>v _. v", OF uevent_vars_keys(4)]
  uevent_fold_key [where get = "\<lambda>a. SerialNumber (ua_ev a)" and upd = "\<lambda>v _. v", OF uevent_vars_keys(5)]
  uevent_fold_key [where get = "\<lambda>a. VendorID (ua_ev a)" and
    upd = "\<lambda>v d. VendorID (product_ids u v (zero_usb\<lparr>VendorID := d\<rparr>))" for u, OF uevent_vars_keys(7)]
  uevent_fold_key [where get = "\<lambda>a. ProductID (ua_ev a)" and
    upd = "\<lambda>v d. ProductID (product_ids u v (zero_usb\<lparr>ProductID := d\<rparr>))" for u, OF uevent_vars_keys(8)]

lemma parseUevent_values:
  assumes "uevent_ok header fs"
  shows "parseUevent u now (uevent_payload header fs) =
    (let a = uevent_fold u fs \<lparr>ua_ev = zero_usb, ua_subsystem = [], ua_devtype = [], ua_action = []\<rparr>; ev = ua_ev a in
     if ua_subsystem a \<noteq> ''usb'' \<or> ua_devtype a \<noteq> ''usb_device'' then (ev, False)
     else if ua_action a = ''add'' then (ev\<lparr>usb_Action := ''USB_INSERT'', usb_OccurredAt := now\<rparr>, True)
     else if ua_action a = ''remove'' then (ev\<lparr>usb_Action := ''USB_REMOVE'', usb_OccurredAt := now\<rparr>, True)
     else (ev, False))"
  unfolding parseUevent_def uevent_parts [OF assms] by (simp add: uevent_header [OF assms] uevent_empty Let_def)

lemma SplitN_product: "CHR ''/'' \<notin> set v \<Longrightarrow> CHR ''/'' \<notin> set p \<Longrightarrow> SplitN (v @ ''/'' @ p @ ''/'' @ r) (CHR ''/'') 3 = [v, p, r]"
  using IndexByte_first [of "CHR ''/''" v "p @ ''/'' @ r"] IndexByte_first [of "CHR ''/''" p r]
  by (simp add: numeral_3_eq_3)

lemma hex_fixed_lower: "ToLower u (hex_fixed False k n) = hex_fixed False k n"
proof -
  have c: "code c \<in> {48..57} \<union> {97..102}" if "c \<in> set (hex_fixed False k n)" for c
  proof -
    from that obtain i where i: "c = hex_digit False (n div 16 ^ i mod 16)" by (auto simp: hex_fixed_def)
    have "n div 16 ^ i mod 16 < 16" by simp
    with i show ?thesis by (auto simp: code_hex_digit)
  qed
  have "lower_char c = c" "code c < 128" if "c \<in> set (hex_fixed False k n)" for c
    using c [OF that] by (auto simp: lower_char_def)
  then show ?thesis by (simp add: ToLower_def list_all_iff map_idI)
qed

lemma hex_fixed_zero: "n < 16 ^ k \<Longrightarrow> ''0'' @ hex_fixed False k n = hex_fixed False (Suc k) n"
proof -
  assume "n < 16 ^ k"
  moreover have "digit 0 = CHR ''0''" by code_simp
  ultimately show ?thesis by (simp add: hex_fixed_Suc hex_digit_def)
qed

lemma pad4_hex: "0 < k \<Longrightarrow> k \<le> 4 \<Longrightarrow> n < 16 ^ k \<Longrightarrow> pad4 (hex_fixed False k n) = hex_fixed False 4 n"
proof (induction "4 - k" arbitrary: k)
  case 0
  then show ?case by (subst pad4.simps) simp
next
  case (Suc d)
  then have "k < 4" by simp
  have "n < 16 ^ Suc k" using Suc.prems(3) by simp
  with Suc.hyps(1) [of "Suc k"] Suc.hyps(2) \<open>k < 4\<close>
  have "pad4 (hex_fixed False (Suc k) n) = hex_fixed False 4 n" by simp
  then show ?case
    using Suc.prems \<open>k < 4\<close> hex_fixed_zero [of n k] by (subst pad4.simps) simp
qed

lemma pad4_hex_min: "n < 65536 \<Longrightarrow> pad4 (ToLower u (hex_min n)) = hex_fixed False 4 n"
  by (simp add: hex_min_def hex_fixed_lower pad4_hex)

lemma slash_hex_min: "CHR ''/'' \<notin> set (hex_min n)"
  using hex_fixed_codes [of "CHR ''/''"] by (auto simp: hex_min_def code_def)

text \<open>
  C33. A kernel message about a USB device is read back: whatever the order of the fields and
  whatever other fields there are, the event has the vendor and product as four hexadecimal digits (the kernel
  prints them without leading zeros), the serial number if there is one, the device path and the
  action.
\<close>

theorem uevent_roundtrip:
  assumes "uevent_ok header fs"
    and "map_of fs ''SUBSYSTEM'' = Some ''usb''" "map_of fs ''DEVTYPE'' = Some ''usb_device''"
    and "map_of fs ''ACTION'' = Some act" "act = ''add'' \<or> act = ''remove''"
    and "map_of fs ''PRODUCT'' = Some (hex_min (unat (vid :: u16)) @ ''/'' @ hex_min (unat (pid :: u16)) @ ''/'' @ bcd)"
    and "map_of fs ''DEVPATH'' = Some path"
  shows "parseUevent u now (uevent_payload header fs) =
    (\<lparr>usb_Action = (if act = ''add'' then ''USB_INSERT'' else ''USB_REMOVE''), VendorID = hex_fixed False 4 (unat vid),
      ProductID = hex_fixed False 4 (unat pid),
      SerialNumber = (case map_of fs ''SERIAL'' of None \<Rightarrow> [] | Some s \<Rightarrow> s), DevicePath = path, usb_OccurredAt = now\<rparr>, True)"
proof -
  have d: "distinct (map fst fs)" "\<forall>(k, v) \<in> set fs. CHR ''='' \<notin> set k" using assms(1) by (auto simp: uevent_ok_def)
  have ids: "unat vid < 65536" "unat pid < 65536" using unsigned_less [of vid] unsigned_less [of pid] by simp_all
  let ?a = "uevent_fold u fs \<lparr>ua_ev = zero_usb, ua_subsystem = [], ua_devtype = [], ua_action = []\<rparr>"
  have strs: "ua_action ?a = act" "ua_subsystem ?a = ''usb''" "ua_devtype ?a = ''usb_device''"
    "DevicePath (ua_ev ?a) = path" "SerialNumber (ua_ev ?a) = (case map_of fs ''SERIAL'' of None \<Rightarrow> [] | Some s \<Rightarrow> s)"
    using uevent_values(1-5) [OF _ d, of u] assms(2,3,4,7) by (simp_all add: zero_usb_def split: option.split)
  have "product_ids u (hex_min (unat vid) @ ''/'' @ hex_min (unat pid) @ ''/'' @ bcd) e =
      e\<lparr>VendorID := hex_fixed False 4 (unat vid), ProductID := hex_fixed False 4 (unat pid)\<rparr>" for e
    unfolding product_ids_def SplitN_product [OF slash_hex_min slash_hex_min] by (simp add: pad4_hex_min ids)
  then have "VendorID (ua_ev ?a) = hex_fixed False 4 (unat vid)" "ProductID (ua_ev ?a) = hex_fixed False 4 (unat pid)"
    using uevent_values(6,7) [OF _ d, of u] assms(6) by simp_all
  with strs assms(5) show ?thesis
    unfolding parseUevent_values [OF assms(1)] Let_def by (cases "ua_ev ?a") auto
qed

definition demo_uevent :: "(string \<times> string) list" where
  "demo_uevent = [(''ACTION'', ''add''), (''DEVPATH'', ''/devices/usb1/1-2''), (''SUBSYSTEM'', ''usb''), (''DEVTYPE'', ''usb_device''),
     (''PRODUCT'', hex_min 0x1D @ ''/'' @ hex_min 0x102 @ ''/100'')]"

theorem uevent_roundtrip_witness:
  "fst (parseUevent id 9 (uevent_payload ''add@/devices/usb1/1-2'' demo_uevent)) =
   \<lparr>usb_Action = ''USB_INSERT'', VendorID = ''001d'', ProductID = ''0102'', SerialNumber = [],
     DevicePath = ''/devices/usb1/1-2'', usb_OccurredAt = 9\<rparr>"
proof -
  have ok: "uevent_ok ''add@/devices/usb1/1-2'' demo_uevent" by code_simp
  have "hex_fixed False 4 (unat (0x1D :: u16)) = ''001d''" "hex_fixed False 4 (unat (0x102 :: u16)) = ''0102''"
    by code_simp+
  with uevent_roundtrip [OF ok, where vid = "0x1D" and pid = "0x102" and bcd = "''100''" and act = "''add''" and u = id and now = 9]
  show ?thesis by (simp add: demo_uevent_def)
qed

end
