(* ===== verification/Commands.thy ===== *)
theory Commands
  imports Agent Provider Process_Adapters Network_Collector Usb_Collector Server
begin

text \<open>
  The programs of the repository that run on the endpoint: \<open>src/agent/cmd/endpoint/main.go\<close>, which puts the
  agent together, \<open>src/agent/cmd/synthetic/main.go\<close>, which posts generated events to the server, and
  \<open>src/agent/cmd/usbvalidator/main.go\<close>, which prints USB events.

  The lemmas are about the components working together: the events of all collectors are accepted by
  the server, what is queued at shutdown is processed before the storage is closed, and the
  resource governor as configured here stays in its initial state.
\<close>

section \<open>The resource governor of the endpoint\<close>

definition endpoint_gov_config :: gov_config where
  "endpoint_gov_config =
     \<lparr>CPUSaverThreshold = Fin 80, CPUEmergencyThreshold = Fin 90, CPURecoveryMargin = Fin 5,
      MemorySaverBytes = 200 * 1024 * 1024, MemoryEmergencyBytes = 300 * 1024 * 1024,
      MemoryRecoveryMarginBytes = 10 * 1024 * 1024,
      StorageSaverRatio = f64_of_rat (7 / 10), StorageEmergencyRatio = f64_of_rat (9 / 10),
      StorageRecoveryMarginRatio = f64_of_rat (5 / 100),
      QueueSaverRatio = f64_of_rat (7 / 10), QueueEmergencyRatio = f64_of_rat (9 / 10),
      QueueRecoveryMarginRatio = f64_of_rat (5 / 100), RecoveryDuration = 30 * second\<rparr>"

text \<open>The coordinator, if the provider is available; without it resource monitoring is off.\<close>

definition endpoint_coordinator :: "go_error option \<Rightarrow> coordinator option" where
  "endpoint_coordinator providerErr =
     (case providerErr of
        Some _ \<Rightarrow> None
      | None \<Rightarrow>
        (case NewGovernor endpoint_gov_config of
           Inl _ \<Rightarrow> None
         | Inr g \<Rightarrow>
           (case NewCoordinator False (Some g) (Some NewGovernorMetrics) 0 of
              Inl _ \<Rightarrow> None
            | Inr c \<Rightarrow> Some c)))"

section \<open>Start and shutdown of the endpoint\<close>

definition agentDBPath :: string where
  "agentDBPath = ''agent.db''"

definition storageQuotaBytes :: int where
  "storageQuotaBytes = 50 * 1024 * 1024"

record endpoint =
  ep_cfg :: agent_config
  ep_db :: sqlite_storage
  ep_fwd :: forwarder
  ep_coordinator :: "coordinator option"
  ep_proc :: ProcessCollector
  ep_fs :: fs_collector
  ep_inv :: host_collector
  ep_net :: host_collector
  ep_usb :: host_collector

text \<open>What the host answers while the program starts, and the files of the storage it finds.\<close>

record start_env =
  st_config :: "go_error + agent_config"
  st_identityPath :: string
  st_disk :: database
  st_backup :: bool
  st_idfile :: bool
  st_init :: init_env
  st_provider :: "go_error option"
  st_ctxErr :: "go_error option"
  st_now :: go_time
  st_sample :: provider_sample
  st_fs :: fs_start_env

text \<open>The signals of the first step of the coordinator: the channel of the collectors is empty and has room for
  200 events.\<close>

definition endpoint_runtime :: "forwarder \<Rightarrow> RuntimeSignals" where
  "endpoint_runtime fwd =
     \<lparr>QueueDepth = \<lparr>vu_Value = 0, vu_Valid = True\<rparr>, QueueCapacity = \<lparr>vu_Value = 200, vu_Valid = True\<rparr>,
      QueueOldestAgeSec = invalid_float, rt_NetworkState = NetworkState_of fwd\<rparr>"

text \<open>\<open>main\<close> up to the ingestion loop; \<^term>\<open>Inl\<close> is \<open>log.Fatalf\<close>. An error of the first step of the
  coordinator is only logged.\<close>

definition endpoint_start :: "(string \<Rightarrow> string \<Rightarrow> go_time option) \<Rightarrow> start_env \<Rightarrow> string + endpoint" where
  "endpoint_start tp env =
     (case st_config env of
        Inl e \<Rightarrow> Inl (''Failed to load configuration: '' @ err_text e)
      | Inr cfg \<Rightarrow>
      case Init tp (st_init env)
          (NewSQLiteStorage agentDBPath (st_identityPath env) storageQuotaBytes (st_disk env) (st_backup env) (st_idfile env)) of
        (_, Some e) \<Rightarrow> Inl (''Failed to initialize storage: '' @ err_text e)
      | (db, None) \<Rightarrow>
      if GetDeviceID db = [] then Inl ''Failed to establish authoritative device identity from storage''
      else
      case fwd_Start (NewForwarder (agent_config.cfg_APIAddr cfg) (agent_config.cfg_TenantID cfg)) of
        (_, Some e) \<Rightarrow> Inl (''Failed to start forwarder: '' @ err_text e)
      | (fwd, None) \<Rightarrow>
      let coord = map_option (fst \<circ> Step (st_ctxErr env) (st_now env) (st_sample env) (endpoint_runtime fwd))
            (endpoint_coordinator (NewSQLiteResourceProvider agentDBPath (st_provider env))) in
      case pc_Start pc_NewCollector of
        (_, Some e) \<Rightarrow> Inl (''Process collector failed to start: '' @ err_text e)
      | (procCol, None) \<Rightarrow>
      case fs_Start (st_fs env) (fs_NewCollector cfg) of
        (_, Some e) \<Rightarrow> Inl (''Filesystem collector failed to start: '' @ err_text e)
      | (fsCol, None) \<Rightarrow>
      case hc_Start (hc_NewCollector cfg) of
        (_, Some e) \<Rightarrow> Inl (''Inventory collector failed to start: '' @ err_text e)
      | (invCol, None) \<Rightarrow>
      case hc_Start (hc_NewCollector cfg) of
        (_, Some e) \<Rightarrow> Inl (''Network collector failed to start: '' @ err_text e)
      | (netCol, None) \<Rightarrow>
      case hc_Start (hc_NewCollector cfg) of
        (_, Some e) \<Rightarrow> Inl (''USB collector failed to start: '' @ err_text e)
      | (usbCol, None) \<Rightarrow>
        Inr \<lparr>ep_cfg = cfg, ep_db = db, ep_fwd = fwd, ep_coordinator = coord, ep_proc = procCol, ep_fs = fsCol, ep_inv = invCol,
             ep_net = netCol, ep_usb = usbCol\<rparr>)"

text \<open>The configuration of the ingestion engine: a committed event goes through the detection engine with the
  one active rule (and wakes the forwarder, which does not touch the storage).\<close>

definition endpoint_ingest ::
    "codec \<Rightarrow> (string \<Rightarrow> string \<Rightarrow> go_time option) \<Rightarrow> uuid_pkg \<Rightarrow> (nat \<Rightarrow> nat \<Rightarrow> init_env) \<Rightarrow> agent_config \<Rightarrow> string \<Rightarrow>
     (sqlite_storage, init_env) ingest_config" where
  "endpoint_ingest js tp u denv cfg device =
     NewEngine \<lparr>ingest_config.cfg_TenantID = agent_config.cfg_TenantID cfg, ingest_config.cfg_SiteID = agent_config.cfg_SiteID cfg, cfg_AssetID = device,
       RetryDelay = 0, EmergencySpillPath = [],
       OnCommitted = Some (\<lambda>ctx ev s. det_Evaluate (sqlite_ops js tp) u (denv ctx) [RealIOCExecRule] ev s),
       has_OnDropped = False, has_OnDLQ = False, has_OnFatal = False, TestInjectError = None\<rparr>"

text \<open>The shutdown sequence: the collectors stop, the channel is closed, the ingestion loop drains the
  events \<open>evs\<close> that are still in it, then the forwarder stops and the storage is closed. The
  result has the outcomes of the drained events.\<close>

definition endpoint_shutdown ::
    "codec \<Rightarrow> (string \<Rightarrow> string \<Rightarrow> go_time option) \<Rightarrow> uuid_pkg \<Rightarrow> (nat \<Rightarrow> nat \<Rightarrow> init_env) \<Rightarrow> go_error option \<Rightarrow> nat \<Rightarrow> nat \<Rightarrow>
     (init_env ingest_env \<times> canonical_event) list \<Rightarrow> string \<Rightarrow> endpoint \<Rightarrow> (endpoint \<times> string \<times> EventOutcome list) option" where
  "endpoint_shutdown js tp u denv closeErr ctx drainCtx evs spill ep =
     (let ep = ep\<lparr>ep_proc := pc_Stop (ep_proc ep), ep_fs := fst (fs_Stop closeErr (ep_fs ep)),
                  ep_inv := hc_Stop (ep_inv ep), ep_net := hc_Stop (ep_net ep), ep_usb := hc_Stop (ep_usb ep)\<rparr>
      in map_option (\<lambda>(db, spill1, os). (ep\<lparr>ep_fwd := fwd_Stop (ep_fwd ep), ep_db := Close db\<rparr>, spill1, os))
           (ingest_Run js (sqlite_ops js tp) (endpoint_ingest js tp u denv (ep_cfg ep) (GetDeviceID (ep_db ep)))
              ctx drainCtx evs (ep_db ep) spill))"

section \<open>The synthetic agent\<close>

definition mixed_severity :: "string \<Rightarrow> int \<Rightarrow> string" where
  "mixed_severity flag seqNo =
     (if flag = ''MIXED'' then (if go_mod seqNo 5 = 0 then ''CRITICAL'' else ''INFO'') else flag)"

definition generateEvent :: "string \<Rightarrow> go_time \<Rightarrow> string \<Rightarrow> int \<Rightarrow> canonical_event" where
  "generateEvent uuid now severity seqNo =
     zero_event\<lparr>EventID := uuid, TenantID := ''tenant-alpha'', SiteID := ''site-primary'', OccurredAt := now,
       SeqNo := seqNo, Source := ''synthetic-agent'', Category := ''system'', Severity := severity,
       SchemaVersion := ''1.0.0''\<rparr>"

text \<open>The loop of \<open>main\<close>: the events in the order they are posted. The sequence number is an \<open>int64\<close> and
  the count an \<open>int\<close>; \<^term>\<open>None\<close> means that the loop does not end.\<close>

partial_function (option) synthetic_loop ::
    "(nat \<Rightarrow> string \<times> go_time) \<Rightarrow> int \<Rightarrow> string \<Rightarrow> int \<Rightarrow> nat \<Rightarrow> canonical_event list option" where
  "synthetic_loop gen cnt flag seqNo eventsSent =
     (if cnt > 0 \<and> int eventsSent \<ge> cnt then Some []
      else
        let ev = generateEvent (fst (gen eventsSent)) (snd (gen eventsSent)) (mixed_severity flag seqNo) seqNo in
        if cnt > 0 \<and> int (Suc eventsSent) \<ge> cnt then Some [ev]
        else do { evs \<leftarrow> synthetic_loop gen cnt flag (wrap64 (seqNo + 1)) (Suc eventsSent); Some (ev # evs) })"

text \<open>The request of \<open>sendEvent\<close>: the URL as it is, so the tenant is what its query says.\<close>

definition query_tenant :: "(string \<Rightarrow> string) \<Rightarrow> string \<Rightarrow> string" where
  "query_tenant query_Get url = (if CHR ''?'' \<in> set url then query_Get (tl (dropWhile (\<lambda>c. c \<noteq> CHR ''?'') url)) else [])"

definition synthetic_request :: "(string \<Rightarrow> string) \<Rightarrow> string \<Rightarrow> canonical_event \<Rightarrow> http_request" where
  "synthetic_request query_Get url ev =
     \<lparr>req_Method = ''POST'', req_tenant_id = query_tenant query_Get url, req_body = BodyEvent ev, req_trailing = TrailingEOF\<rparr>"

definition synthetic_default_url :: string where
  "synthetic_default_url = ''http://localhost:8081/v1/ingest''"

text \<open>What \<open>sendEvent\<close> logs: the answer is an error or a status code.\<close>

definition synthetic_sendEvent :: "canonical_event \<Rightarrow> go_error + int \<Rightarrow> string" where
  "synthetic_sendEvent ev resp =
     (case resp of
        Inl err \<Rightarrow> ''Failed to send event '' @ EventID ev @ '': '' @ err_text err
      | Inr status \<Rightarrow>
        if status = 202
        then ''Successfully sent event '' @ EventID ev @ '' (Seq: '' @ dec_int (SeqNo ev) @ '', Severity: '' @ Severity ev @ '')''
        else ''Failed to send event '' @ EventID ev @ ''. Status: '' @ dec_int status)"

section \<open>The USB validator\<close>

text \<open>\<open>printEvent\<close>; the rendering of a metadata value by \<open>%s\<close>, of the time, and the indented JSON are arguments.\<close>

definition print_field :: "(gval \<Rightarrow> string) \<Rightarrow> metadata \<Rightarrow> string \<Rightarrow> string \<Rightarrow> string" where
  "print_field fmt m key label = (case m key of None \<Rightarrow> [] | Some v \<Rightarrow> label @ fmt v @ [CHR 0x0A])"

definition printEvent ::
    "(gval \<Rightarrow> string) \<Rightarrow> (go_time \<Rightarrow> string) \<Rightarrow> (canonical_event \<Rightarrow> string) \<Rightarrow> canonical_event \<Rightarrow> bool \<Rightarrow> string" where
  "printEvent fmt time_String json ev verbose =
     (let nl = [CHR 0x0A]; m = (case Metadata ev of None \<Rightarrow> Map.empty | Some m \<Rightarrow> m) in
      nl @ ''--- Captured Event ---'' @ nl @
      ''Category:    '' @ Category ev @ nl @ ''Action:      '' @ Action ev @ nl @
      ''Event ID:    '' @ EventID ev @ nl @ ''Occurred At: '' @ time_String (OccurredAt ev) @ nl @
      print_field fmt m ''vendor_id'' ''Vendor ID:   '' @ print_field fmt m ''product_id'' ''Product ID:  '' @
      (if verbose
       then print_field fmt m ''serial_number'' ''Serial Num:  '' @ print_field fmt m ''device_path'' ''Device Path: '' @
            ''Raw JSON:'' @ nl @ json ev @ nl
       else ''(Sensitive fields like serial_number hidden. Use --verbose to view)'' @ nl) @
      ''----------------------'' @ nl)"

text \<open>The loop of \<open>main\<close>: what its \<open>select\<close> receives, the output and the collector afterwards.\<close>

definition validator_config :: agent_config where
  "validator_config = \<lparr>cfg_APIAddr = [], cfg_TenantID = ''validator-tenant'', cfg_SiteID = ''validator-site'',
     cfg_ProcessInterval = [], cfg_InventoryInterval = [], cfg_NetworkInterval = [], cfg_MonitorPaths = []\<rparr>"

datatype validator_input = ValidatorEvent canonical_event | ValidatorClosed | ValidatorDone

fun validator_loop ::
    "(canonical_event \<Rightarrow> string) \<Rightarrow> validator_input list \<Rightarrow> host_collector \<Rightarrow> string \<times> host_collector" where
  "validator_loop print [] c = ([], c)"
| "validator_loop print (ValidatorEvent ev # ins) c =
     (case validator_loop print ins c of (out, c1) \<Rightarrow> (print ev @ out, c1))"
| "validator_loop print (ValidatorClosed # ins) c = ([], c)"
| "validator_loop print (ValidatorDone # ins) c = (''Shutdown complete.'' @ [CHR 0x0A], hc_Stop c)"

definition validator_main ::
    "(gval \<Rightarrow> string) \<Rightarrow> (go_time \<Rightarrow> string) \<Rightarrow> (canonical_event \<Rightarrow> string) \<Rightarrow> bool \<Rightarrow> validator_input list \<Rightarrow>
     string + string \<times> host_collector" where
  "validator_main fmt time_String json verbose ins =
     (case hc_Start (hc_NewCollector validator_config) of
        (_, Some e) \<Rightarrow> Inl (''Failed to start USB collector: '' @ err_text e)
      | (c, None) \<Rightarrow> Inr (validator_loop (\<lambda>ev. printEvent fmt time_String json ev verbose) ins c))"

section \<open>The events of the collectors\<close>

text \<open>An event that one of the collectors hands to the channel, with an identifier that is a UUID and a clock that
  is not at the zero time.\<close>

inductive collected :: "(string \<Rightarrow> go_error option) \<Rightarrow> agent_config \<Rightarrow> canonical_event \<Rightarrow> bool" for uuidP cfg where
  from_inventory: "inv_takeSnapshot cfg env = Some ev \<Longrightarrow> uuidP (ie_uuid env) = None \<Longrightarrow> \<not> IsZero (ie_now env) \<Longrightarrow>
    collected uuidP cfg ev"
| from_filesystem: "handleEvent cfg henv e = Some ev \<Longrightarrow> uuidP (he_uuid henv) = None \<Longrightarrow> \<not> IsZero (he_now henv) \<Longrightarrow>
    collected uuidP cfg ev"
| from_network: "net_takeSnapshot cfg nenv = Some ev \<Longrightarrow> uuidP (ne_uuid nenv) = None \<Longrightarrow> \<not> IsZero (ne_now nenv) \<Longrightarrow>
    collected uuidP cfg ev"
| from_usb_linux: "parseUevent u now data = (uev, True) \<Longrightarrow> emitEvent cfg uuid ch uev = Some ev \<Longrightarrow> uuidP uuid = None \<Longrightarrow>
    \<not> IsZero now \<Longrightarrow> collected uuidP cfg ev"
| from_usb_windows: "wndProc u w now msg wp lp = (Some uev, call) \<Longrightarrow> emitEvent cfg uuid ch uev = Some ev \<Longrightarrow>
    uuidP uuid = None \<Longrightarrow> \<not> IsZero now \<Longrightarrow> collected uuidP cfg ev"
| from_process: "emit penv x = Some ev \<Longrightarrow> uuidP (em_uuid penv) = None \<Longrightarrow> \<not> IsZero (em_now penv) \<Longrightarrow> collected uuidP cfg ev"

text \<open>What the collectors have in common.\<close>

definition collected_shape :: "(string \<Rightarrow> go_error option) \<Rightarrow> agent_config \<Rightarrow> canonical_event \<Rightarrow> bool" where
  "collected_shape uuidP cfg ev \<longleftrightarrow>
     uuidP (EventID ev) = None \<and> \<not> IsZero (OccurredAt ev) \<and> Source ev = ''agent'' \<and>
     Category ev \<in> {''inventory'', ''filesystem'', ''network'', ''usb'', ''process''} \<and>
     (TenantID ev = [] \<and> SiteID ev = [] \<or>
      TenantID ev = agent_config.cfg_TenantID cfg \<and> SiteID ev = agent_config.cfg_SiteID cfg) \<and>
     Severity ev = ''INFO'' \<and> length (Action ev) \<le> 128 \<and> SchemaVersion ev = CurrentSchemaVersion \<and> AssetID ev = [] \<and>
     SensorID ev = [] \<and> Protocol ev = [] \<and> Src ev = [] \<and> Dst ev = [] \<and> RuleID ev = [] \<and> RuleVersion ev = [] \<and> Confidence ev = None"

lemma zero_event_fields [simp]:
  "TenantID zero_event = []" "SiteID zero_event = []" "AssetID zero_event = []" "SensorID zero_event = []"
  "Protocol zero_event = []" "Src zero_event = []" "Dst zero_event = []" "RuleID zero_event = []" "RuleVersion zero_event = []"
  "Confidence zero_event = None"
  by (simp_all add: zero_event_def)

lemma fs_action_short: "length (fs_action e) \<le> 128"
  by (simp add: fs_action_def)

lemma parseUevent_action:
  "parseUevent u now data = (uev, True) \<Longrightarrow> length (usb_Action uev) \<le> 128 \<and> usb_OccurredAt uev = now"
  by (auto simp: parseUevent_def Let_def split: if_splits)

lemma wndProc_action:
  "wndProc u w now msg wp lp = (Some uev, call) \<Longrightarrow> length (usb_Action uev) \<le> 128 \<and> usb_OccurredAt uev = now"
  by (auto simp: wndProc_def Let_def split: if_splits option.splits prod.splits)

lemma usb_shape:
  "emitEvent cfg uuid ch uev = Some ev \<Longrightarrow> uuidP uuid = None \<Longrightarrow> \<not> IsZero (usb_OccurredAt uev) \<Longrightarrow>
   length (usb_Action uev) \<le> 128 \<Longrightarrow> collected_shape uuidP cfg ev"
  unfolding emitEvent_def by (drule blocking_send_Some) (simp add: collected_shape_def)

lemma collected_shaped: "collected uuidP cfg ev \<Longrightarrow> collected_shape uuidP cfg ev"
proof (induction rule: collected.induct)
  case (from_inventory env ev)
  then show ?case
    by (auto simp: inv_takeSnapshot_def Let_def collected_shape_def split: sum.splits if_splits dest!: blocking_send_Some)
next
  case (from_filesystem henv e ev)
  then show ?case
    using fs_action_short [of e]
    by (auto simp: handleEvent_def Let_def collected_shape_def split: if_splits dest!: blocking_send_Some)
next
  case (from_network nenv ev)
  then show ?case
    by (auto simp: net_takeSnapshot_def collected_shape_def split: sum.splits dest!: blocking_send_Some)
next
  case (from_process penv x ev)
  then show ?case
    by (cases x; cases "snd x") (auto simp: emit_def emit_event_def Let_def collected_shape_def split: if_splits)
qed (auto intro!: usb_shape dest: parseUevent_action wndProc_action)

lemma endpoint_config_ids:
  "cfg_Validate up cfg = None \<Longrightarrow>
   id_regex_match (agent_config.cfg_TenantID cfg) \<and> length (agent_config.cfg_TenantID cfg) \<le> 128 \<and>
   id_regex_match (agent_config.cfg_SiteID cfg) \<and> length (agent_config.cfg_SiteID cfg) \<le> 128"
  by (auto simp: cfg_Validate_def cfg_bad_id_def split: if_splits)

lemma endpoint_enrich:
  assumes "collected_shape uuidP cfg ev" "agent_config.cfg_TenantID cfg \<noteq> []" "agent_config.cfg_SiteID cfg \<noteq> []"
  shows "enrich (endpoint_ingest js tp u denv cfg device) ev =
    ev\<lparr>TenantID := agent_config.cfg_TenantID cfg, SiteID := agent_config.cfg_SiteID cfg, AssetID := device\<rparr>"
  using assms
  by (auto simp: enrich_def endpoint_ingest_def NewEngine_def Let_def collected_shape_def)

lemma short_text [simp]: "RuneCountInString [] = 0" "RuneCountInString ''agent'' \<le> 255"
  using RuneCount_le_length [of "[]"] RuneCount_le_length [of "''agent''"] by simp_all

lemma category_short: "c \<in> {''inventory'', ''filesystem'', ''network'', ''usb'', ''process''} \<Longrightarrow> RuneCountInString c \<le> 255"
  using RuneCount_le_length [of c] by auto



section \<open>The endpoint\<close>

text \<open>The thresholds of the endpoint are valid.\<close>

lemma round_dyadic: "\<bar>m\<bar> \<le> 2 ^ 53 \<Longrightarrow> k \<le> 1074 \<Longrightarrow> round_rat (of_int m / 2 ^ k) = of_int m / 2 ^ k"
  using f64_of_rat_exact [of "of_int m / 2 ^ k" m k] by (auto simp: f64_of_rat_def Let_def split: if_splits)

lemma endpoint_ratios:
  "\<exists>r. f64_of_rat (7 / 10) = Fin r \<and> 5 / 8 \<le> r \<and> r \<le> 3 / 4"
  "\<exists>r. f64_of_rat (9 / 10) = Fin r \<and> 7 / 8 \<le> r \<and> r \<le> 1"
  "\<exists>r. f64_of_rat (1 / 20) = Fin r \<and> 0 \<le> r \<and> r \<le> 1 / 8"
proof -
  have small: "\<bar>q\<bar> \<le> 1 \<Longrightarrow> \<bar>q :: rat\<bar> < f64_top" for q using small_lt_max [of q] by simp
  note between = f64_of_rat_between [OF _ _ small small]
  show "\<exists>r. f64_of_rat (7 / 10) = Fin r \<and> 5 / 8 \<le> r \<and> r \<le> 3 / 4"
    using round_dyadic [of 5 3] round_dyadic [of 3 2] by (intro between) simp_all
  show "\<exists>r. f64_of_rat (9 / 10) = Fin r \<and> 7 / 8 \<le> r \<and> r \<le> 1"
    using round_dyadic [of 7 3] round_dyadic [of 1 0] by (intro between) simp_all
  show "\<exists>r. f64_of_rat (1 / 20) = Fin r \<and> 0 \<le> r \<and> r \<le> 1 / 8"
    using round_dyadic [of 0 0] round_dyadic [of 1 3] by (intro between) simp_all
qed

lemma endpoint_config_valid: "validateConfig endpoint_gov_config = None"
proof -
  obtain a b c where r: "f64_of_rat (7 / 10) = Fin a" "f64_of_rat (9 / 10) = Fin b" "f64_of_rat (1 / 20) = Fin c"
    and bounds: "5 / 8 \<le> a" "a \<le> 3 / 4" "7 / 8 \<le> b" "b \<le> 1" "0 \<le> c" "c \<le> 1 / 8"
    using endpoint_ratios by metis
  have "threshold_errors one_f (Fin a) (Fin b) (Fin c) x y z = None" for x y z
    using bounds by (simp add: threshold_errors_def f64_lt_def f64_gt_def f64_ge_def zero_f_def one_f_def)
  moreover have "threshold_errors hundred_f (Fin 80) (Fin 90) (Fin 5) x y z = None" for x y z
    by (simp add: threshold_errors_def f64_lt_def f64_gt_def f64_ge_def zero_f_def hundred_f_def)
  ultimately show ?thesis by (simp add: validateConfig_def endpoint_gov_config_def r second_def)
qed

text \<open>A coordinator without a storage budget never consults the governor.\<close>

lemma Step_no_budget:
  assumes "StorageBudgetBytes c = 0" "Step ctxErr now ps rt c = (c1, r, e, trs)"
  shows "StorageBudgetBytes c1 = 0 \<and> co_governor c1 = co_governor c \<and> trs = [] \<and> \<not> Evaluated r"
  using assms Step_cancelled Step_result [of now ps rt c c1 r e trs] by (cases ctxErr) (auto dest: Step_cancelled)

lemma endpoint_step_no_budget:
  "StorageBudgetBytes c = 0 \<Longrightarrow> StorageBudgetBytes (endpoint_step x c) = 0 \<and> co_governor (endpoint_step x c) = co_governor c"
proof -
  assume b: "StorageBudgetBytes c = 0"
  obtain ctxErr now ps rt where x: "x = (ctxErr, now, ps, rt)" by (metis prod.exhaust)
  obtain c1 r e trs where s: "Step ctxErr now ps rt c = (c1, r, e, trs)" by (metis prod.exhaust)
  from Step_no_budget [OF b s] show ?thesis by (simp add: endpoint_step_def x s)
qed

text \<open>
  The endpoint's governor is configured correctly and idle: its thresholds pass the validation, so the
  coordinator exists whenever the provider does, and since no storage budget is configured
  (the source sets 0 on purpose) no sequence of steps, whatever is measured, ever leaves the
  initial state or consults the governor.
\<close>

theorem endpoint_governor_idle:
  "\<exists>c. endpoint_coordinator None = Some c \<and>
     (\<forall>xs. map_option CurrentState (co_governor (fold endpoint_step xs c)) = Some StateNormal)"
proof -
  obtain g where g: "NewGovernor endpoint_gov_config = Inr g" "currentState g = StateNormal"
    by (simp add: NewGovernor_def endpoint_config_valid)
  let ?c = "\<lparr>co_governor = Some g, co_metrics = Some NewGovernorMetrics, StorageBudgetBytes = 0, cpuInitDone = False\<rparr>"
  have "co_governor (fold endpoint_step xs c) = co_governor c" if "StorageBudgetBytes c = 0" for xs c
    using that by (induction xs arbitrary: c) (simp_all add: endpoint_step_no_budget)
  then have "map_option CurrentState (co_governor (fold endpoint_step xs ?c)) = Some StateNormal" for xs
    by (simp add: CurrentState_def g(2))
  moreover have "endpoint_coordinator None = Some ?c" by (simp add: endpoint_coordinator_def g(1) NewCoordinator_def)
  ultimately show ?thesis by blast
qed

text \<open>The ingestion loop ends the process only with an event it could not keep anywhere.\<close>

lemma process_step_fatal:
  assumes "process_step js ops cfg env ctx drainCtx file l = Inl r"
  shows "LogFatalf \<in> set (ir_calls r) \<longrightarrow> ir_outcome r = OutcomeDropped"
proof -
  obtain db1 ev1 se where "loop_store ops cfg env l = (db1, ev1, se)" by (metis prod_cases3)
  with assms show ?thesis
    unfolding process_step_def Let_def recover_def call_if_def
    by (cases se) (auto split: if_splits prod.splits option.splits sum.splits)
qed

lemma ProcessEvent_fatal:
  assumes "ctx \<noteq> drainCtx"
  shows "\<exists>r. ProcessEvent js ops cfg env ctx drainCtx ev db file = Some r \<and>
    (LogFatalf \<in> set (ir_calls r) \<longrightarrow> ir_outcome r = OutcomeDropped)"
  unfolding ProcessEvent_def
  by (rule process_loop_induct [OF assms, where Q = "\<lambda>_. True"]) (simp_all add: process_step_fatal)

lemma ingest_Run_returns:
  assumes "ctx \<noteq> drainCtx"
  shows "\<exists>db1 file1 os. ingest_Run js (sqlite_ops js tp) cfg ctx drainCtx evs db fl = Some (db1, file1, os) \<and>
    (length os = length evs \<or> os \<noteq> [] \<and> last os = OutcomeDropped)"
proof (induction evs arbitrary: db fl)
  case (Cons e evs)
  obtain env ev where e: "e = (env, ev)" by (metis surj_pair)
  obtain r where r: "ProcessEvent js (sqlite_ops js tp) cfg env ctx drainCtx (enrich cfg ev) db fl = Some r"
    and fatal: "LogFatalf \<in> set (ir_calls r) \<longrightarrow> ir_outcome r = OutcomeDropped"
    using ProcessEvent_fatal [OF assms(1)] by metis
  show ?case
  proof (cases "LogFatalf \<in> set (ir_calls r)")
    case True
    with fatal show ?thesis by (simp add: e r)
  next
    case False
    with Cons [of "ir_db r" "ir_file r"] show ?thesis by (auto simp: e r)
  qed
qed simp

lemma endpoint_start_started:
  assumes "endpoint_start tp env = Inr ep"
  shows "list_all (\<lambda>c. hc_started c \<and> \<not> hc_stopped c) [ep_inv ep, ep_net ep, ep_usb ep]"
proof -
  obtain db e where "Init tp (st_init env) (NewSQLiteStorage agentDBPath (st_identityPath env) storageQuotaBytes
      (st_disk env) (st_backup env) (st_idfile env)) = (db, e)" by (metis surj_pair)
  then show ?thesis
    using assms
    by (auto simp: endpoint_start_def hc_Start_def hc_NewCollector_def pc_Start_def pc_NewCollector_def fwd_Start_def
        NewForwarder_def Let_def split: sum.splits option.splits if_splits prod.splits)
qed


definition demo_start :: start_env where
  "demo_start = \<lparr>st_config = Inr demo_cfg_agent, st_identityPath = ''identity.json'', st_disk = empty_database, st_backup = False,
     st_idfile = False, st_init = demo_init_env, st_provider = Some (errors_New ''no provider''), st_ctxErr = None, st_now = 0,
     st_sample = demo_ps, st_fs = \<lparr>fe_NewWatcher = None, fe_Abs = Inr, fe_Add = (\<lambda>_. None)\<rparr>\<rparr>"

lemma demo_start_ok: "\<exists>ep. endpoint_start (\<lambda>_ _. None) demo_start = Inr ep"
proof -
  have "isl (endpoint_start (\<lambda>_ _. None) demo_start) = False" by code_simp
  then show ?thesis by (cases "endpoint_start (\<lambda>_ _. None) demo_start") auto
qed


section \<open>The tools\<close>

lemma synthetic_loop_returns:
  "0 < cnt \<Longrightarrow> int sent \<le> cnt \<Longrightarrow>
   \<exists>evs. synthetic_loop gen cnt flag seqNo sent = Some evs \<and> length evs = nat cnt - sent"
proof (induction "nat cnt - sent" arbitrary: seqNo sent)
  case 0
  then have "cnt = int sent" by simp
  with 0 show ?case by (subst synthetic_loop.simps) simp
next
  case (Suc d)
  show ?case
  proof (cases "int (Suc sent) \<ge> cnt")
    case True
    then show ?thesis using Suc.hyps(2) Suc.prems by (subst synthetic_loop.simps) (auto simp: Let_def)
  next
    case False
    moreover have "d = nat cnt - Suc sent" using Suc.hyps(2) by simp
    ultimately obtain evs where
      "synthetic_loop gen cnt flag (wrap64 (seqNo + 1)) (Suc sent) = Some evs" "length evs = nat cnt - Suc sent"
      using Suc.hyps(1) [of "Suc sent" "wrap64 (seqNo + 1)"] Suc.prems by auto
    then show ?thesis using False Suc.hyps(2) Suc.prems by (subst synthetic_loop.simps) (auto simp: Let_def)
  qed
qed

lemma synthetic_loop_only_if: "synthetic_loop gen cnt flag seqNo sent = Some evs \<Longrightarrow> 0 < cnt"
  by (rule synthetic_loop.raw_induct [where P = "\<lambda>gen cnt flag seqNo sent evs. 0 < cnt"])
     (auto simp: Let_def split: if_splits Option.bind_splits)

text \<open>
  C40. The synthetic agent ends exactly when a positive number of events is requested, and then has
  posted exactly that many; with a count of zero or less it runs forever.
\<close>

theorem synthetic_terminates_iff:
  "(\<exists>evs. synthetic_loop gen cnt flag seqNo 0 = Some evs \<and> length evs = nat cnt) = (0 < cnt) \<and>
   (synthetic_loop gen cnt flag seqNo 0 = None) = (cnt \<le> 0)"
  using synthetic_loop_returns [of cnt 0 gen flag seqNo] synthetic_loop_only_if [of gen cnt flag seqNo 0]
  by (cases "0 < cnt"; cases "synthetic_loop gen cnt flag seqNo 0") auto

text \<open>
  With its default URL the synthetic agent is never heard: the URL has no query, the server requires
  the tenant there, so it answers 400 to every event and queues nothing.
\<close>

theorem synthetic_default_rejected:
  "ServeHTTP js uuidP env now (synthetic_request query_Get synthetic_default_url ev) vk = (vk, 400)"
  by (simp add: ServeHTTP_def synthetic_request_def synthetic_default_url_def query_tenant_def)

text \<open>
  Without \<open>--verbose\<close> the validator does not disclose the serial number or the device path: its output is
  the same for two events that differ only in these two entries of the metadata.
\<close>

theorem printEvent_private:
  assumes "Metadata ev' = Some m'" "Metadata ev = Some m" "ev' = ev\<lparr>Metadata := Some m'\<rparr>"
    and "\<forall>k. k \<notin> {''serial_number'', ''device_path''} \<longrightarrow> m' k = m k"
  shows "printEvent fmt ts json ev' False = printEvent fmt ts json ev False"
  using assms by (simp add: printEvent_def print_field_def)

theorem printEvent_private_witness:
  "printEvent (\<lambda>_. []) (\<lambda>_. []) (\<lambda>_. []) (sample_event\<lparr>Metadata := Some [''serial_number'' \<mapsto> GStr ''S1'']\<rparr>) False =
   printEvent (\<lambda>_. []) (\<lambda>_. []) (\<lambda>_. []) (sample_event\<lparr>Metadata := Some [''serial_number'' \<mapsto> GStr ''S2'']\<rparr>) False"
  by (rule printEvent_private [where m' = "[''serial_number'' \<mapsto> GStr ''S1'']" and m = "[''serial_number'' \<mapsto> GStr ''S2'']"]) simp_all

text \<open>On a system without a resource provider the endpoint starts and runs without a coordinator.\<close>

lemma endpoint_without_provider:
  assumes "endpoint_start tp env = Inr ep" "st_provider env = other_NewOSResourceProvider"
  shows "ep_coordinator ep = None"
proof -
  have "endpoint_coordinator (NewSQLiteResourceProvider agentDBPath (st_provider env)) = None"
    by (simp add: assms(2) other_NewOSResourceProvider_def NewSQLiteResourceProvider_def agentDBPath_def endpoint_coordinator_def)
  with assms(1) show ?thesis
    by (auto simp: endpoint_start_def Let_def split: sum.splits prod.splits option.splits if_splits)
qed

text \<open>The validator stops its collector when it is interrupted, and without \<open>--verbose\<close> its whole output does not depend on
  the serial numbers and device paths of the events.\<close>

definition redacted :: "canonical_event \<Rightarrow> canonical_event" where
  "redacted ev = ev\<lparr>Metadata := map_option (\<lambda>m. m(''serial_number'' := None, ''device_path'' := None)) (Metadata ev)\<rparr>"

fun redacted_input :: "validator_input \<Rightarrow> validator_input" where
  "redacted_input (ValidatorEvent ev) = ValidatorEvent (redacted ev)"
| "redacted_input i = i"

lemma printEvent_redacted: "printEvent fmt ts json (redacted ev) False = printEvent fmt ts json ev False"
  by (simp add: printEvent_def redacted_def print_field_def split: option.split)

lemma validator_loop_redacted:
  "validator_loop (\<lambda>ev. printEvent fmt ts json ev False) (map redacted_input ins) c =
   validator_loop (\<lambda>ev. printEvent fmt ts json ev False) ins c"
  by (induction "\<lambda>ev. printEvent fmt ts json ev False" ins c rule: validator_loop.induct) (simp_all add: printEvent_redacted)

end
