(* ===== verification/Server_Ledger.thy ===== *)
theory Server_Ledger
  imports Server
begin

text \<open>
  What the server promises to its clients, and when it keeps it. The abstract server is a ledger: the keys of the
  accepted events, the keys of the rows and the keys of the alerts. The step relation of the
  concrete server (\<open>src/server/internal\<close>: handler, stream, consumer, repository) refines it through the
  abstraction \<open>abs_server\<close>. The second half is about progress: a worker whose services work
  settles every message, and one kind of message it can never settle.
\<close>

section \<open>The ledger\<close>

type_synonym row_key = "string \<times> string option"

record ledger =
  lg_accepted :: "(row_key \<times> bool) set"
  lg_rows :: "row_key set"
  lg_alerts :: "row_key set"

text \<open>An accepted event is remembered with whether it is to raise an alert. A row is written at most once, for an
  accepted event only, together with its alert.\<close>

inductive ledger_step :: "(string \<Rightarrow> go_error option) \<Rightarrow> pg_uuid \<Rightarrow> ledger \<Rightarrow> ledger \<Rightarrow> bool" for up u where
  ledger_accept: "Validate up ev = None \<Longrightarrow>
    ledger_step up u l (l\<lparr>lg_accepted := insert (event_key u ev, alerting ev) (lg_accepted l)\<rparr>)"
| ledger_persist: "(k, c) \<in> lg_accepted l \<Longrightarrow> k \<notin> lg_rows l \<Longrightarrow>
    ledger_step up u l (l\<lparr>lg_rows := insert k (lg_rows l), lg_alerts := (if c then insert k (lg_alerts l) else lg_alerts l)\<rparr>)"

abbreviation ledger_steps :: "(string \<Rightarrow> go_error option) \<Rightarrow> pg_uuid \<Rightarrow> ledger \<Rightarrow> ledger \<Rightarrow> bool" where
  "ledger_steps up u \<equiv> (ledger_step up u)\<^sup>*\<^sup>*"

definition abs_accepted :: "codec \<Rightarrow> (string \<Rightarrow> go_error option) \<Rightarrow> pg_uuid \<Rightarrow> valkey \<Rightarrow> (row_key \<times> bool) set" where
  "abs_accepted js up u vk = {(event_key u e, alerting e) | mid p e. (mid, p) \<in> set (vk_stream vk) \<and> valid_payload js up p e}"

definition abs_server :: "codec \<Rightarrow> (string \<Rightarrow> go_error option) \<Rightarrow> pg_uuid \<Rightarrow> valkey \<times> postgres \<Rightarrow> ledger" where
  "abs_server js up u s =
     \<lparr>lg_accepted = abs_accepted js up u (fst s), lg_rows = event_key u ` set (pg_events (snd s)),
      lg_alerts = alert_key u ` set (pg_alerts (snd s))\<rparr>"

definition ledger_init :: ledger where
  "ledger_init = \<lparr>lg_accepted = {}, lg_rows = {}, lg_alerts = {}\<rparr>"

definition ledger_inv :: "ledger \<Rightarrow> bool" where
  "ledger_inv l \<longleftrightarrow> lg_rows l \<subseteq> fst ` lg_accepted l \<and> lg_alerts l \<subseteq> lg_rows l \<inter> {k. (k, True) \<in> lg_accepted l}"

lemma ledger_step_inv: "ledger_step up u l l' \<Longrightarrow> ledger_inv l \<Longrightarrow> ledger_inv l'"
proof (induction rule: ledger_step.induct)
  case (ledger_persist k c l)
  then have "k \<in> fst ` lg_accepted l" by force
  with ledger_persist show ?case by (auto simp: ledger_inv_def)
qed (auto simp: ledger_inv_def)

lemma ledger_steps_inv: "ledger_steps up u l l' \<Longrightarrow> ledger_inv l \<Longrightarrow> ledger_inv l'"
  by (induction rule: rtranclp_induct) (auto intro: ledger_step_inv)

section \<open>Refinement\<close>

lemma abs_same_stream:
  "vk_stream vk' = vk_stream vk \<Longrightarrow> abs_server js up u (vk', pg) = abs_server js up u (vk, pg)"
  by (simp add: abs_server_def abs_accepted_def)

lemma persist_refines:
  assumes m: "(mid, p) \<in> set (vk_stream vk)" and v: "valid_payload js up p ev"
    and r: "PersistEvent u env ev pg = (pg', b, e)"
  shows "ledger_steps up u (abs_server js up u (vk, pg)) (abs_server js up u (vk, pg'))"
  using r
proof (cases rule: PersistEvent_cases)
  case written
  let ?l = "abs_server js up u (vk, pg)"
  have "(event_key u ev, alerting ev) \<in> lg_accepted ?l" using m v by (auto simp: abs_server_def abs_accepted_def)
  moreover have "event_key u ev \<notin> lg_rows ?l" using written(2) by (simp add: abs_server_def persisted_def)
  moreover have "abs_server js up u (vk, pg') = ?l\<lparr>lg_rows := insert (event_key u ev) (lg_rows ?l),
      lg_alerts := (if alerting ev then insert (event_key u ev) (lg_alerts ?l) else lg_alerts ?l)\<rparr>"
    by (auto simp: written(1) abs_server_def with_rows_def Let_def insert_absorb)
  ultimately show ?thesis using ledger_persist [of "event_key u ev" "alerting ev" ?l up u] by (simp add: r_into_rtranclp)
qed simp

lemma processMessage_stream: "vk_stream (fst (processMessage js up u env m rc idle s)) = vk_stream (fst s)"
  using processMessage_effect [of js up u m s env rc idle] by (simp add: message_effect_def)

lemma processMessage_refines:
  assumes "m \<in> set (vk_stream (fst s))"
  shows "ledger_steps up u (abs_server js up u s) (abs_server js up u (processMessage js up u env m rc idle s))"
proof -
  obtain vk pg where s: "s = (vk, pg)" by (metis surj_pair)
  obtain vk' pg' where r: "processMessage js up u env m rc idle s = (vk', pg')" by (metis surj_pair)
  have stream: "vk_stream vk' = vk_stream vk" using processMessage_stream [of js up u env m rc idle s] r s by simp
  have "pg' = pg \<or> (\<exists>ev b e. valid_payload js up (snd m) ev \<and> PersistEvent u (me_persist env) ev pg = (pg', b, e))"
    using r by (fastforce simp: processMessage_def s valid_payload_def split: payload.splits sum.splits option.splits prod.splits)
  moreover have "(fst m, snd m) \<in> set (vk_stream vk)" using assms by (simp add: s)
  ultimately have "ledger_steps up u (abs_server js up u (vk, pg)) (abs_server js up u (vk, pg'))"
    using persist_refines by blast
  then show ?thesis using abs_same_stream [OF stream] r s by simp
qed

lemma process_all_refines:
  "set ms \<subseteq> set (vk_stream (fst s)) \<Longrightarrow>
   ledger_steps up u (abs_server js up u s) (abs_server js up u (process_all js up u envs ms s))"
proof (induction js up u envs ms s rule: process_all.induct)
  case (1 js up u env envs m ms s)
  then have "ledger_steps up u (abs_server js up u s) (abs_server js up u (processMessage js up u env m 0 0 s))"
    by (intro processMessage_refines) simp
  with 1 show ?case by (simp add: processMessage_stream)
qed simp_all

lemma recover_one_refines: "ledger_steps up u (abs_server js up u s) (abs_server js up u (recover_one js up u env p s))"
  by (auto simp: recover_one_def split: option.split intro!: processMessage_refines dest: map_of_SomeD)

lemma recover_all_refines: "ledger_steps up u (abs_server js up u s) (abs_server js up u (recover_all js up u envs ps s))"
  by (induction js up u envs ps s rule: recover_all.induct) (auto intro: rtranclp_trans recover_one_refines)

lemma ServeHTTP_refines:
  assumes "ServeHTTP js up env now r vk = (vk', st)"
  shows "ledger_steps up u (abs_server js up u (vk, pg)) (abs_server js up u (vk', pg))"
  using assms
proof (cases rule: ServeHTTP_cases)
  case (added ev data)
  show ?thesis
  proof (cases "\<exists>e. valid_payload js up (PString data) e")
    case True
    then obtain e where e: "valid_payload js up (PString data) e" "Validate up e = None" by (auto simp: valid_payload_def)
    have "valid_payload js up (PString data) x \<longleftrightarrow> x = e" for x using e by (auto simp: valid_payload_def)
    then have "abs_accepted js up u vk' = insert (event_key u e, alerting e) (abs_accepted js up u vk)"
      by (auto simp: added(1) xadd_def abs_accepted_def)
    then have "abs_server js up u (vk', pg) = (abs_server js up u (vk, pg))\<lparr>lg_accepted := insert (event_key u e, alerting e)
        (lg_accepted (abs_server js up u (vk, pg)))\<rparr>" by (simp add: abs_server_def)
    with ledger_accept [OF e(2)] show ?thesis by (metis r_into_rtranclp)
  next
    case False
    then have "abs_accepted js up u vk' = abs_accepted js up u vk" by (auto simp: added(1) xadd_def abs_accepted_def)
    then show ?thesis by (simp add: abs_server_def)
  qed
qed simp

section \<open>Progress\<close>

text \<open>The services answer without errors.\<close>

definition services_ok :: "message_env \<Rightarrow> bool" where
  "services_ok env \<longleftrightarrow> me_dlqErr env = None \<and> me_ackErr env = None \<and> pe_beginErr (me_persist env) = None \<and>
     pe_insertErr (me_persist env) = None \<and> pe_alertErr (me_persist env) = None \<and> pe_commitErr (me_persist env) = None"

text \<open>PostgreSQL can store the identifier of every valid event.\<close>

definition ids_storable :: "(string \<Rightarrow> go_error option) \<Rightarrow> pg_uuid \<Rightarrow> bool" where
  "ids_storable up u \<longleftrightarrow> (\<forall>i. up i = None \<longrightarrow> u i \<noteq> None)"

lemma Validate_id: "Validate up ev = None \<Longrightarrow> up (EventID ev) = None"
  by (simp add: Validate_None_iff event_valid_def)

lemma PersistEvent_ok:
  assumes "services_ok env" "u (EventID ev) \<noteq> None"
  shows "snd (snd (PersistEvent u (me_persist env) ev pg)) = None"
  using assms by (auto simp: services_ok_def PersistEvent_def)

lemma processMessage_acks:
  assumes "services_ok env" "ids_storable up u"
  shows "vk_pending (fst (processMessage js up u env m rc idle s)) = filter (\<lambda>i. i \<noteq> fst m) (vk_pending (fst s))"
proof -
  obtain vk pg where s: "s = (vk, pg)" by (metis surj_pair)
  have p: "vk_pending (poison env mid t r ft rc idle vk) = filter (\<lambda>i. i \<noteq> mid) (vk_pending vk)" for mid t r ft
    using assms(1) by (simp add: poison_def sendToDLQ_def xack_def services_ok_def Let_def)
  have "PersistEvent u (me_persist env) ev pg \<noteq> (pg', b, Some e)" if "Validate up ev = None" for ev pg' b e
    using PersistEvent_ok [OF assms(1), of u ev pg] assms(2) Validate_id [OF that] by (auto simp: ids_storable_def)
  then show ?thesis
    using assms(1) p
    by (auto simp: processMessage_def s xack_def services_ok_def split: payload.split sum.split option.split prod.split)
qed

lemma processMessage_delivered: "vk_delivered (fst (processMessage js up u env m rc idle s)) = vk_delivered (fst s)"
  using processMessage_effect [of js up u m s env rc idle] by (simp add: message_effect_def)

lemma process_all_acks:
  "\<forall>env \<in> set envs. services_ok env \<Longrightarrow> ids_storable up u \<Longrightarrow> length ms \<le> length envs \<Longrightarrow>
   vk_pending (fst (process_all js up u envs ms s)) = filter (\<lambda>i. i \<notin> fst ` set ms) (vk_pending (fst s)) \<and>
   vk_delivered (fst (process_all js up u envs ms s)) = vk_delivered (fst s) \<and>
   vk_stream (fst (process_all js up u envs ms s)) = vk_stream (fst s)"
proof (induction js up u envs ms s rule: process_all.induct)
  case (1 js up u env envs m ms s)
  then have "vk_pending (fst (processMessage js up u env m 0 0 s)) = filter (\<lambda>i. i \<noteq> fst m) (vk_pending (fst s))"
    by (intro processMessage_acks) simp_all
  with 1 show ?case
    by (auto simp: processMessage_delivered processMessage_stream intro: filter_cong)
qed simp_all

lemma consume_round_ok:
  assumes "\<forall>env \<in> set envs. services_ok env" "ids_storable up u" "10 \<le> length envs" "vk_pending (fst s) = []"
  shows "vk_pending (fst (consume_round js up u 10 envs s)) = [] \<and>
    vk_delivered (fst (consume_round js up u 10 envs s)) =
      vk_delivered (fst s) + min 10 (length (vk_stream (fst s)) - vk_delivered (fst s)) \<and>
    vk_stream (fst (consume_round js up u 10 envs s)) = vk_stream (fst s)"
proof -
  let ?ms = "take 10 (drop (vk_delivered (fst s)) (vk_stream (fst s)))"
  let ?vk = "(fst s)\<lparr>vk_delivered := vk_delivered (fst s) + length ?ms, vk_pending := vk_pending (fst s) @ map fst ?ms\<rparr>"
  have x: "xreadgroup 10 (fst s) = (?ms, ?vk)" by (simp add: xreadgroup_def Let_def)
  have "length ?ms \<le> length envs" using assms(3) by simp
  note p = process_all_acks [OF assms(1,2) this, of js "(?vk, snd s)"]
  have "filter (\<lambda>i. i \<notin> fst ` set ?ms) (map fst ?ms) = []" by (auto simp: filter_empty_conv simp del: set_take_subset_set_take)
  with p assms(4) show ?thesis by (simp add: consume_round_def x min.commute)
qed

lemma consumer_rounds_ok:
  assumes "\<forall>r \<in> set rs. \<exists>envs. r = (False, ReadMessages 10 envs) \<and> 10 \<le> length envs \<and> (\<forall>env \<in> set envs. services_ok env)"
    and "ids_storable up u" "vk_pending (fst s) = []" "length (vk_stream (fst s)) \<le> vk_delivered (fst s) + 10 * length rs"
  shows "vk_pending (fst (consumer_loop js up u rs s)) = [] \<and>
    length (vk_stream (fst s)) \<le> vk_delivered (fst (consumer_loop js up u rs s)) \<and>
    vk_stream (fst (consumer_loop js up u rs s)) = vk_stream (fst s)"
  using assms
proof (induction rs arbitrary: s)
  case (Cons r rs)
  then obtain envs where r: "r = (False, ReadMessages 10 envs)" "10 \<le> length envs" "\<forall>env \<in> set envs. services_ok env" by auto
  note c = consume_round_ok [OF r(3) Cons.prems(2) r(2) Cons.prems(3), of js]
  show ?case using Cons.IH [of "consume_round js up u 10 envs s"] Cons.prems c by (simp add: r(1))
qed simp

text \<open>Pending entries are entries of the stream.\<close>

definition pending_known :: "valkey \<times> postgres \<Rightarrow> bool" where
  "pending_known s \<longleftrightarrow> set (vk_pending (fst s)) \<subseteq> fst ` set (vk_stream (fst s))"

lemma processMessage_pending: "set (vk_pending (fst (processMessage js up u env m rc idle s))) \<subseteq> set (vk_pending (fst s))"
  by (auto simp: processMessage_def poison_def sendToDLQ_def xack_def Let_def
      split: prod.splits payload.splits sum.splits option.splits if_splits)

lemma processMessage_known: "pending_known s \<Longrightarrow> pending_known (processMessage js up u env m rc idle s)"
  using processMessage_pending unfolding pending_known_def processMessage_stream by blast

lemma process_all_known: "pending_known s \<Longrightarrow> pending_known (process_all js up u envs ms s)"
  by (induction js up u envs ms s rule: process_all.induct) (simp_all add: processMessage_known)

lemma recover_all_known: "pending_known s \<Longrightarrow> pending_known (recover_all js up u envs ps s)"
  by (induction js up u envs ps s rule: recover_all.induct)
     (auto simp: recover_one_def processMessage_known split: option.split)

lemma server_step_known: "server_step js up u s s' \<Longrightarrow> pending_known s \<Longrightarrow> pending_known s'"
proof (induction rule: server_step.induct)
  case (ingest env now r vk vk' st pg)
  from ingest(1) show ?case by (cases rule: ServeHTTP_cases) (use ingest(3) in \<open>auto simp: pending_known_def xadd_def\<close>)
next
  case (consume s n envs)
  let ?ms = "take (min n 10) (drop (vk_delivered (fst s)) (vk_stream (fst s)))"
  have "fst ` set ?ms \<subseteq> fst ` set (vk_stream (fst s))" by (auto dest!: in_set_takeD in_set_dropD)
  with consume show ?case
    unfolding consume_round_def xreadgroup_def Let_def prod.case
    by (intro process_all_known) (simp add: pending_known_def)
next
  case (recover s envs r)
  then show ?case by (simp add: recoverPending_def recover_all_known split: sum.split)
qed

lemma server_reach_known: "(server_step js up u)\<^sup>*\<^sup>* server_init s \<Longrightarrow> pending_known s"
proof (induction rule: rtranclp_induct)
  case base
  show ?case by (simp add: pending_known_def server_init_def)
qed (rule server_step_known)

text \<open>Recovery acknowledges every entry that is idle long enough.\<close>

lemma recover_all_acks:
  assumes "\<forall>env \<in> set envs. services_ok env" "ids_storable up u" "length ps \<le> length envs"
    and "\<forall>p \<in> set ps. pi_Idle p > MinIdleTime \<and> pi_claimErr p = None \<and> pi_rangeErr p = None \<and> pi_ID p \<in> fst ` set (vk_stream (fst s))"
  shows "set (vk_pending (fst (recover_all js up u envs ps s))) = set (vk_pending (fst s)) - pi_ID ` set ps \<and>
    vk_delivered (fst (recover_all js up u envs ps s)) = vk_delivered (fst s) \<and>
    vk_stream (fst (recover_all js up u envs ps s)) = vk_stream (fst s)"
  using assms
proof (induction js up u envs ps s rule: recover_all.induct)
  case (1 js up u env envs p ps s)
  then have "pi_ID p \<in> fst ` set (vk_stream (fst s))" by simp
  then obtain pl where pl: "map_of (vk_stream (fst s)) (pi_ID p) = Some pl"
    by (metis map_of_eq_None_iff not_Some_eq)
  let ?s = "processMessage js up u env (pi_ID p, pl) (pi_RetryCount p) (pi_Idle p) s"
  have one: "recover_one js up u env p s = ?s" using "1.prems"(4) pl by (simp add: recover_one_def)
  have "set (vk_pending (fst ?s)) = set (vk_pending (fst s)) - {pi_ID p}"
    using processMessage_acks [of env up u js "(pi_ID p, pl)"] "1.prems"(1,2) by auto
  with 1 one show ?case by (auto simp: processMessage_delivered processMessage_stream)
qed simp_all

lemma server_step_refines:
  assumes "server_step js up u s s'"
  shows "ledger_steps up u (abs_server js up u s) (abs_server js up u s')"
  using assms
proof (induction rule: server_step.induct)
  case (ingest env now r vk vk' st pg)
  from ServeHTTP_refines [OF ingest(1)] show ?case .
next
  case (consume s n envs)
  let ?ms = "take (min n 10) (drop (vk_delivered (fst s)) (vk_stream (fst s)))"
  let ?vk = "(fst s)\<lparr>vk_delivered := vk_delivered (fst s) + length ?ms, vk_pending := vk_pending (fst s) @ map fst ?ms\<rparr>"
  have "set ?ms \<subseteq> set (vk_stream (fst s))" by (auto dest!: in_set_takeD in_set_dropD)
  then have "ledger_steps up u (abs_server js up u (?vk, snd s)) (abs_server js up u (process_all js up u envs ?ms (?vk, snd s)))"
    by (intro process_all_refines) simp
  moreover have "abs_server js up u (?vk, snd s) = abs_server js up u s"
    using abs_same_stream [of ?vk "fst s" js up u "snd s"] by simp
  ultimately show ?case by (simp add: consume_round_def xreadgroup_def Let_def)
next
  case (recover s envs r)
  show ?case by (simp add: recoverPending_def recover_all_refines split: sum.split)
qed

lemma server_reach_ledger: "(server_step js up u)\<^sup>*\<^sup>* s s' \<Longrightarrow> ledger_steps up u (abs_server js up u s) (abs_server js up u s')"
proof (induction rule: rtranclp_induct)
  case (step y z)
  with server_step_refines [OF step(2)] show ?case by simp
qed simp

text \<open>A start of the consumer with working services: the consumer group exists or is created, all pending entries (at
  most 100) are reported and idle for more than a minute, and the rounds of the loop, ten messages each, are
  enough for the backlog.\<close>

definition healthy_round :: "bool \<times> read_answer \<Rightarrow> bool" where
  "healthy_round r = (case r of (False, ReadMessages n envs) \<Rightarrow> n = 10 \<and> 10 \<le> length envs \<and> list_all services_ok envs | _ \<Rightarrow> False)"

definition healthy_worker ::
    "go_error option \<Rightarrow> message_env list \<Rightarrow> pending_info list \<Rightarrow> (bool \<times> read_answer) list \<Rightarrow> valkey \<Rightarrow> bool" where
  "healthy_worker groupErr envs ps rs vk \<longleftrightarrow>
     (case groupErr of None \<Rightarrow> True | Some e \<Rightarrow> HasPrefix (err_text e) ''BUSYGROUP'') \<and>
     pi_ID ` set ps = set (vk_pending vk) \<and> length ps \<le> 100 \<and> length ps \<le> length envs \<and>
     list_all (\<lambda>p. pi_Idle p > MinIdleTime \<and> pi_claimErr p = None \<and> pi_rangeErr p = None) ps \<and>
     list_all services_ok envs \<and> list_all healthy_round rs \<and> length (vk_stream vk) \<le> vk_delivered vk + 10 * length rs"

lemma healthy_round_iff:
  "healthy_round r \<longleftrightarrow> (\<exists>envs. r = (False, ReadMessages 10 envs) \<and> 10 \<le> length envs \<and> (\<forall>env \<in> set envs. services_ok env))"
  by (auto simp: healthy_round_def list_all_iff split: prod.split bool.split read_answer.split)

lemma consumer_settles:
  assumes reach: "(server_step js up u)\<^sup>*\<^sup>* server_init s" and ids: "ids_storable up u"
    and ok: "healthy_worker groupErr envs ps rs (fst s)"
    and run: "consumer_Start js up u groupErr envs (Inr ps) False rs s = (s', err)"
  shows "err = None \<and> vk_pending (fst s') = [] \<and> vk_stream (fst s') = vk_stream (fst s) \<and>
    (\<forall>(mid, p) \<in> set (vk_stream (fst s)). settled js up u s' mid p)"
proof -
  have grp: "case groupErr of None \<Rightarrow> True | Some e \<Rightarrow> HasPrefix (err_text e) ''BUSYGROUP''"
    and ps: "pi_ID ` set ps = set (vk_pending (fst s))" "length ps \<le> 100" "length ps \<le> length envs"
    and idle: "\<forall>p \<in> set ps. pi_Idle p > MinIdleTime \<and> pi_claimErr p = None \<and> pi_rangeErr p = None"
    and envs: "\<forall>env \<in> set envs. services_ok env"
    and rounds: "\<forall>r \<in> set rs. \<exists>envs. r = (False, ReadMessages 10 envs) \<and> 10 \<le> length envs \<and> (\<forall>env \<in> set envs. services_ok env)"
    and enough: "length (vk_stream (fst s)) \<le> vk_delivered (fst s) + 10 * length rs"
    using ok by (simp_all add: healthy_worker_def list_all_iff healthy_round_iff)
  let ?s1 = "recover_all js up u envs ps s"
  have s': "s' = consumer_loop js up u rs ?s1" "err = None"
    using run grp ps(2) by (auto simp: consumer_Start_def recoverPending_def Let_def split: option.splits if_splits)
  have "\<forall>p \<in> set ps. pi_Idle p > MinIdleTime \<and> pi_claimErr p = None \<and> pi_rangeErr p = None \<and> pi_ID p \<in> fst ` set (vk_stream (fst s))"
    using idle ps(1) server_reach_known [OF reach] unfolding pending_known_def by blast
  note rec = recover_all_acks [OF envs ids ps(3) this, of js]
  have p1: "vk_pending (fst ?s1) = []" using rec ps(1) by simp
  have "length (vk_stream (fst ?s1)) \<le> vk_delivered (fst ?s1) + 10 * length rs" using rec enough by simp
  note loop = consumer_rounds_ok [OF rounds ids p1 this, of js, folded s'(1)]
  have inv: "server_inv js up u s'"
    using server_reach_inv [OF rtranclp_trans [OF reach consumer_Start_steps] server_init_inv] run by (metis fst_conv)
  have "settled js up u s' mid p" if "(mid, p) \<in> set (vk_stream (fst s))" for mid p
    using server_message [of js up u "fst s'" "snd s'" mid p] inv loop rec that by simp
  with s' loop rec show ?thesis by auto
qed

section \<open>Properties\<close>

text \<open>
  C5. The server refines the ledger: whatever request arrives and whatever Valkey and PostgreSQL answer, a step of
  the handler, of the consumer or of the recovery is a sequence of steps of the ledger, which only
  accept valid events and write, at most once, a row for an accepted event together with its alert.
\<close>

theorem server_refines_ledger:
  "server_step js up u s s' \<Longrightarrow> ledger_steps up u (abs_server js up u s) (abs_server js up u s')"
  by (rule server_step_refines)

theorem server_refines_ledger_witness:
  "ledger_steps (\<lambda>_. None) Some (abs_server demo_js (\<lambda>_. None) Some server_init)
     (abs_server demo_js (\<lambda>_. None) Some (demo_vk, snd server_init))"
  using server_refines_ledger [OF server_step.ingest [OF demo_ingest, where pg = "snd server_init" and u = Some]]
  by (simp add: server_init_def)

text \<open>
  No row is forged: in every reachable state each row of the events table has the key of an event that the
  handler accepted and that is in the stream, valid and under its tenant, and each alert belongs to a
  row whose event was accepted as CRITICAL or FATAL.
\<close>

theorem rows_were_accepted:
  assumes "(server_step js up u)\<^sup>*\<^sup>* server_init (vk, pg)"
  shows "(\<forall>ev \<in> set (pg_events pg). \<exists>mid p e. (mid, p) \<in> set (vk_stream vk) \<and> valid_payload js up p e \<and> event_key u e = event_key u ev) \<and>
    (\<forall>al \<in> set (pg_alerts pg). \<exists>mid p e. (mid, p) \<in> set (vk_stream vk) \<and> valid_payload js up p e \<and>
       event_key u e = alert_key u al \<and> alerting e)"
proof -
  have "abs_server js up u server_init = ledger_init" by (simp add: abs_server_def abs_accepted_def server_init_def ledger_init_def)
  moreover have "ledger_inv ledger_init" by (simp add: ledger_inv_def ledger_init_def)
  ultimately have "ledger_inv (abs_server js up u (vk, pg))"
    using ledger_steps_inv server_reach_ledger [OF assms] by metis
  then have rows: "event_key u ` set (pg_events pg) \<subseteq> fst ` abs_accepted js up u vk"
    and alerts: "alert_key u ` set (pg_alerts pg) \<subseteq> {k. (k, True) \<in> abs_accepted js up u vk}"
    by (simp_all add: ledger_inv_def abs_server_def)
  show ?thesis
  proof (intro conjI ballI)
    fix ev assume "ev \<in> set (pg_events pg)"
    with rows have "event_key u ev \<in> fst ` abs_accepted js up u vk" by blast
    then show "\<exists>mid p e. (mid, p) \<in> set (vk_stream vk) \<and> valid_payload js up p e \<and> event_key u e = event_key u ev"
      by (auto simp: abs_accepted_def) metis
  next
    fix al assume "al \<in> set (pg_alerts pg)"
    with alerts have "(alert_key u al, True) \<in> abs_accepted js up u vk" by blast
    then show "\<exists>mid p e. (mid, p) \<in> set (vk_stream vk) \<and> valid_payload js up p e \<and> event_key u e = alert_key u al \<and> alerting e"
      by (auto simp: abs_accepted_def) metis
  qed
qed

text \<open>The event of the example, persisted by one round of the consumer.\<close>

definition demo_done :: "valkey \<times> postgres" where
  "demo_done = consume_round demo_js (\<lambda>_. None) Some 10 (replicate 10 demo_menv) (demo_vk, snd server_init)"

lemma demo_done_reach: "(server_step demo_js (\<lambda>_. None) Some)\<^sup>*\<^sup>* server_init demo_done"
  using demo_server_reach server_step.consume unfolding demo_done_def by (rule rtranclp.rtrancl_into_rtrancl)

lemma demo_done_rows: "length (pg_events (snd demo_done)) = 1" by code_simp

theorem rows_were_accepted_witness:
  "\<exists>mid p e. (mid, p) \<in> set (vk_stream (fst demo_done)) \<and> valid_payload demo_js (\<lambda>_. None) p e \<and>
     event_key Some e = event_key Some (hd (pg_events (snd demo_done)))"
proof -
  have "(server_step demo_js (\<lambda>_. None) Some)\<^sup>*\<^sup>* server_init (fst demo_done, snd demo_done)" using demo_done_reach by simp
  from rows_were_accepted [OF this] demo_done_rows show ?thesis by (metis length_0_conv list.set_sel(1) zero_neq_one)
qed


text \<open>The worker crashed after the delivery; the next one finds the entry pending, a minute later.\<close>

definition demo_crashed :: "valkey \<times> postgres" where
  "demo_crashed = consume_round demo_js (\<lambda>_. None) Some 10 [] (demo_vk, snd server_init)"

definition demo_info :: pending_info where
  "demo_info = \<lparr>pi_ID = ''1-0'', pi_Idle = 90 * second, pi_RetryCount = 1, pi_claimErr = None, pi_rangeErr = None\<rparr>"

lemma demo_crashed_eq: "demo_crashed = (demo_vk\<lparr>vk_delivered := 1, vk_pending := [''1-0'']\<rparr>, snd server_init)"
  by (simp add: demo_crashed_def consume_round_def xreadgroup_def demo_vk_def Let_def)


text \<open>
  C19. Events that PostgreSQL cannot store block the recovery: an identifier can pass the validation and still not be
  an input of the column's type (\<open>uuid.Parse\<close> reads the form \<open>urn:uuid:...\<close>, PostgreSQL does not). Such an event
  is neither persisted nor dead-lettered, its entry stays pending whatever the services answer, and once
  the first hundred pending entries are of this kind the recovery changes nothing at all, so that no
  later entry is ever recovered.
\<close>

theorem unstorable_events_block_recovery:
  assumes "\<forall>p \<in> set (take 100 ps). \<exists>pl e. map_of (vk_stream (fst s)) (pi_ID p) = Some pl \<and>
      valid_payload js up pl e \<and> u (EventID e) = None"
  shows "fst (recoverPending js up u envs (Inr ps) s) = s"
proof -
  have one: "recover_one js up u env p s = s"
    if "map_of (vk_stream (fst s)) (pi_ID p) = Some pl" "valid_payload js up pl e" "u (EventID e) = None" for env p pl e
    using that by (auto simp: recover_one_def processMessage_def valid_payload_def PersistEvent_def split: prod.split option.split)
  have "recover_all js up u envs qs s = s"
    if "\<forall>p \<in> set qs. \<exists>pl e. map_of (vk_stream (fst s)) (pi_ID p) = Some pl \<and> valid_payload js up pl e \<and> u (EventID e) = None" for qs
    using that
  proof (induction qs arbitrary: envs)
    case (Cons q qs)
    then have "recover_one js up u env q s = s" for env using one by auto
    with Cons show ?case by (cases envs) simp_all
  qed simp
  with assms show ?thesis by (simp add: recoverPending_def)
qed

theorem unstorable_events_block_recovery_witness:
  "fst (recoverPending demo_js (\<lambda>_. None) (\<lambda>_. None) [demo_menv] (Inr [demo_info]) demo_crashed) = demo_crashed"
proof (rule unstorable_events_block_recovery)
  have "vk_stream (fst demo_crashed) = [(''1-0'', PString ''x'')]" by (simp add: demo_crashed_eq demo_vk_def)
  then have "map_of (vk_stream (fst demo_crashed)) (pi_ID demo_info) = Some (PString ''x'')" by (simp add: demo_info_def)
  moreover have "valid_payload demo_js (\<lambda>_. None) (PString ''x'') sample_event"
    using sample_event_valid by (simp add: valid_payload_def Deserialize_def demo_js_def)
  ultimately show "\<forall>p \<in> set (take 100 [demo_info]). \<exists>pl e. map_of (vk_stream (fst demo_crashed)) (pi_ID p) = Some pl \<and>
      valid_payload demo_js (\<lambda>_. None) pl e \<and> (\<lambda>_. None) (EventID e) = None" by auto
qed

end
