(* ===== verification/Delivery.thy ===== *)
theory Delivery
  imports Agent Server_Ledger
begin

text \<open>
  The way of an event from the endpoint to the database: the agent (\<open>src/agent\<close>) and the server
  (\<open>src/server\<close>) as one system. The forwarder's request is the input of the ingest handler, and the handler's
  answer is what the forwarder's client returns, unless it is lost on the way. All other steps of the
  agent and of the server interleave freely.
\<close>

section \<open>The system\<close>

definition maxIngestBodyBytes :: nat where
  "maxIngestBodyBytes = 2 ^ 20"

text \<open>The request that \<open>sendEvent\<close> builds, as the handler reads it: the tenant in the query, and a body with
  the JSON text of one event.\<close>

definition forwarder_request :: "codec \<Rightarrow> forwarder \<Rightarrow> string \<Rightarrow> http_request" where
  "forwarder_request js f payload =
     \<lparr>req_Method = ''POST'', req_tenant_id = fwd_tenantID f,
      req_body = (if length payload > maxIngestBodyBytes then BodyTooLarge
                  else case json_Unmarshal js payload of Inl _ \<Rightarrow> BodyBad | Inr ev \<Rightarrow> BodyEvent ev),
      req_trailing = TrailingEOF\<rparr>"

text \<open>A request that arrives at the server, and its answer, which may be lost.\<close>

inductive system_step ::
    "codec \<Rightarrow> (string \<Rightarrow> string \<Rightarrow> go_time option) \<Rightarrow> (string \<Rightarrow> go_error option) \<Rightarrow> pg_uuid \<Rightarrow>
     agent \<times> valkey \<times> postgres \<Rightarrow> agent \<times> valkey \<times> postgres \<Rightarrow> bool" for js tp up u where
  sys_agent: "agent_step js tp a b \<Longrightarrow> ag_accepted b = ag_accepted a \<Longrightarrow> fwd_tenantID (ag_fwd b) = fwd_tenantID (ag_fwd a) \<Longrightarrow>
    system_step js tp up u (a, s) (b, s)"
| sys_post: "ag_batch a = ev # evs \<Longrightarrow> TenantID ev = fwd_tenantID (ag_fwd a) \<Longrightarrow> json_Marshal js ev = Inr payload \<Longrightarrow>
    pub_id penv \<notin> fst ` set (vk_stream vk) \<Longrightarrow>
    ServeHTTP js up penv now (forwarder_request js (ag_fwd a) payload) vk = (vk', status) \<Longrightarrow>
    (case se_Do env of Inl _ \<Rightarrow> True | Inr resp \<Rightarrow> StatusCode resp = int status) \<Longrightarrow> se_NewRequest env = None \<Longrightarrow>
    sendEvent js (sqlite_ops js tp) env ev (ag_fwd a, ag_db a) = (f, db) \<Longrightarrow>
    system_step js tp up u (a, vk, pg)
      (\<lparr>ag_db = db, ag_fwd = f, ag_batch = evs,
        ag_accepted = (if posted js (ag_fwd a) env ev then insert (EventID ev) (ag_accepted a) else ag_accepted a)\<rparr>, vk', pg)"
| sys_server: "server_step js up u s s' \<Longrightarrow> system_step js tp up u (a, s) (a, s')"

text \<open>What both ends rely on in the JSON codec: a valid event is read back with its identity, and an event that is
  valid after reading had this identifier before.\<close>

definition codec_faithful :: "codec \<Rightarrow> (string \<Rightarrow> go_error option) \<Rightarrow> bool" where
  "codec_faithful js up \<longleftrightarrow>
     (\<forall>e data. json_Marshal js e = Inr data \<longrightarrow> Validate up e = None \<longrightarrow>
        (\<exists>e'. json_Unmarshal js data = Inr e' \<and> Validate up e' = None \<and> TenantID e' = TenantID e \<and> EventID e' = EventID e)) \<and>
     (\<forall>e data e' t. json_Marshal js e = Inr data \<longrightarrow> json_Unmarshal js data = Inr e' \<longrightarrow> Validate up (e'\<lparr>ReceivedAt := t\<rparr>) = None \<longrightarrow>
        EventID e' = EventID e)"

text \<open>The message of an event: in the stream, valid, under its tenant and identifier.\<close>

definition in_stream :: "codec \<Rightarrow> (string \<Rightarrow> go_error option) \<Rightarrow> valkey \<Rightarrow> string \<Rightarrow> string \<Rightarrow> string \<times> payload \<times> canonical_event \<Rightarrow> bool" where
  "in_stream js up vk tenant i m \<longleftrightarrow>
     (case m of (mid, p, e) \<Rightarrow> (mid, p) \<in> set (vk_stream vk) \<and> valid_payload js up p e \<and> TenantID e = tenant \<and> EventID e = i)"

definition system_inv ::
    "codec \<Rightarrow> (string \<Rightarrow> go_error option) \<Rightarrow> pg_uuid \<Rightarrow> string \<Rightarrow> agent \<times> valkey \<times> postgres \<Rightarrow> bool" where
  "system_inv js up u tenant sys \<longleftrightarrow>
     (case sys of (a, s) \<Rightarrow>
        fwd_tenantID (ag_fwd a) = tenant \<and> server_inv js up u s \<and>
        (\<forall>i \<in> ag_accepted a. \<exists>m. in_stream js up (fst s) tenant i m))"

section \<open>Lemmas\<close>

lemma in_stream_mono: "set (vk_stream vk) \<subseteq> set (vk_stream vk') \<Longrightarrow> in_stream js up vk t i m \<Longrightarrow> in_stream js up vk' t i m"
  by (auto simp: in_stream_def)

lemma sendEvent_tenant: "fwd_tenantID (fst (sendEvent js ops env ev (f, s))) = fwd_tenantID f"
  by (simp add: sendEvent_def Let_def split: sum.split option.split)

text \<open>The agent's part of a step of the system is a step of the agent, or nothing.\<close>

lemma system_step_agent: "system_step js tp up u x y \<Longrightarrow> agent_step js tp (fst x) (fst y) \<or> fst y = fst x"
proof (induction rule: system_step.induct)
  case (sys_post a ev evs payload penv vk now vk' status env f db pg)
  from agent_step.agent_send [OF sys_post(1,8)] show ?case by simp
qed simp_all

lemma system_steps_agent: "(system_step js tp up u)\<^sup>*\<^sup>* x y \<Longrightarrow> (agent_step js tp)\<^sup>*\<^sup>* (fst x) (fst y)"
proof (induction rule: rtranclp_induct)
  case (step y z)
  from system_step_agent [OF step(2)] step(3) show ?case
    by (elim disjE) (simp_all add: rtranclp.rtrancl_into_rtrancl)
qed simp

lemma codec_valid:
  assumes "codec_faithful js up" "json_Marshal js e = Inr data" "Validate up e = None"
  obtains e' where "json_Unmarshal js data = Inr e'" "Validate up e' = None" "TenantID e' = TenantID e" "EventID e' = EventID e"
  using assms unfolding codec_faithful_def by blast

lemma codec_read:
  "codec_faithful js up \<Longrightarrow> json_Marshal js e = Inr data \<Longrightarrow> json_Unmarshal js data = Inr e' \<Longrightarrow>
   Validate up (e'\<lparr>ReceivedAt := t\<rparr>) = None \<Longrightarrow> EventID e' = EventID e"
  unfolding codec_faithful_def by blast

lemma accepted_in_stream:
  assumes codec: "codec_faithful js up" and m: "json_Marshal js ev = Inr payload"
    and h: "ServeHTTP js up penv now (forwarder_request js f payload) vk = (vk', 202)"
  shows "\<exists>m. in_stream js up vk' (fwd_tenantID f) (EventID ev) m"
proof -
  from h obtain e data where d: "(pub_id penv, PString data) \<in> set (vk_stream vk')"
    "req_body (forwarder_request js f payload) = BodyEvent e" "json_Marshal js (e\<lparr>ReceivedAt := now\<rparr>) = Inr data"
    "Validate up (e\<lparr>ReceivedAt := now\<rparr>) = None" "TenantID e = fwd_tenantID f"
    by (rule accepted_message) (simp_all add: Serialize_def, simp add: forwarder_request_def)
  have un: "json_Unmarshal js payload = Inr e"
    using d(2) by (simp add: forwarder_request_def split: if_splits sum.splits)
  have "EventID e = EventID ev" by (rule codec_read [OF codec m un d(4)])
  moreover obtain e' where "json_Unmarshal js data = Inr e'" "Validate up e' = None" "TenantID e' = TenantID e" "EventID e' = EventID e"
    by (rule codec_valid [OF codec d(3,4)]) simp
  ultimately have "in_stream js up vk' (fwd_tenantID f) (EventID ev) (pub_id penv, PString data, e')"
    using d(1,5) by (simp add: in_stream_def valid_payload_def Deserialize_def)
  then show ?thesis by blast
qed

lemma system_step_inv:
  assumes codec: "codec_faithful js up"
  shows "system_step js tp up u x y \<Longrightarrow> system_inv js up u tenant x \<Longrightarrow> system_inv js up u tenant y"
proof (induction rule: system_step.induct)
  case (sys_agent a b s)
  then show ?case by (simp add: system_inv_def)
next
  case (sys_post a ev evs payload penv vk now vk' status env f db pg)
  have inv: "fwd_tenantID (ag_fwd a) = tenant" "server_inv js up u (vk, pg)"
    "\<forall>i \<in> ag_accepted a. \<exists>m. in_stream js up vk tenant i m"
    using sys_post(9) by (simp_all add: system_inv_def)
  have st: "server_inv js up u (vk', pg)" "set (vk_stream vk) \<subseteq> set (vk_stream vk')"
    using server_step_inv [OF server_step.ingest [OF sys_post(5,4)] inv(2)] by simp_all
  have "fwd_tenantID f = tenant"
    using sendEvent_tenant [of js "sqlite_ops js tp" env ev "ag_fwd a" "ag_db a"] inv(1) by (simp add: sys_post(8))
  moreover have "\<exists>m. in_stream js up vk' tenant i m" if "i \<in> ag_accepted a" for i
    using inv(3) that in_stream_mono [OF st(2)] by blast
  moreover have "\<exists>m. in_stream js up vk' tenant (EventID ev) m" if p: "posted js (ag_fwd a) env ev"
  proof -
    have "status = 202" using p sys_post(6) by (auto simp: posted_def accepted_def split: sum.splits)
    from accepted_in_stream [OF codec sys_post(3) sys_post(5) [unfolded this]] inv(1) show ?thesis by simp
  qed
  ultimately show ?case using st(1) by (simp add: system_inv_def)
next
  case (sys_server s s' a)
  then have "server_inv js up u s' \<and> set (vk_stream (fst s)) \<subseteq> set (vk_stream (fst s'))"
    by (intro server_step_inv [OF sys_server(1)]) (simp add: system_inv_def)
  with sys_server(2) show ?case using in_stream_mono by (simp add: system_inv_def) blast
qed

lemma system_steps_inv:
  "(system_step js tp up u)\<^sup>*\<^sup>* x y \<Longrightarrow> codec_faithful js up \<Longrightarrow> system_inv js up u tenant x \<Longrightarrow> system_inv js up u tenant y"
  by (induction rule: rtranclp_induct) (auto intro: system_step_inv)

section \<open>Properties\<close>


text \<open>A run of the whole system: the event is stored, fetched, posted, delivered and persisted.\<close>

definition demo_wire :: codec where
  "demo_wire = \<lparr>json_Marshal = (\<lambda>e. if EventID e = EventID critical_event \<and> TenantID e = TenantID critical_event then Inr ''x'' else Inl (errors_New ''no'')),
     json_Unmarshal = (\<lambda>_. Inr critical_event)\<rparr>"

lemma demo_wire_faithful: "codec_faithful demo_wire (\<lambda>_. None)"
proof -
  have "Validate (\<lambda>_. None) critical_event = None" by code_simp
  then show ?thesis by (simp add: codec_faithful_def demo_wire_def)
qed

definition demo_stored :: agent where
  "demo_stored = demo_agent\<lparr>ag_db := fst (Store demo_wire demo_env critical_event demo_store), ag_accepted := {}\<rparr>"

definition demo_fetched :: agent where
  "demo_fetched =
     (case GetPendingEvents demo_wire demo_env 50 (ag_db demo_stored) of
        (db, r) \<Rightarrow> demo_stored\<lparr>ag_db := db, ag_batch := (case r of Inl e \<Rightarrow> [] | Inr evs \<Rightarrow> evs)\<rparr>)"

definition demo_posted :: agent where
  "demo_posted =
     (case sendEvent demo_wire (sqlite_ops demo_wire (\<lambda>_ _. None)) demo_send (hd (ag_batch demo_fetched)) (ag_fwd demo_fetched, ag_db demo_fetched) of
        (f, db) \<Rightarrow> \<lparr>ag_db = db, ag_fwd = f, ag_batch = [], ag_accepted = {EventID critical_event}\<rparr>)"

definition demo_queued :: valkey where
  "demo_queued = fst (ServeHTTP demo_wire (\<lambda>_. None) demo_pub 3 (forwarder_request demo_wire (ag_fwd demo_fetched) ''x'') (fst server_init))"

lemma demo_fetch_step: "system_step demo_wire (\<lambda>_ _. None) (\<lambda>_. None) Some (demo_stored, server_init) (demo_fetched, server_init)"
proof -
  obtain db r where g: "GetPendingEvents demo_wire demo_env 50 (ag_db demo_stored) = (db, r)" by (metis surj_pair)
  from agent_step.agent_fetch [OF this] show ?thesis by (intro sys_agent) (simp_all add: demo_fetched_def g)
qed

lemma demo_post_step:
  "system_step demo_wire (\<lambda>_ _. None) (\<lambda>_. None) Some (demo_fetched, server_init) (demo_posted, demo_queued, snd server_init)"
proof -
  let ?ev = "hd (ag_batch demo_fetched)"
  have "length (ag_batch demo_fetched) = 1" by code_simp
  then have batch: "ag_batch demo_fetched = [?ev]" by (cases "ag_batch demo_fetched") auto
  have id: "EventID ?ev = EventID critical_event" by code_simp
  have ten: "TenantID ?ev = fwd_tenantID (ag_fwd demo_fetched)" by code_simp
  have "TenantID ?ev = TenantID critical_event" by code_simp
  then have m: "json_Marshal demo_wire ?ev = Inr ''x''" using id by (simp add: demo_wire_def)
  have req: "forwarder_request demo_wire f ''x'' =
      \<lparr>req_Method = ''POST'', req_tenant_id = fwd_tenantID f, req_body = BodyEvent critical_event, req_trailing = TrailingEOF\<rparr>" for f
    by (simp add: forwarder_request_def maxIngestBodyBytes_def demo_wire_def)
  have fresh: "pub_id demo_pub \<notin> fst ` set (vk_stream (fst server_init))" by (simp add: server_init_def)
  have "snd (ServeHTTP demo_wire (\<lambda>_. None) demo_pub 3 (forwarder_request demo_wire (ag_fwd demo_fetched) ''x'') (fst server_init)) = 202"
    unfolding req by code_simp
  then have h: "ServeHTTP demo_wire (\<lambda>_. None) demo_pub 3 (forwarder_request demo_wire (ag_fwd demo_fetched) ''x'') (fst server_init) = (demo_queued, 202)"
    by (simp add: demo_queued_def prod_eq_iff)
  obtain f db where send: "sendEvent demo_wire (sqlite_ops demo_wire (\<lambda>_ _. None)) demo_send ?ev
      (ag_fwd demo_fetched, ag_db demo_fetched) = (f, db)" by (metis surj_pair)
  have "posted demo_wire (ag_fwd demo_fetched) demo_send ?ev"
    using ten m by (simp add: posted_def accepted_def demo_send_def)
  moreover have "ag_accepted demo_fetched = {}" by (simp add: demo_fetched_def demo_stored_def split: prod.split)
  moreover have "case se_Do demo_send of Inl _ \<Rightarrow> True | Inr resp \<Rightarrow> StatusCode resp = int 202" "se_NewRequest demo_send = None"
    by (simp_all add: demo_send_def)
  ultimately show ?thesis
    using sys_post [OF batch ten m fresh h _ _ send, of Some "snd server_init"] by (simp add: demo_posted_def send id)
qed


text \<open>\<open>MarkFailed\<close> only changes the retry columns.\<close>

lemma MarkFailed_tables:
  "event_ids (disk (fst (MarkFailed env i ra s))) = event_ids (disk s)"
  "dlq_ids (disk (fst (MarkFailed env i ra s))) = dlq_ids (disk s)"
proof -
  obtain s' err where m: "MarkFailed env i ra s = (s', err)" by (metis surj_pair)
  have ids: "er_event_id ` (\<lambda>x. if er_event_id x = i then retry_row n ts x else x) ` A = er_event_id ` A" for n ts A
    unfolding image_image by (rule image_cong) (simp_all add: retry_row_def)
  show "event_ids (disk (fst (MarkFailed env i ra s))) = event_ids (disk s)"
    using MarkFailed_cases [OF m] by (elim disjE exE conjE) (simp_all add: m event_ids_def ids del: if_image_distrib)
  show "dlq_ids (disk (fst (MarkFailed env i ra s))) = dlq_ids (disk s)"
    using MarkFailed_cases [OF m] m by (auto simp: dlq_ids_def)
qed

text \<open>An event whose JSON text is larger than the handler's limit is never delivered and never dead-lettered: the
  server answers 413, which the forwarder treats as a transient failure, so the event stays where it is
  and is tried again.\<close>

lemma oversize_event_stuck:
  assumes m: "json_Marshal js ev = Inr payload" "maxIngestBodyBytes < length payload"
    and t: "TenantID ev = fwd_tenantID f" "fwd_tenantID f \<noteq> []"
    and h: "ServeHTTP js up penv now (forwarder_request js f payload) vk = (vk', status)"
    and e: "case se_Do env of Inl _ \<Rightarrow> True | Inr resp \<Rightarrow> StatusCode resp = int status" "se_NewRequest env = None"
    and s: "sendEvent js (sqlite_ops js tp) env ev (f, s) = (f', s')"
  shows "vk' = vk \<and> status = 413 \<and> event_ids (disk s') = event_ids (disk s) \<and> dlq_ids (disk s') = dlq_ids (disk s)"
proof -
  have st: "vk' = vk" "status = 413" using h m(2) t(2) by (auto simp: ServeHTTP_def forwarder_request_def)
  then have "\<exists>ra. s' = fst (MarkFailed (store_env.truncate (se_store env)) (EventID ev) ra s)"
    using s e m(1) t(1) by (auto simp: sendEvent_def sqlite_ops_def Let_def split: sum.splits if_splits)
  with st MarkFailed_tables show ?thesis by auto
qed

section \<open>When everything works\<close>

lemma Validate_received: "Validate up (e\<lparr>ReceivedAt := t\<rparr>) = None \<longleftrightarrow> Validate up e = None"
  by (simp add: Validate_None_iff event_valid_def field_limits_def)

lemma persisted_key: "persisted u pg e \<Longrightarrow> TenantID e' = TenantID e \<Longrightarrow> EventID e' = EventID e \<Longrightarrow> persisted u pg e'"
  by (simp add: persisted_def event_key_def)

text \<open>A valid event of acceptable size is accepted when Valkey works.\<close>

lemma ServeHTTP_accepts:
  assumes codec: "codec_faithful js up" and total: "\<forall>e. Validate up e = None \<longrightarrow> (\<exists>d. json_Marshal js e = Inr d)"
    and ev: "Validate up ev = None" "TenantID ev = fwd_tenantID f" "json_Marshal js ev = Inr payload"
    and fits: "length payload \<le> maxIngestBodyBytes" and pub: "pub_err penv = None"
  shows "snd (ServeHTTP js up penv now (forwarder_request js f payload) vk) = 202"
proof -
  from codec_valid [OF codec ev(3,1)] obtain e where e: "json_Unmarshal js payload = Inr e" "Validate up e = None"
    "TenantID e = TenantID ev" by blast
  obtain d where d: "json_Marshal js (e\<lparr>ReceivedAt := now\<rparr>) = Inr d" using total e(2) Validate_received [of up now e] by blast
  have "fwd_tenantID f \<noteq> []" using ev(1,2) by (auto simp: Validate_None_iff event_valid_def id_regex_match_def)
  with e d fits pub ev(2) show ?thesis
    by (simp add: ServeHTTP_def forwarder_request_def Publish_def Serialize_def Validate_received Let_def)
qed


text \<open>A codec that writes the tenant and the identifier and reads them back into the example event.\<close>

definition pair_codec :: codec where
  "pair_codec = \<lparr>json_Marshal = (\<lambda>e. if CHR '' '' \<in> set (TenantID e) then Inl (errors_New ''blank'') else Inr (TenantID e @ CHR '' '' # EventID e)),
     json_Unmarshal = (\<lambda>d. Inr (sample_event\<lparr>TenantID := takeWhile (\<lambda>c. c \<noteq> CHR '' '') d, EventID := tl (dropWhile (\<lambda>c. c \<noteq> CHR '' '') d)\<rparr>))\<rparr>"

lemma valid_tenant_blank: "Validate up e = None \<Longrightarrow> CHR '' '' \<notin> set (TenantID e)"
proof -
  assume "Validate up e = None"
  then have "list_all id_char (TenantID e)" by (simp add: Validate_None_iff event_valid_def id_regex_match_def)
  moreover have "\<not> id_char (CHR '' '')" by code_simp
  ultimately show ?thesis by (auto simp: list_all_iff)
qed

lemma pair_codec_read:
  assumes "json_Marshal pair_codec e = Inr d"
  shows "json_Unmarshal pair_codec d = Inr (sample_event\<lparr>TenantID := TenantID e, EventID := EventID e\<rparr>)"
proof -
  have d: "d = TenantID e @ CHR '' '' # EventID e" "\<forall>c \<in> set (TenantID e). c \<noteq> CHR '' ''"
    using assms by (auto simp: pair_codec_def split: if_splits)
  then have "takeWhile (\<lambda>c. c \<noteq> CHR '' '') d = TenantID e" "dropWhile (\<lambda>c. c \<noteq> CHR '' '') d = CHR '' '' # EventID e"
    by (simp_all add: takeWhile_append2 dropWhile_append2)
  then show ?thesis by (simp add: pair_codec_def)
qed

lemma pair_codec_faithful: "codec_faithful pair_codec (\<lambda>_. None)"
proof -
  have "Validate (\<lambda>_. None) (sample_event\<lparr>TenantID := TenantID e, EventID := EventID e\<rparr>) = None" if "Validate (\<lambda>_. None) e = None" for e
    using that sample_event_valid by (simp add: Validate_None_iff event_valid_def field_limits_def)
  then show ?thesis by (auto simp: codec_faithful_def pair_codec_read)
qed


end
