(* ===== verification/Server_Commands.thy ===== *)
theory Server_Commands
  imports Server_Ledger Go_Text
begin

text \<open>
  The programs of the server: \<open>src/server/cmd/api/main.go\<close>, which serves the HTTP API, and
  \<open>src/server/cmd/worker/main.go\<close>, which runs the consumer. The multiplexer of \<open>net/http\<close> is modelled on the escaped path of a
  request: the path is cleaned, a path that was not clean is redirected, and the segments are
  unescaped before they are compared with the patterns. Connections and listening can fail; signals are
  the end of a run.
\<close>

section \<open>The multiplexer\<close>

datatype api_handler = HandleIngest | HandleEvents | HandleAlerts | HandleHealth

text \<open>The patterns of \<open>mux.Handle\<close> and \<open>mux.HandleFunc\<close>, as segments.\<close>

definition api_routes :: "(string list \<times> api_handler) list" where
  "api_routes = [([''v1'', ''ingest''], HandleIngest), ([''v1'', ''events''], HandleEvents), ([''v1'', ''alerts''], HandleAlerts),
     ([''health''], HandleHealth)]"

text \<open>\<open>path.Clean\<close> on a rooted path: empty segments and dots disappear, two dots remove a segment.\<close>

fun clean_segments :: "string list \<Rightarrow> string list \<Rightarrow> string list" where
  "clean_segments acc [] = rev acc"
| "clean_segments acc (s # ss) =
     (if s = [] \<or> s = ''.'' then clean_segments acc ss
      else if s = ''..'' then clean_segments (tl acc) ss
      else clean_segments (s # acc) ss)"

definition join_segments :: "string list \<Rightarrow> string" where
  "join_segments ss = (if ss = [] then ''/'' else concat (map (\<lambda>s. CHR ''/'' # s) ss))"

definition cleanPath :: "string \<Rightarrow> string" where
  "cleanPath p =
     (if p = [] then ''/''
      else
        let p = (if hd p \<noteq> CHR ''/'' then CHR ''/'' # p else p);
            np = join_segments (clean_segments [] (split_byte (CHR ''/'') p))
        in if last p = CHR ''/'' \<and> np \<noteq> ''/'' then np @ ''/'' else np)"

text \<open>\<open>url.PathUnescape\<close>; a segment that cannot be unescaped is compared as it is.\<close>

fun PathUnescape :: "string \<Rightarrow> string option" where
  "PathUnescape [] = Some []"
| "PathUnescape (c # cs) =
     (if c = CHR ''%'' then
        (case cs of
           a # b # rest \<Rightarrow>
             (case (digit_of 16 a, digit_of 16 b) of
                (Some x, Some y) \<Rightarrow> map_option (\<lambda>t. char_of (16 * x + y) # t) (PathUnescape rest)
              | _ \<Rightarrow> None)
         | _ \<Rightarrow> None)
      else map_option (\<lambda>t. c # t) (PathUnescape cs))"

definition segment_text :: "string \<Rightarrow> string" where
  "segment_text s = (case PathUnescape s of None \<Rightarrow> s | Some t \<Rightarrow> t)"

definition mux_match :: "string \<Rightarrow> api_handler option" where
  "mux_match path = map_of api_routes (map segment_text (split_byte (CHR ''/'') (tl path)))"

datatype mux_answer = MuxRedirect string | MuxHandler api_handler | MuxNotFound

definition mux_find :: "string \<Rightarrow> mux_answer" where
  "mux_find path = (case mux_match path of None \<Rightarrow> MuxNotFound | Some h \<Rightarrow> MuxHandler h)"

definition mux_handler :: "string \<Rightarrow> string \<Rightarrow> mux_answer" where
  "mux_handler method escapedPath =
     (if method = ''CONNECT'' then mux_find escapedPath
      else if cleanPath escapedPath \<noteq> escapedPath then MuxRedirect (cleanPath escapedPath)
      else mux_find escapedPath)"

section \<open>The API server\<close>

record api_request =
  ar_Path :: string
  ar_http :: http_request

datatype api_response = ApiStatus nat | ApiMoved string | ApiEvents nat "event_view list" | ApiAlerts nat "alert list"

definition api_serve ::
    "codec \<Rightarrow> (string \<Rightarrow> go_error option) \<Rightarrow> publish_env \<Rightarrow> go_time \<Rightarrow> go_error option \<Rightarrow> api_request \<Rightarrow> valkey \<times> postgres \<Rightarrow>
     (valkey \<times> postgres) \<times> api_response" where
  "api_serve js up env now queryErr r s =
     (case s of (vk, pg) \<Rightarrow>
      let method = req_Method (ar_http r); tenant = req_tenant_id (ar_http r) in
      case mux_handler method (ar_Path r) of
        MuxRedirect path \<Rightarrow> (s, ApiMoved path)
      | MuxNotFound \<Rightarrow> (s, ApiStatus 404)
      | MuxHandler HandleIngest \<Rightarrow> (case ServeHTTP js up env now (ar_http r) vk of (vk1, st) \<Rightarrow> ((vk1, pg), ApiStatus st))
      | MuxHandler HandleEvents \<Rightarrow> (case ServeEvents method tenant queryErr pg of (st, rows) \<Rightarrow> (s, ApiEvents st rows))
      | MuxHandler HandleAlerts \<Rightarrow> (case ServeAlerts method tenant queryErr pg of (st, rows) \<Rightarrow> (s, ApiAlerts st rows))
      | MuxHandler HandleHealth \<Rightarrow> (s, ApiStatus 200))"

text \<open>The requests of one run, each with what it meets.\<close>

record api_env =
  ae_pub :: publish_env
  ae_now :: go_time
  ae_queryErr :: "go_error option"

fun api_run ::
    "codec \<Rightarrow> (string \<Rightarrow> go_error option) \<Rightarrow> (api_env \<times> api_request) list \<Rightarrow> valkey \<times> postgres \<Rightarrow> (valkey \<times> postgres) \<times> api_response list" where
  "api_run js up [] s = (s, [])"
| "api_run js up ((env, r) # rs) s =
     (case api_serve js up (ae_pub env) (ae_now env) (ae_queryErr env) r s of (s1, resp) \<Rightarrow>
      case api_run js up rs s1 of (s2, resps) \<Rightarrow> (s2, resp # resps))"

text \<open>The start of the program: the address it listens on, or the message of \<open>log.Fatalf\<close>. A run serves requests
  until the signal, then \<open>Shutdown\<close> finishes them or fails.\<close>

record connect_env =
  ce_pingValkey :: "go_error option"
  ce_newPool :: "go_error option"
  ce_pingDatabase :: "go_error option"

definition connect :: "(string \<Rightarrow> string) \<Rightarrow> connect_env \<Rightarrow> string + server_config" where
  "connect getenv env =
     (let cfg = LoadConfig getenv in
      case InitValkey (ce_pingValkey env) (sv_ValkeyAddr cfg) of
        Some e \<Rightarrow> Inl (''Valkey Init Error: '' @ err_text e)
      | None \<Rightarrow>
        (case InitDatabase (ce_newPool env) (ce_pingDatabase env) of
           Some e \<Rightarrow> Inl (''Database Init Error: '' @ err_text e)
         | None \<Rightarrow> Inr cfg))"

definition api_main ::
    "codec \<Rightarrow> (string \<Rightarrow> go_error option) \<Rightarrow> (string \<Rightarrow> string) \<Rightarrow> connect_env \<Rightarrow> go_error option \<Rightarrow> go_error option \<Rightarrow>
     (api_env \<times> api_request) list \<Rightarrow> valkey \<times> postgres \<Rightarrow> (valkey \<times> postgres) \<times> (string + api_response list)" where
  "api_main js up getenv cenv listenErr shutdownErr rs s =
     (case connect getenv cenv of
        Inl msg \<Rightarrow> (s, Inl msg)
      | Inr cfg \<Rightarrow>
        (case listenErr of
           Some e \<Rightarrow> (s, Inl (''ListenAndServe error: '' @ err_text e))
         | None \<Rightarrow>
           (case api_run js up rs s of (s1, resps) \<Rightarrow>
              (s1, case shutdownErr of Some e \<Rightarrow> Inl (''Server forced to shutdown: '' @ err_text e) | None \<Rightarrow> Inr resps))))"

section \<open>The worker\<close>

definition worker_main ::
    "codec \<Rightarrow> (string \<Rightarrow> go_error option) \<Rightarrow> pg_uuid \<Rightarrow> (string \<Rightarrow> string) \<Rightarrow> connect_env \<Rightarrow> go_error option \<Rightarrow> message_env list \<Rightarrow>
     go_error + pending_info list \<Rightarrow> bool \<Rightarrow> (bool \<times> read_answer) list \<Rightarrow> valkey \<times> postgres \<Rightarrow> (valkey \<times> postgres) \<times> string option" where
  "worker_main js up u getenv cenv groupErr envs pending ctx_done rs s =
     (case connect getenv cenv of
        Inl msg \<Rightarrow> (s, Some msg)
      | Inr _ \<Rightarrow>
        (case consumer_Start js up u groupErr envs pending ctx_done rs s of
           (s1, Some e) \<Rightarrow> (s1, Some (''Consumer encountered fatal error: '' @ err_text e))
         | (s1, None) \<Rightarrow> (s1, None)))"

section \<open>Clean paths\<close>

definition clean_segment :: "string \<Rightarrow> bool" where
  "clean_segment s \<longleftrightarrow> s \<noteq> [] \<and> s \<noteq> ''.'' \<and> s \<noteq> ''..'' \<and> CHR ''/'' \<notin> set s"

lemma clean_segments_clean:
  "\<forall>s \<in> set ss. CHR ''/'' \<notin> set s \<Longrightarrow> list_all clean_segment acc \<Longrightarrow> list_all clean_segment (clean_segments acc ss)"
proof (induction acc ss rule: clean_segments.induct)
  case (2 acc s ss)
  then show ?case by (cases acc) (auto simp: clean_segment_def)
qed simp

lemma clean_segments_id: "list_all clean_segment ss \<Longrightarrow> clean_segments acc ss = rev acc @ ss"
  by (induction ss arbitrary: acc) (auto simp: clean_segment_def)

lemma split_byte_no: "\<forall>s \<in> set (split_byte c p). c \<notin> set s"
  by (induction p) (auto split: list.splits)

lemma split_join:
  assumes "\<forall>s \<in> set ss. CHR ''/'' \<notin> set s"
  shows "split_byte (CHR ''/'') (concat (map (\<lambda>s. CHR ''/'' # s) ss)) = [] # ss"
  using assms
proof (induction ss)
  case (Cons s ss)
  show ?case
  proof (cases ss)
    case Nil
    then show ?thesis using Cons.prems by (simp add: split_byte_none)
  next
    case (Cons t ts)
    then have "split_byte (CHR ''/'') (s @ CHR ''/'' # t @ concat (map (\<lambda>s. CHR ''/'' # s) ts)) = s # split_byte (CHR ''/'') (t @ concat (map (\<lambda>s. CHR ''/'' # s) ts))"
      using Cons.prems by (intro split_byte_append) simp
    moreover have "split_byte (CHR ''/'') (t @ concat (map (\<lambda>s. CHR ''/'' # s) ts)) = t # ts"
      using Cons.IH Cons.prems \<open>ss = t # ts\<close> by simp
    ultimately show ?thesis using \<open>ss = t # ts\<close> by simp
  qed
qed simp

lemma clean_segments_trailing: "clean_segments acc (ss @ [[]]) = clean_segments acc ss"
  by (induction acc ss rule: clean_segments.induct) simp_all

text \<open>A path of clean segments, without or with a slash at the end, is clean.\<close>

lemma cleanPath_join:
  assumes "list_all clean_segment ss"
  shows "cleanPath (join_segments ss) = join_segments ss"
    and "ss \<noteq> [] \<Longrightarrow> cleanPath (join_segments ss @ ''/'') = join_segments ss @ ''/''"
proof -
  have no: "\<forall>s \<in> set ss. CHR ''/'' \<notin> set s" using assms by (auto simp: list_all_iff clean_segment_def)
  have id: "clean_segments [] ([] # ss) = ss" using clean_segments_id [OF assms, of "[]"] by simp
  show "cleanPath (join_segments ss) = join_segments ss"
  proof (cases ss rule: rev_cases)
    case Nil
    then show ?thesis by (simp add: cleanPath_def join_segments_def)
  next
    case (snoc us v)
    then have v: "v \<noteq> []" "CHR ''/'' \<notin> set v" using assms by (auto simp: clean_segment_def)
    then have "last v \<noteq> CHR ''/''" using last_in_set by metis
    then have "last (join_segments ss) \<noteq> CHR ''/''" using v(1) by (simp add: snoc join_segments_def)
    moreover have "hd (join_segments ss) = CHR ''/''" by (cases ss) (simp_all add: join_segments_def)
    ultimately show ?thesis
      using split_join [OF no] id snoc by (auto simp: cleanPath_def Let_def join_segments_def)
  qed
  assume ne: "ss \<noteq> []"
  have "join_segments ss @ ''/'' = concat (map (\<lambda>s. CHR ''/'' # s) (ss @ [[]]))" using ne by (simp add: join_segments_def)
  then have "split_byte (CHR ''/'') (join_segments ss @ ''/'') = [] # ss @ [[]]" using split_join [of "ss @ [[]]"] no by simp
  moreover have "clean_segments [] ([] # ss @ [[]]) = ss" using clean_segments_trailing [of "[]" "[] # ss"] id by simp
  moreover have "hd (join_segments ss @ ''/'') = CHR ''/''" "join_segments ss \<noteq> ''/''"
    using ne assms by (cases ss; auto simp: join_segments_def clean_segment_def)+
  ultimately show "cleanPath (join_segments ss @ ''/'') = join_segments ss @ ''/''" by (simp add: cleanPath_def Let_def)
qed

lemma cleanPath_shape:
  "\<exists>ss. list_all clean_segment ss \<and> (cleanPath p = join_segments ss \<or> ss \<noteq> [] \<and> cleanPath p = join_segments ss @ ''/'')"
proof (cases "p = []")
  case True
  then show ?thesis by (intro exI [of _ "[]"]) (simp add: cleanPath_def join_segments_def)
next
  case False
  let ?p = "if hd p \<noteq> CHR ''/'' then CHR ''/'' # p else p"
  let ?ss = "clean_segments [] (split_byte (CHR ''/'') ?p)"
  have "list_all clean_segment ?ss" by (rule clean_segments_clean [OF split_byte_no]) simp
  moreover have "join_segments ?ss \<noteq> ''/'' \<longrightarrow> ?ss \<noteq> []" by (simp add: join_segments_def)
  ultimately show ?thesis using False by (intro exI [of _ ?ss]) (auto simp: cleanPath_def Let_def)
qed

lemma cleanPath_idem: "cleanPath (cleanPath p) = cleanPath p"
  using cleanPath_shape [of p] cleanPath_join by metis

section \<open>Requests as steps of the server\<close>

lemma api_serve_step:
  assumes "api_serve js up env now qe r s = (s', resp)" "pub_id env \<notin> fst ` set (vk_stream (fst s))"
  shows "(server_step js up u)\<^sup>*\<^sup>* s s'" "snd s' = snd s" "set (vk_stream (fst s')) \<subseteq> insert (pub_id env) (fst ` set (vk_stream (fst s))) \<times> UNIV"
proof -
  obtain vk pg where s: "s = (vk, pg)" by (metis surj_pair)
  obtain vk1 st where h: "ServeHTTP js up env now (ar_http r) vk = (vk1, st)" by (metis surj_pair)
  from assms(1) have c: "s' = s \<or> s' = (vk1, pg)"
    by (auto simp: api_serve_def s h Let_def split: mux_answer.splits api_handler.splits prod.splits)
  have "server_step js up u s (vk1, pg)" using server_step.ingest [OF h] assms(2) by (simp add: s)
  with c show "(server_step js up u)\<^sup>*\<^sup>* s s'" by auto
  from c show "snd s' = snd s" by (auto simp: s)
  from h have "set (vk_stream vk1) \<subseteq> insert (pub_id env) (fst ` set (vk_stream vk)) \<times> UNIV"
    by (cases rule: ServeHTTP_cases) (force simp: xadd_def)+
  with c show "set (vk_stream (fst s')) \<subseteq> insert (pub_id env) (fst ` set (vk_stream (fst s))) \<times> UNIV"
    by (force simp: s)
qed

definition fresh_ids :: "(api_env \<times> api_request) list \<Rightarrow> valkey \<Rightarrow> bool" where
  "fresh_ids rs vk \<longleftrightarrow> distinct (map (\<lambda>(env, r). pub_id (ae_pub env)) rs) \<and>
     (\<forall>(env, r) \<in> set rs. pub_id (ae_pub env) \<notin> fst ` set (vk_stream vk))"

lemma api_run_steps:
  "fresh_ids rs (fst s) \<Longrightarrow> (server_step js up u)\<^sup>*\<^sup>* s (fst (api_run js up rs s)) \<and> snd (fst (api_run js up rs s)) = snd s"
proof (induction js up rs s rule: api_run.induct)
  case (2 js up env r rs s)
  obtain s1 resp where h: "api_serve js up (ae_pub env) (ae_now env) (ae_queryErr env) r s = (s1, resp)" by (metis surj_pair)
  have "pub_id (ae_pub env) \<notin> fst ` set (vk_stream (fst s))" using 2(2) by (simp add: fresh_ids_def)
  note step = api_serve_step [OF h this]
  have "pub_id (ae_pub e) \<notin> fst ` set (vk_stream (fst s1))" if "(e, q) \<in> set rs" for e q
  proof -
    have "pub_id (ae_pub e) \<noteq> pub_id (ae_pub env)" using 2(2) that by (force simp: fresh_ids_def)
    moreover have "pub_id (ae_pub e) \<notin> fst ` set (vk_stream (fst s))" using 2(2) that by (auto simp: fresh_ids_def)
    ultimately show ?thesis using step(3) by auto
  qed
  then have "fresh_ids rs (fst s1)" using 2(2) by (auto simp: fresh_ids_def)
  with 2(1) [OF h [symmetric]] have "(server_step js up u)\<^sup>*\<^sup>* s1 (fst (api_run js up rs s1)) \<and> snd (fst (api_run js up rs s1)) = snd s1"
    by blast
  with step(1,2) have "(server_step js up u)\<^sup>*\<^sup>* s (fst (api_run js up rs s1)) \<and> snd (fst (api_run js up rs s1)) = snd s"
    by (metis rtranclp_trans)
  then show ?case by (simp add: h case_prod_unfold)
qed simp

section \<open>Properties\<close>


definition demo_api :: "(api_env \<times> api_request) list" where
  "demo_api = [(\<lparr>ae_pub = demo_pub, ae_now = 3, ae_queryErr = None\<rparr>, \<lparr>ar_Path = ''/v1/ingest'', ar_http = demo_req\<rparr>)]"


text \<open>
  Routing is exact: a request is answered by a handler only if its path is clean and names the handler
  (up to percent encoding), nothing but a POST to \<open>/v1/ingest\<close> can add to the stream, the rows in an answer are rows
  of the tenant in the query, and a redirect leads to a path that is not redirected again.
\<close>

theorem api_routing:
  assumes "api_serve js up env now qe r (vk, pg) = (s', resp)"
  shows "(s' \<noteq> (vk, pg) \<longrightarrow> req_Method (ar_http r) = ''POST'' \<and> cleanPath (ar_Path r) = ar_Path r \<and>
        map segment_text (split_byte (CHR ''/'') (tl (ar_Path r))) = [''v1'', ''ingest'']) \<and>
    (case resp of
       ApiEvents _ rows \<Rightarrow> \<forall>ev \<in> set rows. ev_TenantID ev = req_tenant_id (ar_http r)
     | ApiAlerts _ rows \<Rightarrow> \<forall>al \<in> set rows. alert_TenantID al = req_tenant_id (ar_http r)
     | ApiMoved path \<Rightarrow> \<forall>m q. mux_handler m path \<noteq> MuxRedirect q
     | ApiStatus _ \<Rightarrow> True)"
proof -
  have post: "fst (ServeHTTP js up env now (ar_http r) vk) = vk" if "req_Method (ar_http r) \<noteq> ''POST''"
    using that by (simp add: ServeHTTP_def)
  have route: "map segment_text (split_byte (CHR ''/'') (tl p)) = [''v1'', ''ingest'']" if "mux_match p = Some HandleIngest" for p
    using that by (auto simp: mux_match_def api_routes_def split: if_splits)
  have ingest: "cleanPath p = p \<and> mux_match p = Some HandleIngest" if "mux_handler ''POST'' p = MuxHandler HandleIngest" for p
    using that by (auto simp: mux_handler_def mux_find_def split: if_splits option.splits)
  have settle: "mux_handler m (cleanPath p) \<noteq> MuxRedirect q" for m p q
    by (simp add: mux_handler_def mux_find_def cleanPath_idem split: option.split)
  have moved: "path = cleanPath (ar_Path r)" if "mux_handler (req_Method (ar_http r)) (ar_Path r) = MuxRedirect path" for path
    using that by (auto simp: mux_handler_def mux_find_def split: if_splits option.splits)
  have "s' \<noteq> (vk, pg) \<longrightarrow> req_Method (ar_http r) = ''POST'' \<and> mux_handler ''POST'' (ar_Path r) = MuxHandler HandleIngest"
    using assms post
    by (cases "req_Method (ar_http r) = ''POST''")
       (auto simp: api_serve_def Let_def split: mux_answer.splits api_handler.splits prod.splits)
  moreover have "case resp of
       ApiEvents _ rows \<Rightarrow> \<forall>ev \<in> set rows. ev_TenantID ev = req_tenant_id (ar_http r)
     | ApiAlerts _ rows \<Rightarrow> \<forall>al \<in> set rows. alert_TenantID al = req_tenant_id (ar_http r)
     | ApiMoved path \<Rightarrow> \<forall>m q. mux_handler m path \<noteq> MuxRedirect q
     | ApiStatus _ \<Rightarrow> True"
    using assms settle moved
    by (auto simp: api_serve_def Let_def ServeEvents_def ServeAlerts_def newest_def view_of_def dest!: in_set_takeD
        split: mux_answer.splits api_handler.splits prod.splits if_splits)
  ultimately show ?thesis using ingest route by blast
qed

theorem api_routing_witness:
  "\<not> (\<exists>q. mux_handler ''GET'' (cleanPath ''//v1/./x/../events'') = MuxRedirect q)"
proof -
  have c: "cleanPath ''//v1/./x/../events'' = ''/v1/events''" by code_simp
  let ?r = "\<lparr>ar_Path = ''//v1/./x/../events'', ar_http = demo_req\<lparr>req_Method := ''GET''\<rparr>\<rparr>"
  have "api_serve demo_js (\<lambda>_. None) demo_pub 3 None ?r (fst server_init, snd server_init) = (server_init, ApiMoved ''/v1/events'')"
    by (simp add: api_serve_def mux_handler_def c Let_def)
  from api_routing [OF this] show ?thesis unfolding c by simp
qed

end
